(* ===== verification/Prelude.thy ===== *)
theory Prelude
  imports Main "HOL-Library.AList" "HOL-Library.Sublist" "HOL-Library.List_Lexorder" "HOL-Library.Char_ord"
begin

text \<open>
  The prelude of the development: Go's built-in containers and the parts of Go's standard
  library that the kernel uses, with the lemmas every component shares.

  A Go map is an association list with distinct keys (\<open>wf_map\<close>); the list order is the order in
  which one \<^verbatim>\<open>range\<close> over it happens to run, so a result that does not depend on Go's random
  iteration order is one that depends on the map only through its lookup function.
  A Go \<^verbatim>\<open>error\<close> result is an option (\<open>None\<close> is \<^verbatim>\<open>nil\<close>) or the left
  half of a sum. A 64-bit integer is an \<open>int\<close> with the wrap-around written out.
\<close>

named_theorems map_simps \<open>lookup and key facts about Go maps\<close>
named_theorems err_simps \<open>unfolding of the error combinators\<close>

section \<open>Go maps\<close>

type_synonym ('k, 'v) gomap = "('k \<times> 'v) list"

abbreviation mget :: "('k, 'v) gomap \<Rightarrow> 'k \<Rightarrow> 'v option" where
  "mget \<equiv> map_of"

abbreviation mput :: "'k \<Rightarrow> 'v \<Rightarrow> ('k, 'v) gomap \<Rightarrow> ('k, 'v) gomap" where
  "mput \<equiv> AList.update"

abbreviation mdel :: "'k \<Rightarrow> ('k, 'v) gomap \<Rightarrow> ('k, 'v) gomap" where
  "mdel \<equiv> AList.delete"

abbreviation mkeys :: "('k, 'v) gomap \<Rightarrow> 'k list" where
  "mkeys m \<equiv> map fst m"

definition wf_map :: "('k, 'v) gomap \<Rightarrow> bool" where
  "wf_map m \<longleftrightarrow> distinct (mkeys m)"

lemma mget_put [simp, map_simps]: "mget (mput k v m) = (mget m)(k \<mapsto> v)"
  by (rule update_conv')

lemma mget_del [simp, map_simps]: "mget (mdel k m) = (mget m)(k := None)"
  by (rule delete_conv')

lemma wf_map_Nil [simp, intro]: "wf_map []"
  by (simp add: wf_map_def)

lemma wf_map_put [simp, intro]: "wf_map m \<Longrightarrow> wf_map (mput k v m)"
  by (simp add: wf_map_def distinct_update)

lemma wf_map_del [simp, intro]: "wf_map m \<Longrightarrow> wf_map (mdel k m)"
  by (simp add: wf_map_def distinct_delete)

lemma mget_in_set: "mget m k = Some v \<Longrightarrow> (k, v) \<in> set m"
  by (rule map_of_SomeD)

lemma mem_mget [map_simps]: "wf_map m \<Longrightarrow> (k, v) \<in> set m \<longleftrightarrow> mget m k = Some v"
  by (auto simp: wf_map_def dest: map_of_SomeD)

lemma bex_mem_mget: "wf_map m \<Longrightarrow> (\<exists>x\<in>set m. P x) \<longleftrightarrow> (\<exists>k v. mget m k = Some v \<and> P (k, v))"
  by (auto simp flip: mem_mget)

lemma ball_mem_mget: "wf_map m \<Longrightarrow> (\<forall>x\<in>set m. P x) \<longleftrightarrow> (\<forall>k v. mget m k = Some v \<longrightarrow> P (k, v))"
  by (auto simp flip: mem_mget)

lemma mget_map_kv [map_simps]: "mget (map (\<lambda>(k, v). (k, f k v)) m) k = map_option (f k) (mget m k)"
  by (induction m) auto

lemma mdel_fresh: "mget m k = None \<Longrightarrow> mdel k m = m"
  by (simp add: delete_id map_of_eq_None_iff)

lemma mdel_mput_fresh: "mget m k = None \<Longrightarrow> mdel k (mput k v m) = m"
  by (induction m) (auto simp: AList.delete_eq split: if_splits)

lemma mkeys_put: "set (mkeys (mput k v m)) = insert k (set (mkeys m))"
  by (induction m) auto

lemma length_mput_fresh: "mget m k = None \<Longrightarrow> length (mput k v m) = Suc (length m)"
  by (induction m) (auto split: if_splits)

text \<open>The copy loop \<^verbatim>\<open>for k, v := range src { dst[k] = v }\<close>, from \<open>dst\<close>.\<close>

definition copy_into :: "('k, 'v) gomap \<Rightarrow> ('k, 'v) gomap \<Rightarrow> ('k, 'v) gomap" where
  "copy_into src dst = fold (\<lambda>(k, v) m. mput k v m) src dst"

lemma wf_map_copy_into [simp, intro]: "wf_map dst \<Longrightarrow> wf_map (copy_into src dst)"
  unfolding copy_into_def by (induction src arbitrary: dst) auto

lemma mput_append_fresh: "mget m k = None \<Longrightarrow> mput k v m = m @ [(k, v)]"
  by (induction m) (auto split: if_splits)

lemma mget_copy_into_dom: "mget (copy_into src dst) k \<noteq> None \<longleftrightarrow> mget src k \<noteq> None \<or> mget dst k \<noteq> None"
  unfolding copy_into_def by (induction src arbitrary: dst) (auto split: if_splits)

lemma copy_into_append:
  "wf_map (dst @ src) \<Longrightarrow> copy_into src dst = dst @ src"
  unfolding copy_into_def
proof (induction src arbitrary: dst)
  case Nil
  then show ?case by simp
next
  case (Cons a src)
  obtain k v where a: "a = (k, v)" by force
  from Cons.prems a have "mget dst k = None" by (force simp: wf_map_def map_of_eq_None_iff)
  then have "mput k v dst = dst @ [(k, v)]" by (rule mput_append_fresh)
  with Cons.IH [of "dst @ [(k, v)]"] Cons.prems a show ?case by simp
qed

lemma mget_copy_into:
  "wf_map src \<Longrightarrow> mget (copy_into src dst) k = (case mget src k of Some v \<Rightarrow> Some v | None \<Rightarrow> mget dst k)"
proof (induction src arbitrary: dst)
  case Nil
  then show ?case by (simp add: copy_into_def)
next
  case (Cons a src)
  obtain j v where a: "a = (j, v)" by force
  from Cons.prems a have "wf_map src" "mget src j = None" by (auto simp: wf_map_def map_of_eq_None_iff)
  with Cons.IH [of "mput j v dst"] a show ?case by (auto simp: copy_into_def split: option.splits)
qed

lemma copy_into_Nil [simp]: "wf_map src \<Longrightarrow> copy_into src [] = src"
  using copy_into_append [of "[]" src] by simp

text \<open>Ranging over a nil slice or map does nothing.\<close>

definition elems :: "'a list option \<Rightarrow> 'a list" where
  "elems xs = (case xs of None \<Rightarrow> [] | Some ys \<Rightarrow> ys)"

lemma elems_simps [simp]: "elems None = []" "elems (Some xs) = xs"
  by (simp_all add: elems_def)

section \<open>Sets of strings: Go's map[K]struct{}\<close>

text \<open>A \<^verbatim>\<open>map[K]struct{}\<close> used as a set is a list without repetition.\<close>

abbreviation set_add :: "'a \<Rightarrow> 'a list \<Rightarrow> 'a list" where
  "set_add \<equiv> List.insert"

abbreviation set_del :: "'a \<Rightarrow> 'a list \<Rightarrow> 'a list" where
  "set_del \<equiv> removeAll"

section \<open>Errors\<close>

text \<open>\<open>err_seq e1 e2\<close> is Go's \<^verbatim>\<open>if err := e1; err != nil { return err }; return e2\<close>.\<close>

definition err_seq :: "'e option \<Rightarrow> 'e option \<Rightarrow> 'e option" where
  "err_seq e1 e2 = (case e1 of Some e \<Rightarrow> Some e | None \<Rightarrow> e2)"

definition err_if :: "bool \<Rightarrow> 'e \<Rightarrow> 'e option" where
  "err_if b e = (if b then Some e else None)"

lemma err_seq_None [simp, err_simps]: "err_seq e1 e2 = None \<longleftrightarrow> e1 = None \<and> e2 = None"
  by (cases e1) (auto simp: err_seq_def)

lemma err_if_None [simp, err_simps]: "err_if b e = None \<longleftrightarrow> \<not> b"
  by (simp add: err_if_def)

lemma err_seq_simps [simp]: "err_seq (Some e) e2 = Some e" "err_seq None e2 = e2"
  by (simp_all add: err_seq_def)

lemma err_if_simps [simp]: "err_if True e = Some e" "err_if False e = None"
  by (simp_all add: err_if_def)

text \<open>
  A function that returns a value and an error is a sum; \<open>ebind\<close> is the early return on the error,
  \<open>efold\<close> a loop that stops at its first error.
\<close>

named_theorems ok_simps \<open>when a computation with errors succeeds\<close>

definition ebind :: "'e + 'a \<Rightarrow> ('a \<Rightarrow> 'e + 'b) \<Rightarrow> 'e + 'b" where
  "ebind m f = (case m of Inl e \<Rightarrow> Inl e | Inr x \<Rightarrow> f x)"

lemma ebind_simps [simp]: "ebind (Inl e) f = Inl e" "ebind (Inr x) f = f x"
  by (simp_all add: ebind_def)

lemma ebind_Inr [ok_simps]: "ebind m f = Inr y \<longleftrightarrow> (\<exists>x. m = Inr x \<and> f x = Inr y)"
  by (cases m) auto

lemma ebind_cong [fundef_cong]:
  "m = m' \<Longrightarrow> (\<And>x. m' = Inr x \<Longrightarrow> f x = g x) \<Longrightarrow> ebind m f = ebind m' g"
  by (cases m') auto

definition echeck :: "'e option \<Rightarrow> 'e + unit" where
  "echeck err = (case err of None \<Rightarrow> Inr () | Some e \<Rightarrow> Inl e)"

lemma echeck_Inr [simp, ok_simps]: "echeck err = Inr u \<longleftrightarrow> err = None"
  by (cases err) (simp_all add: echeck_def)

fun efold :: "('a \<Rightarrow> 's \<Rightarrow> 'e + 's) \<Rightarrow> 'a list \<Rightarrow> 's \<Rightarrow> 'e + 's" where
  "efold f [] s = Inr s"
| "efold f (x # xs) s = ebind (f x s) (efold f xs)"

lemma efold_append: "efold f (xs @ ys) s = ebind (efold f xs s) (efold f ys)"
  by (induction xs arbitrary: s) (auto simp: ebind_def split: sum.splits)

lemma efold_inv:
  assumes "efold f xs s = Inr s'" "P s" "\<And>x s s'. x \<in> set xs \<Longrightarrow> P s \<Longrightarrow> f x s = Inr s' \<Longrightarrow> P s'"
  shows "P s'"
  using assms
proof (induction xs arbitrary: s)
  case Nil
  then show ?case by simp
next
  case (Cons x xs)
  then obtain s1 where "f x s = Inr s1" "efold f xs s1 = Inr s'" by (auto simp: ok_simps)
  with Cons show ?case by (metis list.set_intros)
qed

lemma efold_filter:
  "(\<And>x s. x \<in> set xs \<Longrightarrow> \<not> P x \<Longrightarrow> f x s = Inr s) \<Longrightarrow> efold f xs s = efold f (filter P xs) s"
proof (induction xs arbitrary: s)
  case Nil
  then show ?case by simp
next
  case (Cons x xs)
  then show ?case by (cases "P x") (auto intro!: ebind_cong)
qed

fun first_err :: "('a \<Rightarrow> 'e option) \<Rightarrow> 'a list \<Rightarrow> 'e option" where
  "first_err f [] = None"
| "first_err f (x # xs) = err_seq (f x) (first_err f xs)"

lemma first_err_None [simp, err_simps]: "first_err f xs = None \<longleftrightarrow> (\<forall>x\<in>set xs. f x = None)"
  by (induction xs) auto

section \<open>64-bit integers\<close>

text \<open>Go's int64 (and int on the 64-bit targets): two's complement with wrap-around.\<close>

definition wrap64 :: "int \<Rightarrow> int" where
  "wrap64 x = (x + 2 ^ 63) mod 2 ^ 64 - 2 ^ 63"

lemma wrap64_id [simp]: "- (2 ^ 63) \<le> x \<Longrightarrow> x < 2 ^ 63 \<Longrightarrow> wrap64 x = x"
  by (simp add: wrap64_def)

lemma wrap64_range: "- (2 ^ 63) \<le> wrap64 x \<and> wrap64 x < 2 ^ 63"
proof -
  have "0 \<le> (x + 2 ^ 63) mod 2 ^ 64" "(x + 2 ^ 63) mod 2 ^ 64 < 2 ^ 64" by simp_all
  then show ?thesis by (simp add: wrap64_def)
qed

lemma wrap64_overflow: "wrap64 (2 ^ 63) = - (2 ^ 63)"
  by (simp add: wrap64_def)

lemma wrap64_eq_iff: "wrap64 x = wrap64 y \<longleftrightarrow> (x - y) mod 2 ^ 64 = 0"
proof -
  have "wrap64 x = wrap64 y \<longleftrightarrow> (x + 2 ^ 63) mod 2 ^ 64 = (y + 2 ^ 63) mod 2 ^ 64"
    by (simp add: wrap64_def)
  also have "\<dots> \<longleftrightarrow> (x - y) mod 2 ^ 64 = 0"
    by (simp only: mod_eq_dvd_iff) (simp add: mod_eq_0_iff_dvd)
  finally show ?thesis .
qed

lemma wrap64_succ_neq: "wrap64 (x + 1) \<noteq> x"
proof (cases "- (2 ^ 63) \<le> x \<and> x < 2 ^ 63")
  case True
  then have "wrap64 x = x" by simp
  moreover have "wrap64 (x + 1) \<noteq> wrap64 x" by (simp only: wrap64_eq_iff) simp
  ultimately show ?thesis by simp
next
  case False
  with wrap64_range [of "x + 1"] show ?thesis by auto
qed

section \<open>Strings\<close>

definition HasPrefix :: "string \<Rightarrow> string \<Rightarrow> bool" where
  "HasPrefix s p \<longleftrightarrow> take (length p) s = p"

definition HasSuffix :: "string \<Rightarrow> string \<Rightarrow> bool" where
  "HasSuffix s p \<longleftrightarrow> HasPrefix (rev s) (rev p)"

lemma HasPrefix_append [simp]: "HasPrefix (p @ s) p"
  by (simp add: HasPrefix_def)

lemma HasPrefix_iff: "HasPrefix s p \<longleftrightarrow> (\<exists>t. s = p @ t)"
  by (auto simp: HasPrefix_def) (metis append_take_drop_id)

lemma HasSuffix_iff: "HasSuffix s p \<longleftrightarrow> (\<exists>t. s = t @ p)"
proof -
  have "HasSuffix s p \<longleftrightarrow> (\<exists>t. rev s = rev p @ t)"
    by (simp add: HasSuffix_def HasPrefix_iff)
  also have "\<dots> \<longleftrightarrow> (\<exists>t. s = rev t @ p)"
    by (metis rev_append rev_rev_ident)
  also have "\<dots> \<longleftrightarrow> (\<exists>t. s = t @ p)"
    by (metis rev_rev_ident)
  finally show ?thesis .
qed

text \<open>strings.SplitN for a one-character separator: at most \<open>n\<close> parts, the last one unsplit.\<close>

fun SplitN :: "nat \<Rightarrow> char \<Rightarrow> string \<Rightarrow> string list" where
  "SplitN 0 c s = []"
| "SplitN (Suc 0) c s = [s]"
| "SplitN (Suc (Suc n)) c s =
     (let a = takeWhile (\<lambda>x. x \<noteq> c) s
      in if length a = length s then [s] else a # SplitN (Suc n) c (drop (Suc (length a)) s))"

text \<open>strings.ReplaceAll for a non-empty pattern: left to right, no overlaps.\<close>

function ReplaceAll :: "string \<Rightarrow> string \<Rightarrow> string \<Rightarrow> string" where
  "ReplaceAll s old new =
     (if s = [] \<or> old = [] then s
      else if HasPrefix s old then new @ ReplaceAll (drop (length old) s) old new
      else hd s # ReplaceAll (tl s) old new)"
  by pat_completeness auto
termination
  by (relation "measure (\<lambda>(s, old, new). length s)") auto

declare ReplaceAll.simps [simp del]

lemma ReplaceAll_Nil [simp]: "ReplaceAll [] old new = []"
  by (simp add: ReplaceAll.simps)

text \<open>The segment after the last colon; the whole string when there is none.\<close>

definition after_last_colon :: "string \<Rightarrow> string" where
  "after_last_colon s = rev (takeWhile (\<lambda>c. c \<noteq> CHR '':'') (rev s))"

text \<open>fmt's %d.\<close>

fun string_of_nat :: "nat \<Rightarrow> string" where
  "string_of_nat n =
     (if n < 10 then [char_of (48 + n)] else string_of_nat (n div 10) @ [char_of (48 + n mod 10)])"

declare string_of_nat.simps [simp del]

definition string_of_int :: "int \<Rightarrow> string" where
  "string_of_int i = (if i < 0 then CHR ''-'' # string_of_nat (nat (- i)) else string_of_nat (nat i))"

fun digits_val :: "nat \<Rightarrow> string \<Rightarrow> nat" where
  "digits_val a [] = a"
| "digits_val a (c # cs) = digits_val (10 * a + (of_char c - 48)) cs"

lemma digits_val_append: "digits_val a (xs @ ys) = digits_val (digits_val a xs) ys"
  by (induction xs arbitrary: a) auto

lemma digits_val_string_of_nat: "digits_val 0 (string_of_nat n) = n"
proof (induction n rule: string_of_nat.induct)
  case (1 n)
  show ?case
  proof (cases "n < 10")
    case True
    then show ?thesis by (simp add: string_of_nat.simps [of n])
  next
    case False
    with 1 have "digits_val 0 (string_of_nat (n div 10)) = n div 10" by simp
    with False show ?thesis
      by (simp add: string_of_nat.simps [of n] digits_val_append)
  qed
qed

lemma string_of_nat_inj: "string_of_nat m = string_of_nat n \<Longrightarrow> m = n"
  by (metis digits_val_string_of_nat)

lemma string_of_nat_digits: "c \<in> set (string_of_nat n) \<Longrightarrow> \<exists>d<10. c = char_of (48 + d :: nat)"
proof (induction n rule: string_of_nat.induct)
  case (1 n)
  show ?case
  proof (cases "n < 10")
    case True
    with 1 show ?thesis by (auto simp: string_of_nat.simps [of n])
  next
    case False
    have "\<exists>d<10. (char_of (48 + n mod 10) :: char) = char_of (48 + d :: nat)"
      by (rule exI [of _ "n mod 10"]) simp
    with False 1 show ?thesis by (auto simp: string_of_nat.simps [of n] simp del: char_of_eq_iff)
  qed
qed

section \<open>Lists\<close>

lemma filter_map_fst_set: "set [u. (u, x) \<leftarrow> m, P x] = {u. \<exists>x. (u, x) \<in> set m \<and> P x}"
  by auto

lemma distinct_filter_keys: "wf_map m \<Longrightarrow> distinct [u. (u, x) \<leftarrow> m, P x]"
proof (induction m)
  case Nil
  then show ?case by simp
next
  case (Cons a m)
  obtain u x where a: "a = (u, x)" by force
  from Cons.prems a have "u \<notin> set (map fst m)" "wf_map m" by (auto simp: wf_map_def)
  then show ?case using Cons.IH a by (force simp: filter_map_fst_set)
qed

end
