(* ===== verification/Graph.thy ===== *)
theory Graph
  imports Prelude
begin

text \<open>
  The data model of internal/graph: URNs, strata, properties, nodes, relations, rewrite
  envelopes and log entries. A record per struct, one selector per Go attribute, with the
  prefix naming the struct (n_ node, r_ relation, p_ property, e_ envelope, pr_ persisted
  rewrite). Go's string-based types (URN, TypeID, RewriteCategory, PortColor) stay strings,
  because JSON can put any string there.
\<close>

type_synonym urn = string
type_synonym type_id = string
type_synonym rewrite_category = string
type_synonym port_color = string

text \<open>
  Time is nanoseconds after Go's zero instant, so \<^verbatim>\<open>time.Time{}\<close> is 0 and IsZero is
  equality with 0; UTC only changes the presentation of an instant.
\<close>

type_synonym time = int

definition IsZero :: "time \<Rightarrow> bool" where
  "IsZero t \<longleftrightarrow> t = 0"

section \<open>URNs\<close>

datatype urn_error = BadPrefix string | TooFewParts string

definition Validate_URN :: "urn \<Rightarrow> urn_error option" where
  "Validate_URN s =
     (if \<not> HasPrefix s ''urn:moos:'' then Some (BadPrefix s)
      else let parts = SplitN 4 (CHR '':'') s in
        if length parts < 4 \<or> parts ! 3 = '''' then Some (TooFewParts s) else None)"

section \<open>Strata\<close>

datatype stratum = S0 | S1 | S2 | S3 | S4

fun stratum_int :: "stratum \<Rightarrow> int" where
  "stratum_int S0 = 0" | "stratum_int S1 = 1" | "stratum_int S2 = 2"
| "stratum_int S3 = 3" | "stratum_int S4 = 4"

instantiation stratum :: linorder
begin

definition less_eq_stratum :: "stratum \<Rightarrow> stratum \<Rightarrow> bool" where
  "less_eq_stratum a b \<longleftrightarrow> stratum_int a \<le> stratum_int b"

definition less_stratum :: "stratum \<Rightarrow> stratum \<Rightarrow> bool" where
  "less_stratum a b \<longleftrightarrow> stratum_int a < stratum_int b"

instance
proof
  fix x y z :: stratum
  show "(x < y) = (x \<le> y \<and> \<not> y \<le> x)" by (auto simp: less_eq_stratum_def less_stratum_def)
  show "x \<le> x" by (simp add: less_eq_stratum_def)
  show "x \<le> y \<Longrightarrow> y \<le> z \<Longrightarrow> x \<le> z" by (simp add: less_eq_stratum_def)
  show "x \<le> y \<Longrightarrow> y \<le> x \<Longrightarrow> x = y" by (cases x; cases y) (simp_all add: less_eq_stratum_def)
  show "x \<le> y \<or> y \<le> x" by (auto simp: less_eq_stratum_def)
qed

end

text \<open>The String method on an arbitrary int (Stratum is an int type, so JSON may hold any).\<close>

definition stratum_String :: "int \<Rightarrow> string" where
  "stratum_String s =
     (if s = 0 then ''S0'' else if s = 1 then ''S1'' else if s = 2 then ''S2''
      else if s = 3 then ''S3'' else if s = 4 then ''S4''
      else ''S?('' @ string_of_int s @ '')'')"

definition ParseStratum :: "string \<Rightarrow> string + stratum" where
  "ParseStratum s =
     (if s = ''S0'' \<or> s = ''s0'' then Inr S0
      else if s = ''S1'' \<or> s = ''s1'' then Inr S1
      else if s = ''S2'' \<or> s = ''s2'' then Inr S2
      else if s = ''S3'' \<or> s = ''s3'' then Inr S3
      else if s = ''S4'' \<or> s = ''s4'' then Inr S4
      else Inl s)"

section \<open>Property values\<close>

text \<open>
  Go's \<^verbatim>\<open>any\<close> as the kernel uses it: nil, booleans, strings, Go integers (int, int32, int64),
  float64, arrays and objects. A float64 is given by its shortest decimal, \<open>VFloat m e\<close> for
  m * 10^e with m = 0 or m not divisible by 10, which determines it and is what fmt prints.
\<close>

datatype val =
    VNil
  | VBool bool
  | VStr string
  | VInt int
  | VFloat int int
  | VArr "val list"
  | VObj "(string \<times> val) list"

text \<open>The checked type assertion \<^verbatim>\<open>s, ok := v.(string)\<close>, and its value with ok dropped.\<close>

fun as_string :: "val \<Rightarrow> string option" where
  "as_string (VStr s) = Some s"
| "as_string _ = None"

definition string_or_empty :: "val \<Rightarrow> string" where
  "string_or_empty v = (case as_string v of Some s \<Rightarrow> s | None \<Rightarrow> '''')"

record property =
  p_Value :: val
  p_Mutability :: string
  p_AuthorityScope :: string
  p_StratumOrigin :: int
  p_ValidationType :: string

definition Immutable :: "property \<Rightarrow> bool" where
  "Immutable p \<longleftrightarrow> p_Mutability p = ''immutable''"

section \<open>Nodes and relations\<close>

record node =
  n_URN :: urn
  n_TypeID :: type_id
  n_Properties :: "(string, property) gomap"
  n_CreatedAt :: time
  n_Version :: int

abbreviation WF02 :: rewrite_category where "WF02 \<equiv> ''WF02''"
abbreviation WF15 :: rewrite_category where "WF15 \<equiv> ''WF15''"
abbreviation WF19 :: rewrite_category where "WF19 \<equiv> ''WF19''"
abbreviation WF21 :: rewrite_category where "WF21 \<equiv> ''WF21''"

record relation =
  r_URN :: urn
  r_RewriteCategory :: rewrite_category
  r_SrcURN :: urn
  r_SrcPort :: string
  r_TgtURN :: urn
  r_TgtPort :: string
  r_ContractURN :: urn
  r_CreatedAt :: time

section \<open>Rewrites\<close>

text \<open>
  The four operations; \<open>OtherRewrite\<close> stands for any other string of the RewriteType type.
\<close>

datatype rewrite_type = ADD | LINK | MUTATE | UNLINK | OtherRewrite string

fun rewrite_string :: "rewrite_type \<Rightarrow> string" where
  "rewrite_string ADD = ''ADD''"
| "rewrite_string LINK = ''LINK''"
| "rewrite_string MUTATE = ''MUTATE''"
| "rewrite_string UNLINK = ''UNLINK''"
| "rewrite_string (OtherRewrite s) = s"

definition rewrite_type_of :: "string \<Rightarrow> rewrite_type" where
  "rewrite_type_of s =
     (if s = ''ADD'' then ADD else if s = ''LINK'' then LINK else if s = ''MUTATE'' then MUTATE
      else if s = ''UNLINK'' then UNLINK else OtherRewrite s)"

lemma rewrite_type_of_string: "rewrite_type_of (rewrite_string t) = t \<longleftrightarrow> t \<notin> OtherRewrite ` {''ADD'', ''LINK'', ''MUTATE'', ''UNLINK''}"
  by (cases t) (auto simp: rewrite_type_of_def)

record envelope =
  e_RewriteType :: rewrite_type
  e_Actor :: urn
  e_SessionURN :: urn
  e_NodeURN :: urn
  e_TypeID :: type_id
  e_Properties :: "(string, property) gomap"
  e_RelationURN :: urn
  e_SrcURN :: urn
  e_SrcPort :: string
  e_TgtURN :: urn
  e_TgtPort :: string
  e_RewriteCategory :: rewrite_category
  e_ContractURN :: urn
  e_TargetURN :: urn
  e_Field :: string
  e_NewValue :: val
  e_ExpectedVersion :: int
  e_PropertySpec :: "property option"

text \<open>A composite literal leaves every attribute it does not name at its zero value.\<close>

definition zero_envelope :: "rewrite_type \<Rightarrow> urn \<Rightarrow> envelope" where
  "zero_envelope rt actor =
     \<lparr> e_RewriteType = rt, e_Actor = actor, e_SessionURN = '''', e_NodeURN = '''', e_TypeID = '''',
       e_Properties = [], e_RelationURN = '''', e_SrcURN = '''', e_SrcPort = '''', e_TgtURN = '''',
       e_TgtPort = '''', e_RewriteCategory = '''', e_ContractURN = '''', e_TargetURN = '''',
       e_Field = '''', e_NewValue = VNil, e_ExpectedVersion = 0, e_PropertySpec = None \<rparr>"

record eval_result =
  AffectedNodeURN :: urn
  AffectedRelationURN :: urn

record persisted_rewrite =
  pr_Envelope :: envelope
  pr_AppliedAt :: time
  pr_Timestamp :: time
  pr_LogSeq :: int

lemmas zero_envelope_simps [simp] = zero_envelope_def

section \<open>Properties of the data model\<close>

lemma ParseStratum_String: "ParseStratum (stratum_String (stratum_int s)) = Inr s"
  by (cases s) (simp_all add: stratum_String_def ParseStratum_def)

lemma ParseStratum_Inl: "ParseStratum s = Inl e \<Longrightarrow> e = s"
  by (auto simp: ParseStratum_def split: if_splits)

lemma stratum_less_S3: "s < S3 \<longleftrightarrow> s = S0 \<or> s = S1 \<or> s = S2"
  by (cases s) (simp_all add: less_stratum_def)

end
