(* ===== verification/GraphState.thy ===== *)
theory GraphState
  imports Graph
begin

text \<open>
  internal/graph/state.go: the graph state with its three secondary indexes, the index
  maintenance helpers, Rebuild, Clone and the accessors that fall back to a scan when an
  index was never initialised. An index is an option because a nil map (\<open>None\<close>) and an
  empty map (\<open>Some []\<close>) behave differently in the accessors.
\<close>

type_synonym bucket_map = "(string, urn list) gomap"

record graph_state =
  Nodes :: "(urn, node) gomap"
  Relations :: "(urn, relation) gomap"
  NodesByType :: "bucket_map option"
  RelationsBySrc :: "bucket_map option"
  RelationsByTgt :: "bucket_map option"

definition NewGraphState :: graph_state where
  "NewGraphState =
     \<lparr> Nodes = [], Relations = [], NodesByType = Some [], RelationsBySrc = Some [],
       RelationsByTgt = Some [] \<rparr>"

section \<open>Buckets\<close>

text \<open>Reading a missing key of a map of sets gives the nil set, which ranges like an empty one.\<close>

definition bucket :: "bucket_map \<Rightarrow> string \<Rightarrow> urn list" where
  "bucket idx k = (case mget idx k of Some us \<Rightarrow> us | None \<Rightarrow> [])"

definition bucket_add :: "bucket_map \<Rightarrow> string \<Rightarrow> urn \<Rightarrow> bucket_map" where
  "bucket_add idx k u = mput k (set_add u (bucket idx k)) idx"

definition bucket_remove :: "bucket_map \<Rightarrow> string \<Rightarrow> urn \<Rightarrow> bucket_map" where
  "bucket_remove idx k u =
     (case mget idx k of
        None \<Rightarrow> idx
      | Some us \<Rightarrow>
          let us' = set_del u us
          in if us' = [] then mdel k idx else mput k us' idx)"

definition IndexAddNodeByType :: "bucket_map option \<Rightarrow> urn \<Rightarrow> type_id \<Rightarrow> bucket_map option" where
  "IndexAddNodeByType idx nodeURN typeID =
     (case idx of None \<Rightarrow> None | Some m \<Rightarrow> Some (bucket_add m typeID nodeURN))"

definition IndexRemoveNodeByType :: "bucket_map option \<Rightarrow> urn \<Rightarrow> type_id \<Rightarrow> bucket_map option" where
  "IndexRemoveNodeByType idx nodeURN typeID =
     (case idx of None \<Rightarrow> None | Some m \<Rightarrow> Some (bucket_remove m typeID nodeURN))"

text \<open>The two endpoint helpers do the same to the source and the target index.\<close>

definition index_add_end :: "bucket_map option \<Rightarrow> urn \<Rightarrow> urn \<Rightarrow> bucket_map option" where
  "index_add_end idx relURN endURN =
     (case idx of
        None \<Rightarrow> None
      | Some m \<Rightarrow> if endURN \<noteq> '''' then Some (bucket_add m endURN relURN) else Some m)"

definition index_remove_end :: "bucket_map option \<Rightarrow> urn \<Rightarrow> urn \<Rightarrow> bucket_map option" where
  "index_remove_end idx relURN endURN =
     (case idx of
        None \<Rightarrow> None
      | Some m \<Rightarrow> if endURN \<noteq> '''' then Some (bucket_remove m endURN relURN) else Some m)"

definition IndexAddRelationEndpoints ::
  "bucket_map option \<Rightarrow> bucket_map option \<Rightarrow> urn \<Rightarrow> urn \<Rightarrow> urn \<Rightarrow> bucket_map option \<times> bucket_map option" where
  "IndexAddRelationEndpoints bySrc byTgt relURN srcURN tgtURN =
     (index_add_end bySrc relURN srcURN, index_add_end byTgt relURN tgtURN)"

definition IndexRemoveRelationEndpoints ::
  "bucket_map option \<Rightarrow> bucket_map option \<Rightarrow> urn \<Rightarrow> urn \<Rightarrow> urn \<Rightarrow> bucket_map option \<times> bucket_map option" where
  "IndexRemoveRelationEndpoints bySrc byTgt relURN srcURN tgtURN =
     (index_remove_end bySrc relURN srcURN, index_remove_end byTgt relURN tgtURN)"

section \<open>Rebuild, Clone, accessors\<close>

definition rebuild_nodes :: "(urn, node) gomap \<Rightarrow> bucket_map option" where
  "rebuild_nodes ns =
     fold (\<lambda>(u, n) idx. IndexAddNodeByType idx u (n_TypeID n)) ns (Some [])"

definition rebuild_relations :: "(urn, relation) gomap \<Rightarrow> bucket_map option \<times> bucket_map option" where
  "rebuild_relations rs =
     fold (\<lambda>(u, r) (bs, bt). IndexAddRelationEndpoints bs bt u (r_SrcURN r) (r_TgtURN r))
       rs (Some [], Some [])"

definition Rebuild :: "graph_state \<Rightarrow> graph_state" where
  "Rebuild s =
     s\<lparr> NodesByType := rebuild_nodes (Nodes s),
        RelationsBySrc := fst (rebuild_relations (Relations s)),
        RelationsByTgt := snd (rebuild_relations (Relations s)) \<rparr>"

definition clone_sets :: "bucket_map option \<Rightarrow> bucket_map option" where
  "clone_sets src =
     (case src of None \<Rightarrow> None | Some m \<Rightarrow> Some (map (\<lambda>(k, us). (k, map (\<lambda>u. u) us)) m))"

definition Clone :: "graph_state \<Rightarrow> graph_state" where
  "Clone s =
     \<lparr> Nodes = map (\<lambda>(k, v). (k, v\<lparr> n_Properties := map (\<lambda>(pk, pv). (pk, pv)) (n_Properties v) \<rparr>)) (Nodes s),
       Relations = map (\<lambda>(k, v). (k, v)) (Relations s),
       NodesByType = clone_sets (NodesByType s),
       RelationsBySrc = clone_sets (RelationsBySrc s),
       RelationsByTgt = clone_sets (RelationsByTgt s) \<rparr>"

definition NodesOfType :: "graph_state \<Rightarrow> type_id \<Rightarrow> urn list" where
  "NodesOfType s t =
     (case NodesByType s of
        Some idx \<Rightarrow> bucket idx t
      | None \<Rightarrow> [u. (u, n) \<leftarrow> Nodes s, n_TypeID n = t])"

definition RelationsFrom :: "graph_state \<Rightarrow> urn \<Rightarrow> urn list" where
  "RelationsFrom s src =
     (case RelationsBySrc s of
        Some idx \<Rightarrow> bucket idx src
      | None \<Rightarrow> [u. (u, r) \<leftarrow> Relations s, r_SrcURN r = src])"

definition RelationsTo :: "graph_state \<Rightarrow> urn \<Rightarrow> urn list" where
  "RelationsTo s tgt =
     (case RelationsByTgt s of
        Some idx \<Rightarrow> bucket idx tgt
      | None \<Rightarrow> [u. (u, r) \<leftarrow> Relations s, r_TgtURN r = tgt])"

text \<open>Clone copies; as a value it is the state it copies.\<close>

lemma clone_sets_id: "clone_sets x = x"
  by (cases x) (simp_all add: clone_sets_def)

lemma Clone_id [simp]: "Clone s = s"
  by (simp add: Clone_def clone_sets_id case_prod_beta)

section \<open>Index consistency\<close>

text \<open>
  The interface the state's operations rely on: adding and removing a member of a bucket,
  and reading a bucket back. Two providers implement it, the by-type index and the endpoint
  index, which ignores the empty URN.
\<close>

definition index_look :: "bucket_map option \<Rightarrow> string \<Rightarrow> urn list" where
  "index_look i k = (case i of None \<Rightarrow> [] | Some m \<Rightarrow> bucket m k)"

definition index_inv :: "bucket_map option \<Rightarrow> bool" where
  "index_inv i \<longleftrightarrow>
     (\<exists>m. i = Some m \<and> wf_map m \<and> (\<forall>k. distinct (bucket m k)) \<and> (\<forall>k. mget m k \<noteq> Some []))"

text \<open>An index indexes a map by a key function when its buckets are exactly the preimages.\<close>

definition indexes ::
  "('i \<Rightarrow> string \<Rightarrow> urn list) \<Rightarrow> 'i \<Rightarrow> (urn \<Rightarrow> 'x option) \<Rightarrow> ('x \<Rightarrow> string) \<Rightarrow> bool" where
  "indexes look i m f \<longleftrightarrow> (\<forall>k. set (look i k) = {u. \<exists>x. m u = Some x \<and> f x = k})"

locale keyed_index =
  fixes add :: "'i \<Rightarrow> string \<Rightarrow> urn \<Rightarrow> 'i"
    and remove :: "'i \<Rightarrow> string \<Rightarrow> urn \<Rightarrow> 'i"
    and look :: "'i \<Rightarrow> string \<Rightarrow> urn list"
    and start :: 'i
    and valid_key :: "string \<Rightarrow> bool"
    and inv :: "'i \<Rightarrow> bool"
  assumes look_start: "look start k = []"
    and inv_start: "inv start"
    and look_add: "inv i \<Longrightarrow> valid_key k \<Longrightarrow>
      set (look (add i k u) k') = (if k' = k then insert u (set (look i k')) else set (look i k'))"
    and look_remove: "inv i \<Longrightarrow> valid_key k \<Longrightarrow>
      set (look (remove i k u) k') = (if k' = k then set (look i k') - {u} else set (look i k'))"
    and inv_add: "inv i \<Longrightarrow> inv (add i k u)"
    and inv_remove: "inv i \<Longrightarrow> inv (remove i k u)"
    and distinct_look: "inv i \<Longrightarrow> distinct (look i k)"
begin

lemma indexes_start: "indexes look start Map.empty f"
  by (simp add: indexes_def look_start)

lemma indexes_insert:
  "inv i \<Longrightarrow> indexes look i m f \<Longrightarrow> m u = None \<Longrightarrow> valid_key (f x) \<Longrightarrow>
   indexes look (add i (f x) u) (m(u \<mapsto> x)) f"
  by (auto simp: indexes_def look_add)

lemma indexes_delete:
  "inv i \<Longrightarrow> indexes look i m f \<Longrightarrow> m u = Some x \<Longrightarrow> valid_key (f x) \<Longrightarrow>
   indexes look (remove i (f x) u) (m(u := None)) f"
  by (auto simp: indexes_def look_remove)

lemma indexes_same_key:
  "indexes look i m f \<Longrightarrow> m u = Some x \<Longrightarrow> f y = f x \<Longrightarrow> indexes look i (m(u \<mapsto> y)) f"
  unfolding indexes_def by (auto split: if_splits)

lemma indexes_build_from:
  assumes "inv i" "indexes look i m f" "\<forall>u\<in>set (map fst xs). m u = None"
    "wf_map xs" "\<forall>x\<in>set xs. valid_key (f (snd x))"
  shows "inv (fold (\<lambda>(u, x) i. add i (f x) u) xs i) \<and>
    indexes look (fold (\<lambda>(u, x) i. add i (f x) u) xs i) (m ++ map_of xs) f"
  using assms
proof (induction xs arbitrary: i m)
  case Nil
  then show ?case by simp
next
  case (Cons a xs)
  obtain u x where a: "a = (u, x)" by force
  let ?i = "add i (f x) u" and ?m = "m(u \<mapsto> x)"
  have 1: "inv ?i" "indexes look ?i ?m f"
    using Cons.prems a by (auto intro: inv_add indexes_insert)
  have 2: "\<forall>u\<in>set (map fst xs). ?m u = None" "wf_map xs" "\<forall>x\<in>set xs. valid_key (f (snd x))"
    using Cons.prems a by (auto simp: wf_map_def)
  have "m ++ map_of (a # xs) = ?m ++ map_of xs"
  proof -
    have "mget xs u = None" using Cons.prems a by (force simp: wf_map_def map_of_eq_None_iff)
    then show ?thesis by (simp add: a fun_eq_iff map_add_def split: option.split)
  qed
  moreover have "fold (\<lambda>(u, x) i. add i (f x) u) (a # xs) i = fold (\<lambda>(u, x) i. add i (f x) u) xs ?i"
    by (simp add: a)
  ultimately show ?case using Cons.IH [OF 1 2] by (simp only:)
qed

lemma indexes_build:
  assumes "wf_map xs" "\<forall>x\<in>set xs. valid_key (f (snd x))"
  shows "inv (fold (\<lambda>(u, x) i. add i (f x) u) xs start)"
    and "indexes look (fold (\<lambda>(u, x) i. add i (f x) u) xs start) (map_of xs) f"
  using indexes_build_from [OF inv_start indexes_start _ assms] by (simp_all)

end

lemma index_inv_Some: "index_inv i \<Longrightarrow> \<exists>m. i = Some m"
  by (auto simp: index_inv_def)

lemma bucket_add_look: "set (bucket (bucket_add m k u) k') =
    (if k' = k then insert u (set (bucket m k')) else set (bucket m k'))"
  by (auto simp: bucket_add_def bucket_def)

lemma bucket_remove_look: "set (bucket (bucket_remove m k u) k') =
    (if k' = k then set (bucket m k') - {u} else set (bucket m k'))"
  by (auto simp: bucket_remove_def bucket_def Let_def removeAll_filter_not_eq filter_empty_conv
      split: option.splits)

lemma set_add_not_Nil: "set_add u us \<noteq> []"
  by (auto simp: List.insert_def)

lemma index_inv_Some_iff: "index_inv (Some m) \<longleftrightarrow>
    wf_map m \<and> (\<forall>k. distinct (bucket m k)) \<and> (\<forall>k. mget m k \<noteq> Some [])"
  by (simp add: index_inv_def)

lemma bucket_Nil [simp]: "bucket [] k = []"
  by (simp add: bucket_def)

lemma bucket_put: "bucket (mput k us m) k' = (if k' = k then us else bucket m k')"
  by (simp add: bucket_def)

lemma bucket_del: "bucket (mdel k m) k' = (if k' = k then [] else bucket m k')"
  by (simp add: bucket_def)

lemma index_inv_put: "index_inv (Some m) \<Longrightarrow> distinct us \<Longrightarrow> us \<noteq> [] \<Longrightarrow> index_inv (Some (mput k us m))"
  unfolding index_inv_Some_iff by (simp add: wf_map_put bucket_put)

lemma index_inv_del: "index_inv (Some m) \<Longrightarrow> index_inv (Some (mdel k m))"
  unfolding index_inv_Some_iff by (simp add: wf_map_del bucket_del)

lemma index_inv_bucket_add: "index_inv (Some m) \<Longrightarrow> index_inv (Some (bucket_add m k u))"
  unfolding bucket_add_def
  by (rule index_inv_put) (simp_all add: index_inv_Some_iff distinct_insert set_add_not_Nil)

lemma index_inv_bucket_remove:
  assumes "index_inv (Some m)"
  shows "index_inv (Some (bucket_remove m k u))"
proof (cases "mget m k")
  case None
  with assms show ?thesis by (simp add: bucket_remove_def)
next
  case (Some us)
  then have "us = bucket m k" by (simp add: bucket_def)
  then have "distinct us" using assms by (simp add: index_inv_Some_iff)
  with Some assms show ?thesis
    by (simp add: bucket_remove_def Let_def index_inv_put index_inv_del distinct_removeAll)
qed

lemma distinct_index_look: "index_inv i \<Longrightarrow> distinct (index_look i k)"
  by (auto simp: index_inv_def index_look_def)

interpretation by_type: keyed_index
  "\<lambda>i k u. IndexAddNodeByType i u k" "\<lambda>i k u. IndexRemoveNodeByType i u k" index_look
  "Some []" "\<lambda>_. True" index_inv
proof
  show "index_look (Some []) k = []" for k by (simp add: index_look_def bucket_def)
  show "index_inv (Some [])" by (simp add: index_inv_def)
  fix i :: "bucket_map option" and k u k'
  assume i: "index_inv i"
  then obtain m where m: "i = Some m" by (auto dest: index_inv_Some)
  show "set (index_look (IndexAddNodeByType i u k) k') =
      (if k' = k then insert u (set (index_look i k')) else set (index_look i k'))"
    by (simp add: m IndexAddNodeByType_def index_look_def bucket_add_look)
  show "set (index_look (IndexRemoveNodeByType i u k) k') =
      (if k' = k then set (index_look i k') - {u} else set (index_look i k'))"
    by (simp add: m IndexRemoveNodeByType_def index_look_def bucket_remove_look)
  show "index_inv (IndexAddNodeByType i u k)" "index_inv (IndexRemoveNodeByType i u k)"
    using i by (simp_all add: m IndexAddNodeByType_def IndexRemoveNodeByType_def
        index_inv_bucket_add index_inv_bucket_remove)
  show "distinct (index_look i k)" using i by (rule distinct_index_look)
qed

interpretation by_end: keyed_index
  "\<lambda>i k u. index_add_end i u k" "\<lambda>i k u. index_remove_end i u k" index_look
  "Some []" "\<lambda>k. k \<noteq> ''''" index_inv
proof
  show "index_look (Some []) k = []" for k by (simp add: index_look_def bucket_def)
  show "index_inv (Some [])" by (simp add: index_inv_def)
  fix i :: "bucket_map option" and k u k' :: string
  assume i: "index_inv i"
  then obtain m where m: "i = Some m" by (auto dest: index_inv_Some)
  show "set (index_look (index_add_end i u k) k') =
      (if k' = k then insert u (set (index_look i k')) else set (index_look i k'))" if "k \<noteq> ''''"
    using that by (simp add: m index_add_end_def index_look_def bucket_add_look)
  show "set (index_look (index_remove_end i u k) k') =
      (if k' = k then set (index_look i k') - {u} else set (index_look i k'))" if "k \<noteq> ''''"
    using that by (simp add: m index_remove_end_def index_look_def bucket_remove_look)
  show "index_inv (index_add_end i u k)" "index_inv (index_remove_end i u k)"
    using i by (simp_all add: m index_add_end_def index_remove_end_def
        index_inv_bucket_add index_inv_bucket_remove)
  show "distinct (index_look i k)" using i by (rule distinct_index_look)
qed

section \<open>The invariant of the state\<close>

text \<open>
  \<open>indexed\<close>: the three indexes are initialised and agree with the maps they index.
  \<open>wf_state\<close>: keys are distinct and equal to the stored URN, every relation joins two existing
  nodes, a WF15 relation names its contract.
\<close>

definition indexed :: "graph_state \<Rightarrow> bool" where
  "indexed s \<longleftrightarrow>
     index_inv (NodesByType s) \<and> indexes index_look (NodesByType s) (mget (Nodes s)) n_TypeID \<and>
     index_inv (RelationsBySrc s) \<and> indexes index_look (RelationsBySrc s) (mget (Relations s)) r_SrcURN \<and>
     index_inv (RelationsByTgt s) \<and> indexes index_look (RelationsByTgt s) (mget (Relations s)) r_TgtURN"

definition wf_node :: "urn \<Rightarrow> node \<Rightarrow> bool" where
  "wf_node u n \<longleftrightarrow> n_URN n = u \<and> u \<noteq> '''' \<and> n_TypeID n \<noteq> '''' \<and> wf_map (n_Properties n)"

definition wf_relation :: "(urn \<Rightarrow> node option) \<Rightarrow> urn \<Rightarrow> relation \<Rightarrow> bool" where
  "wf_relation ns u r \<longleftrightarrow>
     r_URN r = u \<and> u \<noteq> '''' \<and> ns (r_SrcURN r) \<noteq> None \<and> ns (r_TgtURN r) \<noteq> None \<and>
     (r_RewriteCategory r = WF15 \<longrightarrow> r_ContractURN r \<noteq> '''')"

definition wf_state :: "graph_state \<Rightarrow> bool" where
  "wf_state s \<longleftrightarrow>
     wf_map (Nodes s) \<and> wf_map (Relations s) \<and>
     (\<forall>u n. mget (Nodes s) u = Some n \<longrightarrow> wf_node u n) \<and>
     (\<forall>u r. mget (Relations s) u = Some r \<longrightarrow> wf_relation (mget (Nodes s)) u r)"

lemma wf_stateI:
  "wf_map (Nodes s) \<Longrightarrow> wf_map (Relations s) \<Longrightarrow>
   (\<And>u n. mget (Nodes s) u = Some n \<Longrightarrow> wf_node u n) \<Longrightarrow>
   (\<And>u r. mget (Relations s) u = Some r \<Longrightarrow> wf_relation (mget (Nodes s)) u r) \<Longrightarrow> wf_state s"
  by (simp add: wf_state_def)

lemma wf_state_maps: "wf_state s \<Longrightarrow> wf_map (Nodes s)" "wf_state s \<Longrightarrow> wf_map (Relations s)"
  by (simp_all add: wf_state_def)

lemma wf_state_node: "wf_state s \<Longrightarrow> mget (Nodes s) u = Some n \<Longrightarrow> wf_node u n"
  by (simp add: wf_state_def)

lemma wf_state_relation:
  "wf_state s \<Longrightarrow> mget (Relations s) u = Some r \<Longrightarrow> wf_relation (mget (Nodes s)) u r"
  by (simp add: wf_state_def)

lemma wf_state_endpoints:
  assumes "wf_state s" "mget (Relations s) u = Some r"
  shows "r_SrcURN r \<noteq> ''''" "r_TgtURN r \<noteq> ''''"
proof -
  from wf_state_relation [OF assms] obtain n n' where
    "mget (Nodes s) (r_SrcURN r) = Some n" "mget (Nodes s) (r_TgtURN r) = Some n'"
    by (auto simp: wf_relation_def)
  then show "r_SrcURN r \<noteq> ''''" "r_TgtURN r \<noteq> ''''"
    using wf_state_node [OF assms(1)] by (auto simp: wf_node_def)
qed

lemma wf_state_New [simp]: "wf_state NewGraphState"
  by (simp add: wf_state_def NewGraphState_def)

lemma indexed_New [simp]: "indexed NewGraphState"
  by (simp add: indexed_def NewGraphState_def by_type.inv_start by_type.indexes_start)

text \<open>How the invariant reacts to the three updates the operations make.\<close>

lemma wf_relation_put_node: "wf_relation ns u r \<Longrightarrow> wf_relation (ns(v \<mapsto> n)) u r"
  by (simp add: wf_relation_def)

lemma wf_state_put_node:
  "wf_state s \<Longrightarrow> wf_node u n \<Longrightarrow> wf_state (s\<lparr> Nodes := mput u n (Nodes s), NodesByType := x \<rparr>)"
  unfolding wf_state_def by (auto intro: wf_relation_put_node simp: fun_upd_apply split: if_splits)

lemma wf_state_put_relation:
  "wf_state s \<Longrightarrow> wf_relation (mget (Nodes s)) u r \<Longrightarrow>
   wf_state (s\<lparr> Relations := mput u r (Relations s), RelationsBySrc := x, RelationsByTgt := y \<rparr>)"
  unfolding wf_state_def by (auto simp: fun_upd_apply split: if_splits)

lemma wf_state_del_relation:
  "wf_state s \<Longrightarrow>
   wf_state (s\<lparr> Relations := mdel u (Relations s), RelationsBySrc := x, RelationsByTgt := y \<rparr>)"
  unfolding wf_state_def by (auto simp: fun_upd_apply split: if_splits)

section \<open>The accessors return exactly the preimages\<close>

text \<open>
  An index that agrees with its map and the scan of the map that replaces a missing index
  give the same set, without repetition.
\<close>

lemma scan_set: "wf_map m \<Longrightarrow> set [u. (u, x) \<leftarrow> m, f x = k] = {u. \<exists>x. mget m u = Some x \<and> f x = k}"
  by (simp only: filter_map_fst_set mem_mget)

lemma accessor_set:
  assumes "wf_map m" "i = None \<or> indexes index_look i (mget m) f"
  shows "set (case i of Some idx \<Rightarrow> bucket idx k | None \<Rightarrow> [u. (u, x) \<leftarrow> m, f x = k]) =
    {u. \<exists>x. mget m u = Some x \<and> f x = k}"
proof (cases i)
  case None
  then show ?thesis using scan_set [OF assms(1), of f k] by simp
next
  case (Some idx)
  with assms(2) have "set (index_look i k) = {u. \<exists>x. mget m u = Some x \<and> f x = k}"
    by (simp add: indexes_def)
  with Some show ?thesis by (simp add: index_look_def)
qed

lemma set_NodesOfType:
  "wf_state s \<Longrightarrow> indexed s \<Longrightarrow> set (NodesOfType s t) = {u. \<exists>n. mget (Nodes s) u = Some n \<and> n_TypeID n = t}"
  unfolding NodesOfType_def by (rule accessor_set) (simp_all add: wf_state_def indexed_def)

lemma set_RelationsFrom:
  "wf_state s \<Longrightarrow> indexed s \<Longrightarrow>
   set (RelationsFrom s u) = {k. \<exists>r. mget (Relations s) k = Some r \<and> r_SrcURN r = u}"
  unfolding RelationsFrom_def by (rule accessor_set) (simp_all add: wf_state_def indexed_def)

lemma set_RelationsTo:
  "wf_state s \<Longrightarrow> indexed s \<Longrightarrow>
   set (RelationsTo s u) = {k. \<exists>r. mget (Relations s) k = Some r \<and> r_TgtURN r = u}"
  unfolding RelationsTo_def by (rule accessor_set) (simp_all add: wf_state_def indexed_def)

lemma distinct_accessors:
  assumes "indexed s"
  shows "distinct (NodesOfType s t)" "distinct (RelationsFrom s u)" "distinct (RelationsTo s u)"
  using assms distinct_index_look [of "NodesByType s" t] distinct_index_look [of "RelationsBySrc s" u]
    distinct_index_look [of "RelationsByTgt s" u]
  by (auto simp: indexed_def NodesOfType_def RelationsFrom_def RelationsTo_def index_look_def
      dest: index_inv_Some)

section \<open>Rebuild\<close>

lemma rebuild_relations_split:
  "fold (\<lambda>(u, r) (bs, bt). IndexAddRelationEndpoints bs bt u (r_SrcURN r) (r_TgtURN r)) rs (a, b) =
   (fold (\<lambda>(u, r) i. index_add_end i u (r_SrcURN r)) rs a,
    fold (\<lambda>(u, r) i. index_add_end i u (r_TgtURN r)) rs b)"
  by (induction rs arbitrary: a b) (auto simp: IndexAddRelationEndpoints_def split: prod.splits)

lemma Rebuild_maps [simp]: "Nodes (Rebuild s) = Nodes s" "Relations (Rebuild s) = Relations s"
  by (simp_all add: Rebuild_def)

lemma wf_state_cong:
  "Nodes s' = Nodes s \<Longrightarrow> Relations s' = Relations s \<Longrightarrow> wf_state s' = wf_state s"
  by (simp add: wf_state_def)

lemma indexed_Rebuild: "wf_state s \<Longrightarrow> indexed (Rebuild s)"
proof -
  assume wf: "wf_state s"
  have ends: "\<forall>x\<in>set (Relations s). r_SrcURN (snd x) \<noteq> ''''"
    "\<forall>x\<in>set (Relations s). r_TgtURN (snd x) \<noteq> ''''"
    using wf_state_endpoints [OF wf] by (auto simp: mem_mget wf_state_maps [OF wf])
  show ?thesis
    unfolding indexed_def Rebuild_def rebuild_nodes_def rebuild_relations_def rebuild_relations_split
    using by_type.indexes_build [of "Nodes s" n_TypeID] by_end.indexes_build [OF _ ends(1)]
      by_end.indexes_build [OF _ ends(2)] wf_state_maps [OF wf]
    by (simp add: case_prod_unfold)
qed

end
