(* ===== verification/Fold.thy ===== *)
theory Fold
  imports GraphState
begin

text \<open>
  internal/fold/evaluate.go: the four graph operations. \<open>evaluateInPlace\<close> works on a state
  behind a pointer, so its model returns the state it leaves in place together with the result
  or the error; \<open>EvaluateAt\<close> runs it on a clone and drops the clone on error.
\<close>

datatype fold_error =
    ErrNodeExists urn
  | ErrNodeNotFound urn
  | ErrRelationExists urn
  | ErrRelationNotFound urn
  | ErrImmutableProperty string urn
  | ErrFieldNotInScope string urn
  | ErrUnauthorized
  | ErrVersionConflict int int
  | ErrInvalidRewriteType string
  | ErrMissingActor
  | ErrMissingNodeURN
  | ErrMissingTypeID
  | ErrMissingRelationURN
  | ErrMissingSrcTgt
  | ErrMissingTargetField
  | ErrWF15MissingContract

definition validateEnvelopeStructure :: "envelope \<Rightarrow> fold_error option" where
  "validateEnvelopeStructure env =
     (if e_Actor env = '''' then Some ErrMissingActor
      else case e_RewriteType env of
        ADD \<Rightarrow>
          if e_NodeURN env = '''' then Some ErrMissingNodeURN
          else if e_TypeID env = '''' then Some ErrMissingTypeID
          else None
      | LINK \<Rightarrow>
          if e_RelationURN env = '''' then Some ErrMissingRelationURN
          else if e_SrcURN env = '''' \<or> e_TgtURN env = '''' then Some ErrMissingSrcTgt
          else None
      | MUTATE \<Rightarrow>
          if e_TargetURN env = '''' \<or> e_Field env = '''' then Some ErrMissingTargetField else None
      | UNLINK \<Rightarrow>
          if e_RelationURN env = '''' then Some ErrMissingRelationURN else None
      | OtherRewrite _ \<Rightarrow> None)"

definition node_result :: "urn \<Rightarrow> eval_result" where
  "node_result u = \<lparr> AffectedNodeURN = u, AffectedRelationURN = '''' \<rparr>"

definition relation_result :: "urn \<Rightarrow> eval_result" where
  "relation_result u = \<lparr> AffectedNodeURN = '''', AffectedRelationURN = u \<rparr>"

definition new_node :: "envelope \<Rightarrow> time \<Rightarrow> node" where
  "new_node env createdAt =
     \<lparr> n_URN = e_NodeURN env, n_TypeID = e_TypeID env,
       n_Properties = copy_into (e_Properties env) [], n_CreatedAt = createdAt, n_Version = 1 \<rparr>"

definition applyADD :: "graph_state \<Rightarrow> envelope \<Rightarrow> time \<Rightarrow> graph_state \<times> (fold_error + eval_result)" where
  "applyADD state env createdAt =
     (case mget (Nodes state) (e_NodeURN env) of
        Some _ \<Rightarrow> (state, Inl (ErrNodeExists (e_NodeURN env)))
      | None \<Rightarrow>
          (state\<lparr> Nodes := mput (e_NodeURN env) (new_node env createdAt) (Nodes state),
                  NodesByType := IndexAddNodeByType (NodesByType state) (e_NodeURN env) (e_TypeID env) \<rparr>,
           Inr (node_result (e_NodeURN env))))"

definition new_relation :: "envelope \<Rightarrow> time \<Rightarrow> relation" where
  "new_relation env createdAt =
     \<lparr> r_URN = e_RelationURN env, r_RewriteCategory = e_RewriteCategory env, r_SrcURN = e_SrcURN env,
       r_SrcPort = e_SrcPort env, r_TgtURN = e_TgtURN env, r_TgtPort = e_TgtPort env,
       r_ContractURN = e_ContractURN env, r_CreatedAt = createdAt \<rparr>"

definition applyLINK :: "graph_state \<Rightarrow> envelope \<Rightarrow> time \<Rightarrow> graph_state \<times> (fold_error + eval_result)" where
  "applyLINK state env createdAt =
     (if mget (Nodes state) (e_SrcURN env) = None then (state, Inl (ErrNodeNotFound (e_SrcURN env)))
      else if mget (Nodes state) (e_TgtURN env) = None then (state, Inl (ErrNodeNotFound (e_TgtURN env)))
      else if mget (Relations state) (e_RelationURN env) \<noteq> None
        then (state, Inl (ErrRelationExists (e_RelationURN env)))
      else if e_RewriteCategory env = WF15 \<and> e_ContractURN env = ''''
        then (state, Inl ErrWF15MissingContract)
      else
        let idx = IndexAddRelationEndpoints (RelationsBySrc state) (RelationsByTgt state)
                    (e_RelationURN env) (e_SrcURN env) (e_TgtURN env)
        in (state\<lparr> Relations := mput (e_RelationURN env) (new_relation env createdAt) (Relations state),
                   RelationsBySrc := fst idx, RelationsByTgt := snd idx \<rparr>,
            Inr (relation_result (e_RelationURN env))))"

text \<open>The attributes of a property that a MUTATE keeps: all but the value.\<close>

definition keep_spec :: "property \<Rightarrow> val \<Rightarrow> property" where
  "keep_spec spec v =
     \<lparr> p_Value = v, p_Mutability = p_Mutability spec, p_AuthorityScope = p_AuthorityScope spec,
       p_StratumOrigin = p_StratumOrigin spec, p_ValidationType = p_ValidationType spec \<rparr>"

definition mutated_node :: "node \<Rightarrow> string \<Rightarrow> property \<Rightarrow> node" where
  "mutated_node n field p =
     n\<lparr> n_Version := wrap64 (n_Version n + 1), n_Properties := mput field p (n_Properties n) \<rparr>"

definition applyMUTATE :: "graph_state \<Rightarrow> envelope \<Rightarrow> graph_state \<times> (fold_error + eval_result)" where
  "applyMUTATE state env =
     (case mget (Nodes state) (e_TargetURN env) of
        None \<Rightarrow> (state, Inl (ErrNodeNotFound (e_TargetURN env)))
      | Some node \<Rightarrow>
          (case mget (n_Properties node) (e_Field env) of
             None \<Rightarrow>
               (case e_PropertySpec env of
                  None \<Rightarrow> (state, Inl (ErrFieldNotInScope (e_Field env) (e_TargetURN env)))
                | Some spec \<Rightarrow>
                    (state\<lparr> Nodes := mput (e_TargetURN env)
                              (mutated_node node (e_Field env) (keep_spec spec (e_NewValue env))) (Nodes state) \<rparr>,
                     Inr (node_result (e_TargetURN env))))
           | Some prop \<Rightarrow>
               if Immutable prop then (state, Inl (ErrImmutableProperty (e_Field env) (e_TargetURN env)))
               else if e_ExpectedVersion env \<noteq> 0 \<and> n_Version node \<noteq> e_ExpectedVersion env
                 then (state, Inl (ErrVersionConflict (e_ExpectedVersion env) (n_Version node)))
               else
                 (state\<lparr> Nodes := mput (e_TargetURN env)
                           (mutated_node node (e_Field env) (keep_spec prop (e_NewValue env))) (Nodes state) \<rparr>,
                  Inr (node_result (e_TargetURN env)))))"

definition applyUNLINK :: "graph_state \<Rightarrow> envelope \<Rightarrow> graph_state \<times> (fold_error + eval_result)" where
  "applyUNLINK state env =
     (case mget (Relations state) (e_RelationURN env) of
        None \<Rightarrow> (state, Inl (ErrRelationNotFound (e_RelationURN env)))
      | Some existing \<Rightarrow>
          let idx = IndexRemoveRelationEndpoints (RelationsBySrc state) (RelationsByTgt state)
                      (e_RelationURN env) (r_SrcURN existing) (r_TgtURN existing)
          in (state\<lparr> Relations := mdel (e_RelationURN env) (Relations state),
                     RelationsBySrc := fst idx, RelationsByTgt := snd idx \<rparr>,
              Inr (relation_result (e_RelationURN env))))"

definition evaluateInPlace :: "graph_state \<Rightarrow> envelope \<Rightarrow> time \<Rightarrow> graph_state \<times> (fold_error + eval_result)" where
  "evaluateInPlace state env appliedAt =
     (case validateEnvelopeStructure env of
        Some err \<Rightarrow> (state, Inl err)
      | None \<Rightarrow>
          (case e_RewriteType env of
             ADD \<Rightarrow> applyADD state env appliedAt
           | LINK \<Rightarrow> applyLINK state env appliedAt
           | MUTATE \<Rightarrow> applyMUTATE state env
           | UNLINK \<Rightarrow> applyUNLINK state env
           | OtherRewrite s \<Rightarrow> (state, Inl (ErrInvalidRewriteType s))))"

definition EvaluateAt ::
  "graph_state \<Rightarrow> envelope \<Rightarrow> time \<Rightarrow> fold_error + (graph_state \<times> eval_result)" where
  "EvaluateAt state env appliedAt =
     (case evaluateInPlace (Clone state) env appliedAt of
        (_, Inl err) \<Rightarrow> Inl err
      | (next, Inr result) \<Rightarrow> Inr (next, result))"

text \<open>Evaluate reads the wall clock; the reading is its argument.\<close>

definition Evaluate ::
  "graph_state \<Rightarrow> envelope \<Rightarrow> time \<Rightarrow> fold_error + (graph_state \<times> eval_result)" where
  "Evaluate state env now = EvaluateAt state env now"

section \<open>The shape of each operation\<close>

text \<open>An operation that fails leaves the state behind the pointer as it was.\<close>

lemma apply_error_unchanged:
  "applyADD s e t = (s', Inl err) \<Longrightarrow> s' = s"
  "applyLINK s e t = (s', Inl err) \<Longrightarrow> s' = s"
  "applyMUTATE s e = (s', Inl err) \<Longrightarrow> s' = s"
  "applyUNLINK s e = (s', Inl err) \<Longrightarrow> s' = s"
  by (auto simp: applyADD_def applyLINK_def applyMUTATE_def applyUNLINK_def Let_def
      split: option.splits if_splits)

lemma evaluateInPlace_error_unchanged: "evaluateInPlace s e t = (s', Inl err) \<Longrightarrow> s' = s"
  by (auto simp: evaluateInPlace_def split: option.splits rewrite_type.splits
      dest: apply_error_unchanged)

lemma EvaluateAt_Inr:
  "EvaluateAt s e t = Inr (s', r) \<longleftrightarrow> evaluateInPlace s e t = (s', Inr r)"
  by (auto simp: EvaluateAt_def split: prod.splits sum.splits)

lemma EvaluateAt_Inl:
  "EvaluateAt s e t = Inl err \<longleftrightarrow> evaluateInPlace s e t = (s, Inl err)"
  by (auto simp: EvaluateAt_def split: prod.splits sum.splits dest: evaluateInPlace_error_unchanged)

lemma EvaluateAt_ADD_iff:
  "e_RewriteType e = ADD \<Longrightarrow> EvaluateAt s e t = Inr (s', r) \<longleftrightarrow>
   e_Actor e \<noteq> '''' \<and> e_NodeURN e \<noteq> '''' \<and> e_TypeID e \<noteq> '''' \<and> mget (Nodes s) (e_NodeURN e) = None \<and>
   s' = s\<lparr> Nodes := mput (e_NodeURN e) (new_node e t) (Nodes s),
          NodesByType := IndexAddNodeByType (NodesByType s) (e_NodeURN e) (e_TypeID e) \<rparr> \<and>
   r = node_result (e_NodeURN e)"
  by (auto simp: EvaluateAt_Inr evaluateInPlace_def validateEnvelopeStructure_def applyADD_def
      split: option.splits)

lemma EvaluateAt_LINK_iff:
  "e_RewriteType e = LINK \<Longrightarrow> EvaluateAt s e t = Inr (s', r) \<longleftrightarrow>
   e_Actor e \<noteq> '''' \<and> e_RelationURN e \<noteq> '''' \<and> e_SrcURN e \<noteq> '''' \<and> e_TgtURN e \<noteq> '''' \<and>
   mget (Nodes s) (e_SrcURN e) \<noteq> None \<and> mget (Nodes s) (e_TgtURN e) \<noteq> None \<and>
   mget (Relations s) (e_RelationURN e) = None \<and>
   (e_RewriteCategory e = WF15 \<longrightarrow> e_ContractURN e \<noteq> '''') \<and>
   s' = s\<lparr> Relations := mput (e_RelationURN e) (new_relation e t) (Relations s),
          RelationsBySrc := index_add_end (RelationsBySrc s) (e_RelationURN e) (e_SrcURN e),
          RelationsByTgt := index_add_end (RelationsByTgt s) (e_RelationURN e) (e_TgtURN e) \<rparr> \<and>
   r = relation_result (e_RelationURN e)"
  by (auto simp: EvaluateAt_Inr evaluateInPlace_def validateEnvelopeStructure_def applyLINK_def
      Let_def IndexAddRelationEndpoints_def split: option.splits)

lemma EvaluateAt_UNLINK_iff:
  "e_RewriteType e = UNLINK \<Longrightarrow> EvaluateAt s e t = Inr (s', r) \<longleftrightarrow>
   e_Actor e \<noteq> '''' \<and> e_RelationURN e \<noteq> '''' \<and>
   (\<exists>x. mget (Relations s) (e_RelationURN e) = Some x \<and>
     s' = s\<lparr> Relations := mdel (e_RelationURN e) (Relations s),
            RelationsBySrc := index_remove_end (RelationsBySrc s) (e_RelationURN e) (r_SrcURN x),
            RelationsByTgt := index_remove_end (RelationsByTgt s) (e_RelationURN e) (r_TgtURN x) \<rparr>) \<and>
   r = relation_result (e_RelationURN e)"
  by (auto simp: EvaluateAt_Inr evaluateInPlace_def validateEnvelopeStructure_def applyUNLINK_def
      Let_def IndexRemoveRelationEndpoints_def split: option.splits)

text \<open>
  The property a MUTATE writes: the one the node carries, when it is mutable and the version
  matches, or the injected spec when the node has no such property.
\<close>

definition mutate_source :: "node \<Rightarrow> envelope \<Rightarrow> property option" where
  "mutate_source n e =
     (case mget (n_Properties n) (e_Field e) of
        None \<Rightarrow> e_PropertySpec e
      | Some p \<Rightarrow>
          if \<not> Immutable p \<and> (e_ExpectedVersion e = 0 \<or> n_Version n = e_ExpectedVersion e)
          then Some p else None)"

lemma EvaluateAt_MUTATE_iff:
  "e_RewriteType e = MUTATE \<Longrightarrow> EvaluateAt s e t = Inr (s', r) \<longleftrightarrow>
   e_Actor e \<noteq> '''' \<and> e_TargetURN e \<noteq> '''' \<and> e_Field e \<noteq> '''' \<and>
   (\<exists>n p. mget (Nodes s) (e_TargetURN e) = Some n \<and> mutate_source n e = Some p \<and>
     s' = s\<lparr> Nodes := mput (e_TargetURN e) (mutated_node n (e_Field e) (keep_spec p (e_NewValue e)))
                   (Nodes s) \<rparr>) \<and>
   r = node_result (e_TargetURN e)"
  by (auto simp: EvaluateAt_Inr evaluateInPlace_def validateEnvelopeStructure_def applyMUTATE_def
      mutate_source_def split: option.splits if_splits)

lemma EvaluateAt_Other: "e_RewriteType e = OtherRewrite x \<Longrightarrow> \<exists>err. EvaluateAt s e t = Inl err"
  by (auto simp: EvaluateAt_def evaluateInPlace_def split: option.splits)

lemmas EvaluateAt_iffs =
  EvaluateAt_ADD_iff EvaluateAt_LINK_iff EvaluateAt_MUTATE_iff EvaluateAt_UNLINK_iff

text \<open>Every successful evaluation is one of the four.\<close>

lemma EvaluateAt_cases:
  assumes "EvaluateAt s e t = Inr (s', r)"
  obtains "e_RewriteType e = ADD" | "e_RewriteType e = LINK" | "e_RewriteType e = MUTATE"
    | "e_RewriteType e = UNLINK"
  using assms EvaluateAt_Other [of e _ s t] by (cases "e_RewriteType e") fastforce+

lemma new_node_simps [simp]:
  "n_URN (new_node e t) = e_NodeURN e" "n_TypeID (new_node e t) = e_TypeID e"
  "n_CreatedAt (new_node e t) = t" "n_Version (new_node e t) = 1"
  "n_Properties (new_node e t) = copy_into (e_Properties e) []"
  by (simp_all add: new_node_def)

lemma new_relation_simps [simp]:
  "r_URN (new_relation e t) = e_RelationURN e"
  "r_RewriteCategory (new_relation e t) = e_RewriteCategory e"
  "r_SrcURN (new_relation e t) = e_SrcURN e" "r_TgtURN (new_relation e t) = e_TgtURN e"
  "r_SrcPort (new_relation e t) = e_SrcPort e" "r_TgtPort (new_relation e t) = e_TgtPort e"
  "r_ContractURN (new_relation e t) = e_ContractURN e" "r_CreatedAt (new_relation e t) = t"
  by (simp_all add: new_relation_def)

lemma mutated_node_simps [simp]:
  "n_URN (mutated_node n f p) = n_URN n" "n_TypeID (mutated_node n f p) = n_TypeID n"
  "n_CreatedAt (mutated_node n f p) = n_CreatedAt n"
  "n_Version (mutated_node n f p) = wrap64 (n_Version n + 1)"
  "n_Properties (mutated_node n f p) = mput f p (n_Properties n)"
  by (simp_all add: mutated_node_def)

lemma keep_spec_simps [simp]:
  "p_Value (keep_spec p v) = v" "p_Mutability (keep_spec p v) = p_Mutability p"
  "p_AuthorityScope (keep_spec p v) = p_AuthorityScope p"
  "p_StratumOrigin (keep_spec p v) = p_StratumOrigin p"
  "p_ValidationType (keep_spec p v) = p_ValidationType p"
  "Immutable (keep_spec p v) = Immutable p"
  by (simp_all add: keep_spec_def Immutable_def)

end
