(* ===== verification/FoldSpec.thy ===== *)
theory FoldSpec
  imports Fold
begin

text \<open>
  What fold promises. The abstract graph has no indexes: a partial map of nodes and one of
  relations. A step relation gives one rule per rewrite; the operations of theory Fold refine it
  and keep the state invariant, and every step only lets the graph evolve: nodes are never lost,
  their identity and their immutable properties never change.
\<close>

section \<open>The abstract graph and its steps\<close>

record agraph =
  a_nodes :: "urn \<Rightarrow> node option"
  a_rels :: "urn \<Rightarrow> relation option"

definition abs_graph :: "graph_state \<Rightarrow> agraph" where
  "abs_graph s = \<lparr> a_nodes = mget (Nodes s), a_rels = mget (Relations s) \<rparr>"

definition empty_graph :: agraph where
  "empty_graph = \<lparr> a_nodes = Map.empty, a_rels = Map.empty \<rparr>"

inductive rewrite_step :: "agraph \<Rightarrow> envelope \<Rightarrow> time \<Rightarrow> agraph \<Rightarrow> bool" where
  add: "rewrite_step g e t (g\<lparr> a_nodes := (a_nodes g)(e_NodeURN e \<mapsto> new_node e t) \<rparr>)"
  if "e_RewriteType e = ADD" "e_Actor e \<noteq> ''''" "e_NodeURN e \<noteq> ''''" "e_TypeID e \<noteq> ''''"
    "a_nodes g (e_NodeURN e) = None"
| link: "rewrite_step g e t (g\<lparr> a_rels := (a_rels g)(e_RelationURN e \<mapsto> new_relation e t) \<rparr>)"
  if "e_RewriteType e = LINK" "e_Actor e \<noteq> ''''" "e_RelationURN e \<noteq> ''''"
    "e_SrcURN e \<noteq> ''''" "e_TgtURN e \<noteq> ''''"
    "a_nodes g (e_SrcURN e) \<noteq> None" "a_nodes g (e_TgtURN e) \<noteq> None"
    "a_rels g (e_RelationURN e) = None"
    "e_RewriteCategory e = WF15 \<longrightarrow> e_ContractURN e \<noteq> ''''"
| mutate: "rewrite_step g e t
    (g\<lparr> a_nodes := (a_nodes g)(e_TargetURN e \<mapsto>
        mutated_node n (e_Field e) (keep_spec p (e_NewValue e))) \<rparr>)"
  if "e_RewriteType e = MUTATE" "e_Actor e \<noteq> ''''" "e_TargetURN e \<noteq> ''''" "e_Field e \<noteq> ''''"
    "a_nodes g (e_TargetURN e) = Some n" "mget (n_Properties n) (e_Field e) = Some p"
    "\<not> Immutable p" "e_ExpectedVersion e = 0 \<or> n_Version n = e_ExpectedVersion e"
| extend: "rewrite_step g e t
    (g\<lparr> a_nodes := (a_nodes g)(e_TargetURN e \<mapsto>
        mutated_node n (e_Field e) (keep_spec p (e_NewValue e))) \<rparr>)"
  if "e_RewriteType e = MUTATE" "e_Actor e \<noteq> ''''" "e_TargetURN e \<noteq> ''''" "e_Field e \<noteq> ''''"
    "a_nodes g (e_TargetURN e) = Some n" "mget (n_Properties n) (e_Field e) = None"
    "e_PropertySpec e = Some p"
| unlink: "rewrite_step g e t (g\<lparr> a_rels := (a_rels g)(e_RelationURN e := None) \<rparr>)"
  if "e_RewriteType e = UNLINK" "e_Actor e \<noteq> ''''" "e_RelationURN e \<noteq> ''''"
    "a_rels g (e_RelationURN e) \<noteq> None"

inductive_cases rewrite_step_cases: "rewrite_step g e t g'"

inductive_simps rewrite_step_ADD: "rewrite_step g (zero_envelope ADD a\<lparr>e_NodeURN := u, e_TypeID := k\<rparr>) t g'"

lemma rewrite_step_det: "rewrite_step g e t g1 \<Longrightarrow> rewrite_step g e t g2 \<Longrightarrow> g1 = g2"
  by (elim rewrite_step_cases) auto

lemma abs_graph_simps [simp]:
  "a_nodes (abs_graph s) = mget (Nodes s)" "a_rels (abs_graph s) = mget (Relations s)"
  by (simp_all add: abs_graph_def)

lemma abs_graph_New [simp]: "abs_graph NewGraphState = empty_graph"
  by (simp add: abs_graph_def NewGraphState_def empty_graph_def)

lemma abs_graph_upd:
  "abs_graph (s\<lparr> Nodes := ns \<rparr>) = (abs_graph s)\<lparr> a_nodes := mget ns \<rparr>"
  "abs_graph (s\<lparr> Relations := rs \<rparr>) = (abs_graph s)\<lparr> a_rels := mget rs \<rparr>"
  "abs_graph (s\<lparr> NodesByType := x \<rparr>) = abs_graph s"
  "abs_graph (s\<lparr> RelationsBySrc := x \<rparr>) = abs_graph s"
  "abs_graph (s\<lparr> RelationsByTgt := x \<rparr>) = abs_graph s"
  by (simp_all add: abs_graph_def)

section \<open>Refinement\<close>

lemma EvaluateAt_sound:
  assumes "EvaluateAt s e t = Inr (s', r)"
  shows "rewrite_step (abs_graph s) e t (abs_graph s')"
  using assms
proof (cases rule: EvaluateAt_cases)
  case 1
  then show ?thesis using assms rewrite_step.add [of e "abs_graph s" t]
    by (simp add: EvaluateAt_ADD_iff abs_graph_upd)
next
  case 2
  then show ?thesis using assms rewrite_step.link [of e "abs_graph s" t]
    by (simp add: EvaluateAt_LINK_iff abs_graph_upd)
next
  case 3
  then obtain n p where np: "mget (Nodes s) (e_TargetURN e) = Some n" "mutate_source n e = Some p"
    "e_Actor e \<noteq> ''''" "e_TargetURN e \<noteq> ''''" "e_Field e \<noteq> ''''"
    "s' = s\<lparr> Nodes := mput (e_TargetURN e) (mutated_node n (e_Field e) (keep_spec p (e_NewValue e))) (Nodes s) \<rparr>"
    using assms by (auto simp: EvaluateAt_MUTATE_iff)
  show ?thesis
  proof (cases "mget (n_Properties n) (e_Field e)")
    case None
    with np 3 rewrite_step.extend [of e "abs_graph s" n p t] show ?thesis
      by (simp add: mutate_source_def abs_graph_upd)
  next
    case (Some q)
    with np 3 rewrite_step.mutate [of e "abs_graph s" n p t] show ?thesis
      by (simp add: mutate_source_def abs_graph_upd split: if_splits)
  qed
next
  case 4
  then show ?thesis using assms rewrite_step.unlink [of e "abs_graph s" t]
    by (auto simp: EvaluateAt_UNLINK_iff abs_graph_upd)
qed

lemma EvaluateAt_complete:
  assumes "rewrite_step (abs_graph s) e t g'"
  shows "\<exists>s' r. EvaluateAt s e t = Inr (s', r) \<and> abs_graph s' = g'"
  using assms
proof (cases rule: rewrite_step.cases)
  case add
  then show ?thesis by (simp add: EvaluateAt_ADD_iff abs_graph_upd)
next
  case link
  then show ?thesis by (simp add: EvaluateAt_LINK_iff abs_graph_upd)
next
  case (mutate n p)
  then show ?thesis by (auto simp: EvaluateAt_MUTATE_iff mutate_source_def abs_graph_upd)
next
  case (extend n p)
  then show ?thesis by (auto simp: EvaluateAt_MUTATE_iff mutate_source_def abs_graph_upd)
next
  case unlink
  then show ?thesis by (auto simp: EvaluateAt_UNLINK_iff abs_graph_upd)
qed

text \<open>The outcome depends only on the two maps, not on Go's iteration order or the indexes.\<close>

lemma EvaluateAt_abs_cong:
  assumes "abs_graph s1 = abs_graph s2" "EvaluateAt s1 e t = Inr (s1', r)"
  shows "\<exists>s2' r2. EvaluateAt s2 e t = Inr (s2', r2) \<and> abs_graph s2' = abs_graph s1'"
  using EvaluateAt_complete [of s2 e t "abs_graph s1'"] EvaluateAt_sound [OF assms(2)] assms(1) by simp

section \<open>The state invariant\<close>

lemma wf_node_mutated: "wf_node u n \<Longrightarrow> wf_node u (mutated_node n f p)"
  by (simp add: wf_node_def)

lemma wf_state_EvaluateAt:
  assumes "wf_state s" "EvaluateAt s e t = Inr (s', r)"
  shows "wf_state s'"
  using assms(2)
proof (cases rule: EvaluateAt_cases)
  case 1
  with assms show ?thesis
    by (auto simp: EvaluateAt_ADD_iff wf_node_def intro!: wf_state_put_node)
next
  case 2
  with assms show ?thesis
    by (auto simp: EvaluateAt_LINK_iff wf_relation_def intro!: wf_state_put_relation)
next
  case 3
  then obtain n p where "mget (Nodes s) (e_TargetURN e) = Some n"
    and s': "s' = s\<lparr> Nodes := mput (e_TargetURN e)
      (mutated_node n (e_Field e) (keep_spec p (e_NewValue e))) (Nodes s) \<rparr>"
    using assms(2) by (auto simp: EvaluateAt_MUTATE_iff)
  then have "wf_node (e_TargetURN e) n" using assms(1) by (simp add: wf_state_node)
  then have "wf_node (e_TargetURN e) (mutated_node n (e_Field e) (keep_spec p (e_NewValue e)))"
    by (rule wf_node_mutated)
  from wf_state_put_node [OF assms(1) this, of "NodesByType s"] show ?thesis unfolding s' by simp
next
  case 4
  with assms show ?thesis
    by (auto simp: EvaluateAt_UNLINK_iff intro!: wf_state_del_relation)
qed

lemma indexed_EvaluateAt:
  assumes "wf_state s" "indexed s" "EvaluateAt s e t = Inr (s', r)"
  shows "indexed s'"
  using assms(3)
proof (cases rule: EvaluateAt_cases)
  case 1
  then show ?thesis
    using assms by_type.indexes_insert [of "NodesByType s" "mget (Nodes s)" n_TypeID _ "new_node e t"]
    by (simp add: EvaluateAt_ADD_iff indexed_def by_type.inv_add)
next
  case 2
  then show ?thesis
    using assms
      by_end.indexes_insert [of "RelationsBySrc s" "mget (Relations s)" r_SrcURN _ "new_relation e t"]
      by_end.indexes_insert [of "RelationsByTgt s" "mget (Relations s)" r_TgtURN _ "new_relation e t"]
    by (simp add: EvaluateAt_LINK_iff indexed_def by_end.inv_add)
next
  case 3
  then show ?thesis
    using assms by (auto simp: EvaluateAt_MUTATE_iff indexed_def intro!: by_type.indexes_same_key)
next
  case 4
  then obtain x where x: "mget (Relations s) (e_RelationURN e) = Some x"
    "s' = s\<lparr> Relations := mdel (e_RelationURN e) (Relations s),
            RelationsBySrc := index_remove_end (RelationsBySrc s) (e_RelationURN e) (r_SrcURN x),
            RelationsByTgt := index_remove_end (RelationsByTgt s) (e_RelationURN e) (r_TgtURN x) \<rparr>"
    using assms(3) by (auto simp: EvaluateAt_UNLINK_iff)
  from x(1) show ?thesis
    using assms(2) wf_state_endpoints [OF assms(1) x(1)]
      by_end.indexes_delete [of "RelationsBySrc s" "mget (Relations s)" r_SrcURN _ x]
      by_end.indexes_delete [of "RelationsByTgt s" "mget (Relations s)" r_TgtURN _ x]
    unfolding x(2) by (simp add: indexed_def by_end.inv_remove)
qed

section \<open>Evolution: what no rewrite can change\<close>

definition same_spec :: "property \<Rightarrow> property \<Rightarrow> bool" where
  "same_spec p q \<longleftrightarrow>
     p_Mutability q = p_Mutability p \<and> p_AuthorityScope q = p_AuthorityScope p \<and>
     p_StratumOrigin q = p_StratumOrigin p \<and> p_ValidationType q = p_ValidationType p \<and>
     (Immutable p \<longrightarrow> q = p)"

definition node_evolves :: "node \<Rightarrow> node \<Rightarrow> bool" where
  "node_evolves n n' \<longleftrightarrow>
     n_URN n' = n_URN n \<and> n_TypeID n' = n_TypeID n \<and> n_CreatedAt n' = n_CreatedAt n \<and>
     (\<forall>f p. mget (n_Properties n) f = Some p \<longrightarrow>
        (\<exists>p'. mget (n_Properties n') f = Some p' \<and> same_spec p p'))"

definition evolves :: "agraph \<Rightarrow> agraph \<Rightarrow> bool" where
  "evolves g g' \<longleftrightarrow>
     (\<forall>u n. a_nodes g u = Some n \<longrightarrow> (\<exists>n'. a_nodes g' u = Some n' \<and> node_evolves n n'))"

lemma same_spec_refl [simp]: "same_spec p p"
  by (simp add: same_spec_def)

lemma same_spec_trans: "same_spec p q \<Longrightarrow> same_spec q r \<Longrightarrow> same_spec p r"
  by (auto simp: same_spec_def Immutable_def)

lemma node_evolves_refl [simp]: "node_evolves n n"
  by (simp add: node_evolves_def)

lemma node_evolves_trans: "node_evolves a b \<Longrightarrow> node_evolves b c \<Longrightarrow> node_evolves a c"
  unfolding node_evolves_def by (metis same_spec_trans)

lemma evolves_refl [simp]: "evolves g g"
  by (simp add: evolves_def)

lemma evolves_trans [trans]: "evolves a b \<Longrightarrow> evolves b c \<Longrightarrow> evolves a c"
  unfolding evolves_def by (meson node_evolves_trans)

lemma evolves_nodes_eq: "a_nodes g' = a_nodes g \<Longrightarrow> evolves g g'"
  by (simp add: evolves_def)

lemma node_evolves_mutated:
  "(\<And>p. mget (n_Properties n) f = Some p \<Longrightarrow> same_spec p q) \<Longrightarrow> node_evolves n (mutated_node n f q)"
  by (auto simp: node_evolves_def)

lemma evolves_upd: "a_nodes g u = Some n \<Longrightarrow> node_evolves n n' \<Longrightarrow>
    evolves g (g\<lparr> a_nodes := (a_nodes g)(u \<mapsto> n') \<rparr>)"
  by (simp add: evolves_def)

lemma rewrite_step_evolves: "rewrite_step g e t g' \<Longrightarrow> evolves g g'"
proof (induction rule: rewrite_step.induct)
  case (add e g t)
  then show ?case by (simp add: evolves_def)
next
  case (mutate e g n p t)
  then have "same_spec p (keep_spec p (e_NewValue e))" by (simp add: same_spec_def)
  with mutate show ?case by (auto intro!: evolves_upd node_evolves_mutated)
next
  case (extend e g n p t)
  then show ?case by (auto intro!: evolves_upd node_evolves_mutated)
qed (simp_all add: evolves_nodes_eq)

lemma EvaluateAt_evolves: "EvaluateAt s e t = Inr (s', r) \<Longrightarrow> evolves (abs_graph s) (abs_graph s')"
  by (rule rewrite_step_evolves) (rule EvaluateAt_sound)

end
