(* ===== verification/Replay.thy ===== *)
theory Replay
  imports FoldSpec
begin

text \<open>
  internal/fold/program.go and replay.go: atomic programs and the replay of a persisted log,
  with the loop both the replay and the integrity report run over the log.
\<close>

section \<open>Programs\<close>

datatype program_error = LengthMismatch nat nat | StepFailed nat rewrite_type fold_error

fun program_loop ::
  "nat \<Rightarrow> graph_state \<Rightarrow> (envelope \<times> time) list \<Rightarrow> eval_result list \<Rightarrow>
   program_error + (graph_state \<times> eval_result list)" where
  "program_loop i working [] results = Inr (working, results)"
| "program_loop i working ((env, ts) # rest) results =
     (case evaluateInPlace working env ts of
        (_, Inl err) \<Rightarrow> Inl (StepFailed i (e_RewriteType env) err)
      | (working', Inr result) \<Rightarrow> program_loop (Suc i) working' rest (results @ [result]))"

text \<open>\<open>nows i\<close> is the wall clock as step i reads it, used when no timestamps are supplied.\<close>

definition EvaluateProgramAt ::
  "graph_state \<Rightarrow> envelope list \<Rightarrow> time list \<Rightarrow> (nat \<Rightarrow> time) \<Rightarrow>
   program_error + (graph_state \<times> eval_result list)" where
  "EvaluateProgramAt state envelopes appliedAt nows =
     (if length appliedAt \<noteq> 0 \<and> length appliedAt \<noteq> length envelopes
      then Inl (LengthMismatch (length appliedAt) (length envelopes))
      else
        let useAppliedAt = (length appliedAt = length envelopes);
            ts = (if useAppliedAt then appliedAt else map nows [0..<length envelopes])
        in program_loop 0 (Clone state) (zip envelopes ts) [])"

definition EvaluateProgram ::
  "graph_state \<Rightarrow> envelope list \<Rightarrow> (nat \<Rightarrow> time) \<Rightarrow> program_error + (graph_state \<times> eval_result list)" where
  "EvaluateProgram state envelopes nows = EvaluateProgramAt state envelopes [] nows"

text \<open>The program as a chain of single evaluations, stopping at the first error.\<close>

fun eval_chain :: "graph_state \<Rightarrow> (envelope \<times> time) list \<Rightarrow> (graph_state \<times> eval_result list) option" where
  "eval_chain s [] = Some (s, [])"
| "eval_chain s ((e, t) # rest) =
     (case EvaluateAt s e t of
        Inl _ \<Rightarrow> None
      | Inr (s', r) \<Rightarrow> map_option (\<lambda>(s'', rs). (s'', r # rs)) (eval_chain s' rest))"

lemma program_loop_chain:
  "(\<exists>e. program_loop i s xs acc = Inl e) \<and> eval_chain s xs = None \<or>
   (\<exists>s' rs. program_loop i s xs acc = Inr (s', acc @ rs) \<and> eval_chain s xs = Some (s', rs))"
proof (induction xs arbitrary: i s acc)
  case Nil
  then show ?case by simp
next
  case (Cons x xs)
  obtain e t where x: "x = (e, t)" by force
  obtain w q where ev: "evaluateInPlace s e t = (w, q)" by force
  show ?case
  proof (cases q)
    case (Inl err)
    with ev have "EvaluateAt s e t = Inl err" by (simp add: EvaluateAt_def)
    with Inl ev x show ?thesis by simp
  next
    case (Inr r)
    with ev have "EvaluateAt s e t = Inr (w, r)" by (simp add: EvaluateAt_Inr)
    with Cons.IH [of "Suc i" w "acc @ [r]"] Inr ev x show ?thesis by auto
  qed
qed

lemma program_loop_Inr:
  "program_loop i s xs [] = Inr (s', rs) \<longleftrightarrow> eval_chain s xs = Some (s', rs)"
  using program_loop_chain [of i s xs "[]"] by auto

lemma program_loop_Inl:
  "program_loop j s xs acc = Inl (StepFailed i rt err) \<longleftrightarrow>
   j \<le> i \<and> i < j + length xs \<and> rt = e_RewriteType (fst (xs ! (i - j))) \<and>
   (\<exists>s' rs. eval_chain s (take (i - j) xs) = Some (s', rs) \<and>
      EvaluateAt s' (fst (xs ! (i - j))) (snd (xs ! (i - j))) = Inl err)"
proof (induction xs arbitrary: j s acc)
  case Nil
  then show ?case by simp
next
  case (Cons x xs)
  obtain e t where x: "x = (e, t)" by force
  obtain w q where ev: "evaluateInPlace s e t = (w, q)" by force
  show ?case
  proof (cases q)
    case (Inl err')
    with ev have at: "EvaluateAt s e t = Inl err'" by (simp add: EvaluateAt_def)
    show ?thesis
      by (cases "i - j") (auto simp: x ev Inl at)
  next
    case (Inr r)
    with ev have at: "EvaluateAt s e t = Inr (w, r)" by (simp add: EvaluateAt_Inr)
    show ?thesis
    proof (cases "i \<le> j")
      case True
      with Cons.IH [of "Suc j" w "acc @ [r]"] show ?thesis by (auto simp: x ev Inr at)
    next
      case False
      then obtain d where d: "i - j = Suc d" "i - Suc j = d" by (metis Suc_diff_Suc not_le)
      from False Cons.IH [of "Suc j" w "acc @ [r]"] show ?thesis
        by (auto simp: x ev Inr at d)
    qed
  qed
qed

lemma eval_chain_append:
  "eval_chain s (xs @ ys) =
     (case eval_chain s xs of
        None \<Rightarrow> None
      | Some (s', rs) \<Rightarrow> map_option (\<lambda>(s'', rs'). (s'', rs @ rs')) (eval_chain s' ys))"
  by (induction xs arbitrary: s)
     (auto split: option.splits sum.splits prod.splits simp: option.map_comp comp_def case_prod_unfold
       option.map_ident)

text \<open>What every evaluation keeps, a chain keeps.\<close>

lemma eval_chain_invariant:
  assumes "\<And>s e t s' r. P s \<Longrightarrow> EvaluateAt s e t = Inr (s', r) \<Longrightarrow> P s'"
    and "P s" "eval_chain s xs = Some (s', rs)"
  shows "P s'"
  using assms(2,3)
proof (induction xs arbitrary: s rs)
  case Nil
  then show ?case by simp
next
  case (Cons x xs)
  obtain e t where x: "x = (e, t)" by force
  obtain s1 r1 where s1: "EvaluateAt s e t = Inr (s1, r1)" using Cons.prems(2) by (auto simp: x split: sum.splits)
  then obtain rs' where "eval_chain s1 xs = Some (s', rs')" using Cons.prems(2) by (auto simp: x)
  with Cons.IH assms(1) [OF Cons.prems(1) s1] show ?case by blast
qed

lemma EvaluateProgramAt_Inr:
  "length ts = length es \<Longrightarrow>
   EvaluateProgramAt s es ts nows = Inr (s', rs) \<longleftrightarrow> eval_chain s (zip es ts) = Some (s', rs)"
  by (simp add: EvaluateProgramAt_def Let_def program_loop_Inr)

section \<open>The loop over a log\<close>

text \<open>
  Fold a log: an entry whose step fails is skipped when \<open>skip\<close> accepts the error, otherwise
  the loop halts at it with the state reached so far.
\<close>

fun fold_log ::
  "('s \<Rightarrow> 'e \<Rightarrow> 'err + 's) \<Rightarrow> ('e \<Rightarrow> 'err \<Rightarrow> bool) \<Rightarrow> nat \<Rightarrow> 's \<Rightarrow> 'e list \<Rightarrow> 's \<times> (nat \<times> 'err) option" where
  "fold_log step skip i s [] = (s, None)"
| "fold_log step skip i s (e # es) =
     (case step s e of
        Inl err \<Rightarrow> if skip e err then fold_log step skip (Suc i) s es else (s, Some (i, err))
      | Inr s' \<Rightarrow> fold_log step skip (Suc i) s' es)"

lemma fold_log_append:
  "fold_log step skip i s (xs @ ys) =
     (case fold_log step skip i s xs of
        (s', None) \<Rightarrow> fold_log step skip (i + length xs) s' ys
      | (s', Some e) \<Rightarrow> (s', Some e))"
  by (induction xs arbitrary: i s) (auto split: sum.splits option.splits prod.splits)

lemma fold_log_index:
  "fold_log step skip i s xs = (s', Some (j, err)) \<Longrightarrow>
   i \<le> j \<and> j < i + length xs \<and> fold_log step skip i s (take (j - i) xs) = (s', None) \<and>
   step s' (xs ! (j - i)) = Inl err \<and> \<not> skip (xs ! (j - i)) err"
proof (induction xs arbitrary: i s)
  case Nil
  then show ?case by simp
next
  case (Cons x xs)
  show ?case
  proof (cases "\<exists>s''. fold_log step skip i s [x] = (s'', None)")
    case True
    then obtain s'' where s'': "fold_log step skip i s [x] = (s'', None)" by blast
    then have "fold_log step skip (Suc i) s'' xs = (s', Some (j, err))"
      using Cons.prems fold_log_append [of step skip i s "[x]" xs] by simp
    from Cons.IH [OF this] have IH: "Suc i \<le> j" "j < Suc i + length xs"
      "fold_log step skip (Suc i) s'' (take (j - Suc i) xs) = (s', None)"
      "step s' (xs ! (j - Suc i)) = Inl err" "\<not> skip (xs ! (j - Suc i)) err" by auto
    then obtain d where d: "j - i = Suc d" "j - Suc i = d" by (metis Suc_diff_Suc Suc_le_lessD)
    have "fold_log step skip i s (x # take d xs) = (s', None)"
      using fold_log_append [of step skip i s "[x]" "take d xs"] s'' IH(3) d by simp
    with IH d show ?thesis by simp
  next
    case False
    with Cons.prems show ?thesis by (auto split: sum.splits if_splits)
  qed
qed

text \<open>What a log loop inherits from its step: an invariant, and a relation between the states.\<close>

locale log_machine =
  fixes step :: "'s \<Rightarrow> 'e \<Rightarrow> 'err + 's"
    and inv :: "'s \<Rightarrow> bool"
    and rel :: "'s \<Rightarrow> 's \<Rightarrow> bool"
  assumes inv_step: "inv s \<Longrightarrow> step s e = Inr s' \<Longrightarrow> inv s'"
    and rel_step: "step s e = Inr s' \<Longrightarrow> rel s s'"
    and rel_refl: "rel s s"
    and rel_trans: "rel s s' \<Longrightarrow> rel s' s'' \<Longrightarrow> rel s s''"
begin

lemma inv_fold_log: "inv s \<Longrightarrow> inv (fst (fold_log step skip i s es))"
  by (induction es arbitrary: i s) (auto split: sum.splits intro: inv_step)

lemma rel_fold_log: "rel s (fst (fold_log step skip i s es))"
  by (induction es arbitrary: i s) (auto split: sum.splits intro: rel_refl rel_trans rel_step)

text \<open>The states a longer log reaches are related to those of its prefixes.\<close>

lemma rel_prefix: "rel (fst (fold_log step skip i s xs)) (fst (fold_log step skip i s (xs @ ys)))"
  by (auto simp: fold_log_append split: prod.splits option.splits intro: rel_refl)
     (metis fst_conv rel_fold_log)

end

section \<open>Replay\<close>

definition replayAppliedAt :: "persisted_rewrite \<Rightarrow> time" where
  "replayAppliedAt pr =
     (if \<not> IsZero (pr_AppliedAt pr) then pr_AppliedAt pr
      else if \<not> IsZero (pr_Timestamp pr) then pr_Timestamp pr
      else 0)"

definition isIdempotentSkip :: "rewrite_type \<Rightarrow> fold_error \<Rightarrow> bool" where
  "isIdempotentSkip rt err =
     (case rt of
        ADD \<Rightarrow> (case err of ErrNodeExists _ \<Rightarrow> True | _ \<Rightarrow> False)
      | LINK \<Rightarrow> (case err of ErrRelationExists _ \<Rightarrow> True | _ \<Rightarrow> False)
      | UNLINK \<Rightarrow> (case err of ErrRelationNotFound _ \<Rightarrow> True | _ \<Rightarrow> False)
      | MUTATE \<Rightarrow> (case err of ErrVersionConflict _ _ \<Rightarrow> True | _ \<Rightarrow> False)
      | OtherRewrite _ \<Rightarrow> False)"

record replay_error =
  re_Seq :: int
  re_Index :: nat
  re_Cause :: fold_error

definition replay_step :: "graph_state \<Rightarrow> persisted_rewrite \<Rightarrow> fold_error + graph_state" where
  "replay_step state pr =
     (case EvaluateAt state (pr_Envelope pr) (replayAppliedAt pr) of
        Inl err \<Rightarrow> Inl err
      | Inr (next, _) \<Rightarrow> Inr next)"

definition replay_skip :: "persisted_rewrite \<Rightarrow> fold_error \<Rightarrow> bool" where
  "replay_skip pr err = isIdempotentSkip (e_RewriteType (pr_Envelope pr)) err"

definition Replay :: "persisted_rewrite list \<Rightarrow> graph_state \<times> replay_error option" where
  "Replay entries =
     (case fold_log replay_step replay_skip 0 NewGraphState entries of
        (state, None) \<Rightarrow> (state, None)
      | (state, Some (i, err)) \<Rightarrow>
          (state, Some \<lparr> re_Seq = pr_LogSeq (entries ! i), re_Index = i, re_Cause = err \<rparr>))"

lemma replay_step_Inr:
  "replay_step s pr = Inr s' \<longleftrightarrow> (\<exists>r. EvaluateAt s (pr_Envelope pr) (replayAppliedAt pr) = Inr (s', r))"
  by (auto simp: replay_step_def split: sum.splits)

definition good_state :: "graph_state \<Rightarrow> bool" where
  "good_state s \<longleftrightarrow> wf_state s \<and> indexed s"

lemma good_state_New [simp]: "good_state NewGraphState"
  by (simp add: good_state_def)

lemma good_state_EvaluateAt: "good_state s \<Longrightarrow> EvaluateAt s e t = Inr (s', r) \<Longrightarrow> good_state s'"
  by (auto simp: good_state_def intro: wf_state_EvaluateAt indexed_EvaluateAt)

interpretation replay: log_machine replay_step good_state
  "\<lambda>s s'. evolves (abs_graph s) (abs_graph s')"
  by unfold_locales
     (auto simp: replay_step_Inr intro: good_state_EvaluateAt EvaluateAt_evolves evolves_trans)

lemma Replay_None:
  "Replay entries = (s, None) \<longleftrightarrow> fold_log replay_step replay_skip 0 NewGraphState entries = (s, None)"
  by (auto simp: Replay_def split: prod.splits option.splits)

lemma Replay_fst: "fst (Replay entries) = fst (fold_log replay_step replay_skip 0 NewGraphState entries)"
  by (auto simp: Replay_def split: prod.splits option.splits)

lemma Replay_snoc:
  assumes "Replay xs = (s, None)" "replay_step s pr = Inr s'"
  shows "Replay (xs @ [pr]) = (s', None)"
  using assms by (simp add: Replay_None fold_log_append)

lemma Replay_append:
  assumes "Replay xs = (s, None)" "fold_log replay_step replay_skip (length xs) s ys = (s', None)"
  shows "Replay (xs @ ys) = (s', None)"
  using assms by (simp add: Replay_None fold_log_append)

section \<open>Applying an entry again\<close>

definition stored_property :: "graph_state \<Rightarrow> urn \<Rightarrow> string \<Rightarrow> property option" where
  "stored_property s u f = (case mget (Nodes s) u of None \<Rightarrow> None | Some n \<Rightarrow> mget (n_Properties n) f)"

lemma again_skipped:
  assumes "EvaluateAt s e t = Inr (s', r)"
    and "e_RewriteType e \<noteq> MUTATE \<or> e_ExpectedVersion e \<noteq> 0 \<and> stored_property s (e_TargetURN e) (e_Field e) \<noteq> None"
  shows "\<exists>err. EvaluateAt s' e t' = Inl err \<and> isIdempotentSkip (e_RewriteType e) err"
  using assms(1)
proof (cases rule: EvaluateAt_cases)
  case 1
  with assms(1) show ?thesis
    by (auto simp: EvaluateAt_ADD_iff EvaluateAt_Inl evaluateInPlace_def validateEnvelopeStructure_def
        applyADD_def isIdempotentSkip_def)
next
  case 2
  with assms(1) show ?thesis
    by (auto simp: EvaluateAt_LINK_iff EvaluateAt_Inl evaluateInPlace_def validateEnvelopeStructure_def
        applyLINK_def isIdempotentSkip_def)
next
  case 3
  then obtain n p where n: "mget (Nodes s) (e_TargetURN e) = Some n" "mutate_source n e = Some p"
    "e_Actor e \<noteq> ''''" "e_TargetURN e \<noteq> ''''" "e_Field e \<noteq> ''''"
    "mget (Nodes s') (e_TargetURN e) = Some (mutated_node n (e_Field e) (keep_spec p (e_NewValue e)))"
    using assms(1) by (auto simp: EvaluateAt_MUTATE_iff)
  then have "e_ExpectedVersion e \<noteq> 0" "\<not> Immutable p" "n_Version n = e_ExpectedVersion e"
    using assms(2) 3 by (auto simp: stored_property_def mutate_source_def split: if_splits option.splits)
  with n 3 wrap64_succ_neq [of "n_Version n"] show ?thesis
    by (simp add: EvaluateAt_Inl evaluateInPlace_def validateEnvelopeStructure_def applyMUTATE_def
        isIdempotentSkip_def)
next
  case 4
  with assms(1) show ?thesis
    by (auto simp: EvaluateAt_UNLINK_iff EvaluateAt_Inl evaluateInPlace_def validateEnvelopeStructure_def
        applyUNLINK_def isIdempotentSkip_def)
qed

end
