(* ===== verification/Examples.thy ===== *)
theory Examples
  imports Replay
begin

text \<open>
  Concrete graphs for the witnesses: the state a list of envelopes produces, with the time 1 on
  every entry. Such a state satisfies the state invariant whatever the envelopes are.
\<close>

definition ex_entry :: "envelope \<Rightarrow> persisted_rewrite" where
  "ex_entry e = \<lparr> pr_Envelope = e, pr_AppliedAt = 1, pr_Timestamp = 1, pr_LogSeq = 1 \<rparr>"

definition ex_run :: "envelope list \<Rightarrow> graph_state" where
  "ex_run es = fst (Replay (map ex_entry es))"

lemma good_state_ex_run: "good_state (ex_run es)"
  unfolding ex_run_def Replay_fst by (rule replay.inv_fold_log) simp

definition ex_prop :: "val \<Rightarrow> string \<Rightarrow> property" where
  "ex_prop v m = \<lparr> p_Value = v, p_Mutability = m, p_AuthorityScope = '''', p_StratumOrigin = 2,
     p_ValidationType = '''' \<rparr>"

definition ex_add :: "urn \<Rightarrow> type_id \<Rightarrow> (string \<times> property) list \<Rightarrow> envelope" where
  "ex_add u t ps = (zero_envelope ADD ''k'')\<lparr> e_NodeURN := u, e_TypeID := t, e_Properties := ps \<rparr>"

definition ex_link :: "urn \<Rightarrow> rewrite_category \<Rightarrow> urn \<Rightarrow> string \<Rightarrow> urn \<Rightarrow> string \<Rightarrow> envelope" where
  "ex_link u w s sp t tp = (zero_envelope LINK ''k'')\<lparr> e_RelationURN := u, e_RewriteCategory := w,
     e_SrcURN := s, e_SrcPort := sp, e_TgtURN := t, e_TgtPort := tp \<rparr>"

definition ex_mutate :: "urn \<Rightarrow> string \<Rightarrow> val \<Rightarrow> int \<Rightarrow> envelope" where
  "ex_mutate u f v n = (zero_envelope MUTATE ''k'')\<lparr> e_TargetURN := u, e_Field := f, e_NewValue := v,
     e_ExpectedVersion := n \<rparr>"

definition ex_unlink :: "urn \<Rightarrow> envelope" where
  "ex_unlink u = (zero_envelope UNLINK ''k'')\<lparr> e_RelationURN := u \<rparr>"

lemmas ex_defs = ex_add_def ex_link_def ex_mutate_def ex_unlink_def ex_prop_def

text \<open>A node with one mutable property, a second node, and a relation between them.\<close>

definition ex_ab :: graph_state where
  "ex_ab = ex_run [ex_add ''a'' ''task'' [(''title'', ex_prop (VStr ''x'') ''mutable''),
       (''owner'', ex_prop (VStr ''me'') ''immutable'')],
     ex_add ''b'' ''task'' [], ex_link ''r'' ''WF21'' ''a'' ''causes'' ''b'' ''caused-by'']"

lemma good_state_ex_ab [simp]: "good_state ex_ab"
  by (simp add: ex_ab_def good_state_ex_run)

lemma ex_simps [simp]:
  "e_RewriteType (ex_add u t ps) = ADD" "e_Actor (ex_add u t ps) = ''k''"
  "e_NodeURN (ex_add u t ps) = u" "e_TypeID (ex_add u t ps) = t" "e_Properties (ex_add u t ps) = ps"
  "e_RewriteType (ex_link r w s p y q) = LINK" "e_Actor (ex_link r w s p y q) = ''k''"
  "e_RelationURN (ex_link r w s p y q) = r" "e_RewriteCategory (ex_link r w s p y q) = w"
  "e_SrcURN (ex_link r w s p y q) = s" "e_SrcPort (ex_link r w s p y q) = p"
  "e_TgtURN (ex_link r w s p y q) = y" "e_TgtPort (ex_link r w s p y q) = q"
  "e_ContractURN (ex_link r w s p y q) = ''''"
  "e_RewriteType (ex_mutate u f v n) = MUTATE" "e_Actor (ex_mutate u f v n) = ''k''"
  "e_TargetURN (ex_mutate u f v n) = u" "e_Field (ex_mutate u f v n) = f"
  "e_NewValue (ex_mutate u f v n) = v" "e_ExpectedVersion (ex_mutate u f v n) = n"
  "e_PropertySpec (ex_mutate u f v n) = None"
  "e_RewriteType (ex_unlink r) = UNLINK" "e_Actor (ex_unlink r) = ''k''" "e_RelationURN (ex_unlink r) = r"
  by (simp_all add: ex_defs)

lemma ex_prop_simps [simp]:
  "p_Value (ex_prop v m) = v" "p_Mutability (ex_prop v m) = m" "Immutable (ex_prop v m) = (m = ''immutable'')"
  by (simp_all add: ex_prop_def Immutable_def)

text \<open>A session s whose occupant u governs the superadmin role, and a second user w with no seat.\<close>

definition ex_office :: graph_state where
  "ex_office = ex_run [ex_add ''s'' ''session'' [], ex_add ''u'' ''user'' [], ex_add ''w'' ''user'' [],
     ex_add ''urn:moos:role:superadmin'' ''role'' [],
     ex_link ''occ'' ''WF19'' ''s'' ''has-occupant'' ''u'' ''is-occupant-of'',
     ex_link ''gov'' ''WF02'' ''u'' ''governs'' ''urn:moos:role:superadmin'' ''governed-by'']"

lemma good_state_ex_office [simp]: "good_state ex_office"
  by (simp add: ex_office_def good_state_ex_run)

text \<open>A gate that asks for a node which does not exist, on node t.\<close>

definition ex_gated :: graph_state where
  "ex_gated = ex_run [ex_add ''t'' ''task'' [(''title'', ex_prop (VStr ''x'') ''mutable'')],
     ex_add ''g'' ''gate'' [(''predicate_type'', ex_prop (VStr ''node_exists'') ''immutable''),
       (''target_urn'', ex_prop (VStr ''nobody'') ''immutable'')],
     ex_link ''l'' '''' ''g'' ''gates'' ''t'' ''guarded-by'']"

lemma good_state_ex_gated [simp]: "good_state ex_gated"
  by (simp add: ex_gated_def good_state_ex_run)

end
