(* ===== verification/FoldProperties.thy ===== *)
theory FoldProperties
  imports Examples
begin

text \<open>
  The properties of internal/graph and internal/fold: the operations refine the abstract graph,
  keep the state invariant and the indexes, reject stale and forbidden writes, and a replayed log
  and an atomic program are the chains of their single evaluations. Each witness runs on the
  graphs of theory Examples.
\<close>

section \<open>Facts about the example graph\<close>

lemma ex_ab_nodes:
  "mget (Nodes ex_ab) ''a'' \<noteq> None" "mget (Nodes ex_ab) ''b'' \<noteq> None" "mget (Nodes ex_ab) ''c'' = None"
  by code_simp+

lemma ex_ab_rel: "mget (Relations ex_ab) ''r'' \<noteq> None" "mget (Relations ex_ab) ''q'' = None"
  by code_simp+

lemma ex_ab_version: "map_option n_Version (mget (Nodes ex_ab) ''a'') = Some 1"
  by code_simp

lemma ex_ab_title: "map_option (\<lambda>n. mget (n_Properties n) ''title'') (mget (Nodes ex_ab) ''a'') =
    Some (Some (ex_prop (VStr ''x'') ''mutable''))"
  by code_simp

lemma ex_ab_owner: "map_option (\<lambda>n. mget (n_Properties n) ''owner'') (mget (Nodes ex_ab) ''a'') =
    Some (Some (ex_prop (VStr ''me'') ''immutable''))"
  by code_simp

lemma ex_unlink_ok: "\<exists>s' r. EvaluateAt ex_ab (ex_unlink ''r'') 5 = Inr (s', r)"
  using ex_ab_rel by (auto simp: EvaluateAt_UNLINK_iff)

lemma ex_link_ok: "\<exists>s' r. EvaluateAt ex_ab (ex_link ''q'' WF21 ''b'' ''causes'' ''a'' ''caused-by'') 5 = Inr (s', r)"
  using ex_ab_rel ex_ab_nodes by (auto simp: EvaluateAt_LINK_iff)

lemma ex_mutate_ok: "\<exists>s' r. EvaluateAt ex_ab (ex_mutate ''a'' ''title'' (VStr ''y'') 1) 5 = Inr (s', r)"
  using ex_ab_version ex_ab_title
  by (auto simp: EvaluateAt_MUTATE_iff mutate_source_def)

section \<open>Single evaluations\<close>

text \<open>C5: EvaluateAt refines the abstract graph: an envelope succeeds on a state exactly when the
  abstract rewrite relation has a step, and it then reaches the graph that step reaches.\<close>

theorem EvaluateAt_refines:
  "(\<exists>s' r. EvaluateAt s e t = Inr (s', r) \<and> abs_graph s' = g') \<longleftrightarrow> rewrite_step (abs_graph s) e t g'"
  using EvaluateAt_sound [of s e t] EvaluateAt_complete [of s e t g'] by blast

text \<open>C6: every successful evaluation keeps the state invariant: keys are the stored URNs, no
  relation dangles, a WF15 relation names a contract, and all three indexes agree with the maps.\<close>

theorem EvaluateAt_keeps_invariant:
  assumes "good_state s" "EvaluateAt s e t = Inr (s', r)"
  shows "wf_state s' \<and> indexed s'"
  using good_state_EvaluateAt [OF assms] by (simp add: good_state_def)

theorem EvaluateAt_keeps_invariant_witness:
  "\<exists>s' r. EvaluateAt ex_ab (ex_unlink ''r'') 5 = Inr (s', r) \<and> wf_state s' \<and> indexed s'"
  using ex_unlink_ok EvaluateAt_keeps_invariant [OF good_state_ex_ab] by blast

text \<open>In a state that satisfies the invariant each accessor returns, without repetition,
  exactly the URNs a scan of the maps would find.\<close>

theorem accessors_exact:
  assumes "good_state s"
  shows "set (NodesOfType s t) = {u. \<exists>n. mget (Nodes s) u = Some n \<and> n_TypeID n = t} \<and>
    set (RelationsFrom s u) = {k. \<exists>r. mget (Relations s) k = Some r \<and> r_SrcURN r = u} \<and>
    set (RelationsTo s u) = {k. \<exists>r. mget (Relations s) k = Some r \<and> r_TgtURN r = u} \<and>
    distinct (NodesOfType s t) \<and> distinct (RelationsFrom s u) \<and> distinct (RelationsTo s u)"
  using assms by (simp add: good_state_def set_NodesOfType set_RelationsFrom set_RelationsTo
      distinct_accessors)

theorem accessors_exact_witness:
  "set (RelationsFrom ex_ab ''a'') = {k. \<exists>r. mget (Relations ex_ab) k = Some r \<and> r_SrcURN r = ''a''}"
  using accessors_exact [OF good_state_ex_ab] by blast

text \<open>Rebuild restores the three indexes of any well-formed state, whatever they held before,
  and leaves the graph as it was.\<close>

theorem Rebuild_restores:
  assumes "wf_state s"
  shows "good_state (Rebuild s) \<and> abs_graph (Rebuild s) = abs_graph s"
proof -
  have "wf_state (Rebuild s)" using assms wf_state_cong [of "Rebuild s" s] by simp
  with indexed_Rebuild [OF assms] show ?thesis by (simp add: good_state_def abs_graph_def)
qed

theorem Rebuild_restores_witness:
  "good_state (Rebuild (ex_ab\<lparr> NodesByType := None, RelationsBySrc := Some [] \<rparr>))"
proof -
  have "wf_state (ex_ab\<lparr> NodesByType := None, RelationsBySrc := Some [] \<rparr>)"
    using good_state_ex_ab wf_state_cong [of "ex_ab\<lparr> NodesByType := None, RelationsBySrc := Some [] \<rparr>" ex_ab]
    by (simp add: good_state_def)
  then show ?thesis using Rebuild_restores by blast
qed

text \<open>No lost update. When two MUTATE envelopes of the same node were both prepared against
  the node's current version, the first to land makes the second fail with a version conflict.\<close>

theorem no_lost_update:
  assumes "mget (Nodes s) u = Some n" "n_Version n \<noteq> 0"
    and "e_RewriteType e1 = MUTATE" "e_TargetURN e1 = u" "EvaluateAt s e1 t = Inr (s', r)"
    and "e_RewriteType e2 = MUTATE" "e_TargetURN e2 = u" "e_ExpectedVersion e2 = n_Version n"
    and "e_Actor e2 \<noteq> ''''" "e_Field e2 \<noteq> ''''"
    and "mget (n_Properties n) (e_Field e2) = Some p" "\<not> Immutable p"
  shows "EvaluateAt s' e2 t' = Inl (ErrVersionConflict (n_Version n) (wrap64 (n_Version n + 1)))"
proof -
  obtain q where u: "u \<noteq> ''''" and q: "mutate_source n e1 = Some q"
    and s': "s' = s\<lparr> Nodes := mput u (mutated_node n (e_Field e1) (keep_spec q (e_NewValue e1))) (Nodes s) \<rparr>"
    using assms(1,3-5) by (auto simp: EvaluateAt_MUTATE_iff)
  let ?n' = "mutated_node n (e_Field e1) (keep_spec q (e_NewValue e1))"
  have "\<exists>p'. mget (n_Properties ?n') (e_Field e2) = Some p' \<and> \<not> Immutable p'"
    using assms(11,12) q by (auto simp: mutate_source_def split: if_splits)
  moreover have "wrap64 (n_Version n + 1) \<noteq> n_Version n" by (rule wrap64_succ_neq)
  ultimately show ?thesis
    using assms u s'
    by (auto simp: EvaluateAt_def evaluateInPlace_def validateEnvelopeStructure_def applyMUTATE_def)
qed

theorem no_lost_update_witness:
  "\<exists>s' r. EvaluateAt ex_ab (ex_mutate ''a'' ''title'' (VStr ''y'') 1) 5 = Inr (s', r) \<and>
     EvaluateAt s' (ex_mutate ''a'' ''title'' (VStr ''z'') 1) 6 = Inl (ErrVersionConflict 1 2)"
proof -
  obtain n where n: "mget (Nodes ex_ab) ''a'' = Some n" "n_Version n = 1"
    using ex_ab_version by auto
  then have p: "mget (n_Properties n) ''title'' = Some (ex_prop (VStr ''x'') ''mutable'')"
    using ex_ab_title by simp
  obtain s' r where s': "EvaluateAt ex_ab (ex_mutate ''a'' ''title'' (VStr ''y'') 1) 5 = Inr (s', r)"
    using ex_mutate_ok by blast
  from no_lost_update [OF n(1) _ _ _ this, of "ex_mutate ''a'' ''title'' (VStr ''z'') 1"] s' n p
  show ?thesis by (simp add: ex_defs Immutable_def)
qed

text \<open>A property marked immutable is never overwritten: a well-formed MUTATE of it is rejected
  as such, whatever version it expects and whatever property spec it brings.\<close>

theorem immutable_rejected:
  assumes "e_RewriteType e = MUTATE" "e_Actor e \<noteq> ''''"
    and "e_TargetURN e \<noteq> ''''" "e_Field e \<noteq> ''''"
    and "mget (Nodes s) (e_TargetURN e) = Some n"
    and "mget (n_Properties n) (e_Field e) = Some p" "Immutable p"
  shows "EvaluateAt s e t = Inl (ErrImmutableProperty (e_Field e) (e_TargetURN e))"
  using assms
  by (simp add: EvaluateAt_def evaluateInPlace_def validateEnvelopeStructure_def applyMUTATE_def)

theorem immutable_rejected_witness:
  "EvaluateAt ex_ab (ex_mutate ''a'' ''owner'' (VStr ''you'') 0) 5 = Inl (ErrImmutableProperty ''owner'' ''a'')"
proof -
  obtain n where "mget (Nodes ex_ab) ''a'' = Some n" "mget (n_Properties n) ''owner'' =
      Some (ex_prop (VStr ''me'') ''immutable'')"
    using ex_ab_owner by auto
  with immutable_rejected [of "ex_mutate ''a'' ''owner'' (VStr ''you'') 0" ex_ab n] show ?thesis
    by (simp add: ex_defs Immutable_def)
qed

text \<open>A LINK followed by the UNLINK of the same relation succeeds and gives back the graph,
  and every accessor then returns the same set as before.\<close>

theorem LINK_UNLINK_roundtrip:
  assumes "good_state s" "e_RewriteType l = LINK" "EvaluateAt s l t = Inr (s1, r1)"
    and "e_RewriteType u = UNLINK" "e_Actor u \<noteq> ''''" "e_RelationURN u = e_RelationURN l"
  shows "\<exists>s2 r2. EvaluateAt s1 u t' = Inr (s2, r2) \<and> abs_graph s2 = abs_graph s \<and>
    set (RelationsFrom s2 v) = set (RelationsFrom s v) \<and> set (RelationsTo s2 v) = set (RelationsTo s v)"
proof -
  have l: "e_RelationURN l \<noteq> ''''" "mget (Relations s) (e_RelationURN l) = None"
    "mget (Relations s1) (e_RelationURN l) = Some (new_relation l t)"
    "mget (Nodes s1) = mget (Nodes s)" "mget (Relations s1) = (mget (Relations s))(e_RelationURN l \<mapsto> new_relation l t)"
    using assms(3) by (auto simp: EvaluateAt_LINK_iff [OF assms(2)])
  obtain s2 r2 where s2: "EvaluateAt s1 u t' = Inr (s2, r2)"
    using l assms(5,6) by (auto simp: EvaluateAt_UNLINK_iff [OF assms(4)])
  have "mget (Nodes s2) = mget (Nodes s)" "mget (Relations s2) = mget (Relations s)"
    using s2 l assms(6) by (auto simp: EvaluateAt_UNLINK_iff [OF assms(4)] fun_eq_iff)
  moreover from this have "abs_graph s2 = abs_graph s" by (simp add: abs_graph_def)
  moreover have "good_state s2" using assms(1,3) s2 good_state_EvaluateAt by blast
  ultimately show ?thesis
    using s2 assms(1) by (simp add: good_state_def set_RelationsFrom set_RelationsTo)
qed

theorem LINK_UNLINK_roundtrip_witness:
  "\<exists>s1 r1 s2 r2. EvaluateAt ex_ab (ex_link ''q'' WF21 ''b'' ''causes'' ''a'' ''caused-by'') 5 = Inr (s1, r1) \<and>
     EvaluateAt s1 (ex_unlink ''q'') 6 = Inr (s2, r2) \<and> abs_graph s2 = abs_graph ex_ab"
proof -
  obtain s1 r1 where l: "EvaluateAt ex_ab (ex_link ''q'' WF21 ''b'' ''causes'' ''a'' ''caused-by'') 5 = Inr (s1, r1)"
    using ex_link_ok by blast
  from LINK_UNLINK_roundtrip [OF good_state_ex_ab _ l, of "ex_unlink ''q''" 6] l
  show ?thesis by simp blast
qed

section \<open>Logs and programs\<close>

text \<open>Whatever is appended to a log, the state it replays to only evolves: no node disappears,
  no node changes its URN, type or creation time, no property disappears or changes its
  mutability, authority scope, stratum or validation type, and no immutable value changes.\<close>

theorem Replay_evolves:
  "evolves (abs_graph (fst (Replay xs))) (abs_graph (fst (Replay (xs @ ys))))"
  unfolding Replay_fst by (rule replay.rel_prefix)

text \<open>An atomic program with one timestamp per envelope succeeds exactly when the chain of
  single evaluations does, with the same state and the same results in the same order.\<close>

theorem program_is_chain:
  assumes "length ts = length es"
  shows "EvaluateProgramAt s es ts nows = Inr (s', rs) \<longleftrightarrow> eval_chain s (zip es ts) = Some (s', rs)"
  by (rule EvaluateProgramAt_Inr [OF assms])

theorem program_is_chain_witness:
  "\<exists>s' rs. EvaluateProgramAt ex_ab [ex_unlink ''r''] [5] (\<lambda>_. 0) = Inr (s', rs)"
  using program_is_chain [of "[5]" "[ex_unlink ''r'']" ex_ab "\<lambda>_. 0"] ex_unlink_ok by fastforce

text \<open>A program fails with the index of the first envelope that cannot be evaluated: every
  envelope before it succeeds, and the reported error is the one that envelope meets.\<close>

theorem program_fails_at:
  assumes "length ts = length es"
  shows "EvaluateProgramAt s es ts nows = Inl (StepFailed i rt err) \<longleftrightarrow>
    i < length es \<and> rt = e_RewriteType (es ! i) \<and>
    (\<exists>s' rs. eval_chain s (take i (zip es ts)) = Some (s', rs) \<and> EvaluateAt s' (es ! i) (ts ! i) = Inl err)"
  using assms program_loop_Inl [of 0 s "zip es ts" "[]" i rt err]
  by (cases "i < length es") (simp_all add: EvaluateProgramAt_def Let_def)

theorem program_fails_at_witness:
  "EvaluateProgramAt ex_ab [ex_unlink ''r'', ex_unlink ''r''] [5, 6] (\<lambda>_. 0) =
     Inl (StepFailed 1 UNLINK (ErrRelationNotFound ''r''))"
proof -
  obtain s' r where s': "EvaluateAt ex_ab (ex_unlink ''r'') 5 = Inr (s', r)" using ex_unlink_ok by blast
  then have "mget (Relations s') ''r'' = None" by (auto simp: EvaluateAt_UNLINK_iff)
  then have "EvaluateAt s' (ex_unlink ''r'') 6 = Inl (ErrRelationNotFound ''r'')"
    by (simp add: EvaluateAt_def evaluateInPlace_def validateEnvelopeStructure_def applyUNLINK_def)
  with s' program_fails_at [of "[5, 6]" "[ex_unlink ''r'', ex_unlink ''r'']" ex_ab "\<lambda>_. 0" 1] show ?thesis
    by simp
qed

text \<open>When Replay stops, the index and sequence number it reports are those of the first entry
  whose evaluation fails with an error the replay may not skip; the state is the replay of the
  entries before it.\<close>

theorem Replay_error:
  assumes "Replay es = (s, Some err)"
  shows "re_Index err < length es \<and> Replay (take (re_Index err) es) = (s, None) \<and>
    re_Seq err = pr_LogSeq (es ! re_Index err) \<and>
    EvaluateAt s (pr_Envelope (es ! re_Index err)) (replayAppliedAt (es ! re_Index err)) = Inl (re_Cause err) \<and>
    \<not> isIdempotentSkip (e_RewriteType (pr_Envelope (es ! re_Index err))) (re_Cause err)"
proof -
  obtain i c where fl: "fold_log replay_step replay_skip 0 NewGraphState es = (s, Some (i, c))"
    and err: "err = \<lparr> re_Seq = pr_LogSeq (es ! i), re_Index = i, re_Cause = c \<rparr>"
    using assms by (auto simp: Replay_def split: prod.splits option.splits)
  from fold_log_index [OF fl] show ?thesis
    by (auto simp: err Replay_None replay_step_def replay_skip_def split: sum.splits)
qed

theorem Replay_error_witness:
  "\<exists>s err. Replay [ex_entry (ex_link ''r'' WF21 ''a'' ''causes'' ''b'' ''caused-by'')] = (s, Some err) \<and>
     re_Index err = 0 \<and> re_Cause err = ErrNodeNotFound ''a''"
proof -
  let ?es = "[ex_entry (ex_link ''r'' WF21 ''a'' ''causes'' ''b'' ''caused-by'')]"
  have n: "EvaluateAt NewGraphState (pr_Envelope (?es ! 0)) (replayAppliedAt (?es ! 0)) = Inl (ErrNodeNotFound ''a'')"
    by (simp add: ex_entry_def EvaluateAt_def evaluateInPlace_def validateEnvelopeStructure_def applyLINK_def
        NewGraphState_def)
  then obtain s err where r: "Replay ?es = (s, Some err)"
    by (simp add: Replay_def replay_step_def replay_skip_def isIdempotentSkip_def ex_entry_def)
  from Replay_error [OF r] have i: "re_Index err = 0" "EvaluateAt s (pr_Envelope (?es ! 0)) (replayAppliedAt (?es ! 0)) =
      Inl (re_Cause err)" "Replay (take 0 ?es) = (s, None)" by auto
  then have "s = NewGraphState" by (simp add: Replay_def)
  with i n r show ?thesis by auto
qed

text \<open>Replay tolerates a duplicated entry. Appending once more an entry that has just been
  applied changes nothing, provided it is an ADD, a LINK, an UNLINK, or a MUTATE that checked a
  version of a property the node already had.\<close>

theorem Replay_duplicate:
  assumes "Replay es = (s, None)" "replay_step s pr = Inr s'"
    and "e_RewriteType (pr_Envelope pr) \<noteq> MUTATE \<or> e_ExpectedVersion (pr_Envelope pr) \<noteq> 0 \<and>
      stored_property s (e_TargetURN (pr_Envelope pr)) (e_Field (pr_Envelope pr)) \<noteq> None"
  shows "Replay (es @ [pr, pr]) = (s', None)"
proof -
  obtain r where ev: "EvaluateAt s (pr_Envelope pr) (replayAppliedAt pr) = Inr (s', r)"
    using assms(2) by (auto simp: replay_step_Inr)
  from again_skipped [OF ev assms(3)] obtain err where
    "EvaluateAt s' (pr_Envelope pr) (replayAppliedAt pr) = Inl err" "isIdempotentSkip (e_RewriteType (pr_Envelope pr)) err"
    by blast
  then have "replay_step s' pr = Inl err" "replay_skip pr err" by (simp_all add: replay_step_def replay_skip_def)
  with assms(2) show ?thesis by (intro Replay_append [OF assms(1)]) simp
qed

theorem Replay_duplicate_witness:
  "\<exists>s. Replay [ex_entry (ex_add ''a'' ''task'' []), ex_entry (ex_add ''a'' ''task'' [])] = (s, None) \<and>
     mget (Nodes s) ''a'' \<noteq> None"
proof -
  let ?pr = "ex_entry (ex_add ''a'' ''task'' [])"
  obtain s' where s': "replay_step NewGraphState ?pr = Inr s'" "mget (Nodes s') ''a'' \<noteq> None"
    by (auto simp: replay_step_Inr EvaluateAt_ADD_iff ex_entry_def NewGraphState_def)
  have "Replay [] = (NewGraphState, None)" by (simp add: Replay_def)
  from Replay_duplicate [OF this s'(1)] s'(2) show ?thesis by (simp add: ex_entry_def)
qed

end
