(* ===== verification/Registry.thy ===== *)
theory Registry
  imports Graph
begin

text \<open>
  internal/operad/registry.go, port_colors.go and the registry-only half of validate.go: the
  grammar the kernel loads from ontology.json, the frozen port-color table and the validators of
  ADD, LINK, MUTATE and UNLINK. Each fmt.Errorf is a constructor of \<open>operad_error\<close> with the
  values it prints.
\<close>

section \<open>The registry\<close>

record property_spec =
  ps_Mutability :: string
  ps_AuthorityScope :: string
  ps_Type :: string
  ps_Values :: "val list"
  ps_Note :: string

text \<open>A nil list (\<open>None\<close>) is an absent key and prints as null, an empty one as [].\<close>

record port_spec =
  po_Out :: "string list option"
  po_In :: "string list option"
  po_Self :: "string list option"

record node_type_spec =
  nt_ID :: type_id
  nt_Stratum :: string
  nt_URNPattern :: string
  nt_Ports :: port_spec
  nt_Properties :: "(string, property_spec) gomap"

record additional_port_pair =
  ap_SrcPort :: string
  ap_TgtPort :: string
  ap_SrcTypes :: "type_id list"
  ap_TgtTypes :: "type_id list"
  ap_AddedInVersion :: string
  ap_PromotesFragment :: string
  ap_Description :: string

record wf_spec =
  wf_ID :: rewrite_category
  wf_Name :: string
  wf_AllowedRewrites :: "rewrite_type list"
  wf_SrcTypes :: "type_id list"
  wf_TgtTypes :: "type_id list"
  wf_SrcPort :: string
  wf_TgtPort :: string
  wf_AdditionalPortPairs :: "additional_port_pair list"
  wf_Authority :: string
  wf_MutateScope :: "string list"
  wf_SyncMode :: string

record ports_drift =
  pd_MissingOut :: "string list"
  pd_MissingIn :: "string list"
  pd_UnpairedOut :: "string list"
  pd_UnpairedIn :: "string list"

type_synonym color_compat = string

type_synonym port_color_matrix = "(port_color, (port_color, color_compat) gomap) gomap"

abbreviation compatAllowed :: color_compat where "compatAllowed \<equiv> ''true''"
abbreviation compatWF15Only :: color_compat where "compatWF15Only \<equiv> ''wf15_only''"
abbreviation compatSinkOnly :: color_compat where "compatSinkOnly \<equiv> ''sink_only''"
abbreviation compatFalse :: color_compat where "compatFalse \<equiv> ''false''"

record registry =
  Version :: string
  NodeTypes :: "(type_id, node_type_spec) gomap"
  RewriteCategories :: "(rewrite_category, wf_spec) gomap"
  PortColorMatrix :: port_color_matrix
  PortColors :: "(string, port_color) gomap option"
  PortColorSource :: string
  PortsGenerated :: bool
  PortsDrift :: "(type_id, ports_drift) gomap"

definition ColorRule :: string where
  "ColorRule = ''equality''"

definition PortColorSourceOntology :: string where
  "PortColorSourceOntology = ''ontology''"

definition PortColorSourceLegacyMerge :: string where
  "PortColorSourceLegacyMerge = ''ontology+kernel-legacy''"

text \<open>A missing row, or a missing cell (the empty compat), is not allowed.\<close>

definition Matrix_Allowed :: "port_color_matrix \<Rightarrow> port_color \<Rightarrow> port_color \<Rightarrow> rewrite_category \<Rightarrow> bool" where
  "Matrix_Allowed m src tgt category =
     (case mget m src of
        None \<Rightarrow> False
      | Some row \<Rightarrow>
          let cell = (case mget row tgt of Some c \<Rightarrow> c | None \<Rightarrow> '''')
          in if cell = compatAllowed then True
             else if cell = compatWF15Only then category = WF15
             else False)"

section \<open>Port colors\<close>

abbreviation ColorAuth :: port_color where "ColorAuth \<equiv> ''auth''"
abbreviation ColorTopology :: port_color where "ColorTopology \<equiv> ''topology''"
abbreviation ColorTransport :: port_color where "ColorTransport \<equiv> ''transport''"
abbreviation ColorCompute :: port_color where "ColorCompute \<equiv> ''compute''"
abbreviation ColorStorage :: port_color where "ColorStorage \<equiv> ''storage''"
abbreviation ColorWorkflow :: port_color where "ColorWorkflow \<equiv> ''workflow''"
abbreviation ColorSemantic :: port_color where "ColorSemantic \<equiv> ''semantic''"
abbreviation ColorProjection :: port_color where "ColorProjection \<equiv> ''projection''"

definition all_colors :: "port_color list" where
  "all_colors = [ColorAuth, ColorTopology, ColorTransport, ColorCompute, ColorStorage,
     ColorWorkflow, ColorSemantic, ColorProjection]"

definition legacyPortColors :: "(string, port_color) gomap" where
  "legacyPortColors =
     [
      (''governs'', ColorAuth), (''governed-by'', ColorAuth), (''granted-by'', ColorAuth),
      (''identity'', ColorAuth), (''promotes-to'', ColorAuth), (''promotion-target'', ColorAuth),
      (''delegates-to'', ColorAuth), (''delegated-by'', ColorAuth), (''promotes'', ColorAuth),
      (''promoted-from'', ColorAuth), (''contains'', ColorTopology), (''contained-in'', ColorTopology),
      (''owns'', ColorTopology), (''owned-by'', ColorTopology), (''child'', ColorTopology),
      (''hosts'', ColorTopology), (''hosted-on'', ColorTopology), (''binds'', ColorTopology),
      (''bound-to'', ColorTopology), (''spans'', ColorTopology), (''spanned-by'', ColorTopology),
      (''exposes'', ColorTransport), (''exposed-by'', ColorTransport),
      (''connects-to'', ColorTransport), (''connected-to'', ColorTransport),
      (''implements'', ColorTransport), (''implemented-by'', ColorTransport),
      (''routes-to'', ColorTransport), (''routed-from'', ColorTransport),
      (''shard-of'', ColorTransport), (''sharded-by'', ColorTransport),
      (''computes-on'', ColorCompute), (''computed-by'', ColorCompute),
      (''persisted-in'', ColorStorage), (''persists'', ColorStorage), (''synced-via'', ColorStorage),
      (''sync-target'', ColorStorage), (''provides-kb'', ColorStorage), (''kb-source'', ColorStorage),
      (''produces'', ColorStorage), (''produced-by'', ColorStorage), (''asserts'', ColorStorage),
      (''asserted-in'', ColorStorage), (''tagged'', ColorStorage), (''tagged-in'', ColorStorage),
      (''participates'', ColorWorkflow), (''participated-by'', ColorWorkflow),
      (''focus'', ColorWorkflow), (''on'', ColorWorkflow), (''anchors'', ColorWorkflow),
      (''anchor'', ColorWorkflow), (''causes'', ColorWorkflow), (''caused-by'', ColorWorkflow),
      (''summarizes'', ColorWorkflow), (''daily-summary'', ColorWorkflow),
      (''depends-on'', ColorWorkflow), (''depended-by'', ColorWorkflow),
      (''participant'', ColorWorkflow), (''triggers'', ColorWorkflow),
      (''triggered-by'', ColorWorkflow), (''guards'', ColorWorkflow), (''guarded-by'', ColorWorkflow),
      (''emits'', ColorWorkflow), (''emitted-by'', ColorWorkflow), (''watches'', ColorWorkflow),
      (''watched-by'', ColorWorkflow), (''blocks'', ColorWorkflow), (''blocked-by'', ColorWorkflow),
      (''scheduled-after'', ColorWorkflow), (''scheduled-before'', ColorWorkflow),
      (''steers'', ColorWorkflow), (''steered-by'', ColorWorkflow), (''composes'', ColorWorkflow),
      (''composed-by'', ColorWorkflow), (''opens-on'', ColorWorkflow),
      (''occupied-by'', ColorWorkflow), (''has-occupant'', ColorWorkflow),
      (''is-occupant-of'', ColorWorkflow), (''pins-urn'', ColorWorkflow),
      (''pinned-by-session'', ColorWorkflow), (''filtered-by'', ColorWorkflow),
      (''filters-session'', ColorWorkflow), (''mounts-tool'', ColorWorkflow),
      (''tool-mounted-in-session'', ColorWorkflow), (''has-purpose'', ColorWorkflow),
      (''purpose-of-session'', ColorWorkflow), (''presents-as'', ColorWorkflow),
      (''presented-by'', ColorWorkflow), (''{semantic}'', ColorSemantic),
      (''projected-to'', ColorProjection), (''rendered-as'', ColorProjection),
      (''displayed-as'', ColorProjection)]"

definition EmptyRegistry :: registry where
  "EmptyRegistry =
     \<lparr> Version = '''', NodeTypes = [], RewriteCategories = [], PortColorMatrix = [],
       PortColors = Some legacyPortColors, PortColorSource = PortColorSourceLegacyMerge,
       PortsGenerated = False, PortsDrift = [] \<rparr>"

section \<open>Validators\<close>

datatype uncolored = Uncolored string string bool

datatype operad_error =
    UnknownTypeID type_id
  | MissingImmutable string type_id
  | UnknownCategory rewrite_category
  | CategoryDisallows rewrite_category rewrite_type
  | ContractRequired
  | PairNotDeclared string string rewrite_category string
  | NoPortColor "uncolored list"
  | ColorMismatch string port_color string port_color rewrite_category
  | FieldNotDeclared string type_id
  | FieldNotMutable string type_id
  | FieldNotInScope string rewrite_category
  | FieldImmutable string type_id
  | NotOwner urn string
  | StrataViolation urn type_id string urn type_id
  | SrcTypeNotAllowed type_id rewrite_category
  | TgtTypeNotAllowed type_id rewrite_category
  | SrcTypeNotOnPair type_id string string rewrite_category
  | TgtTypeNotOnPair type_id string string rewrite_category
  | CausalSelfLink urn
  | CausalCycle urn urn

fun containsRewrite :: "rewrite_type list \<Rightarrow> rewrite_type \<Rightarrow> bool" where
  "containsRewrite [] rt = False"
| "containsRewrite (r # rs) rt = (r = rt \<or> containsRewrite rs rt)"

fun containsString :: "string list \<Rightarrow> string \<Rightarrow> bool" where
  "containsString [] s = False"
| "containsString (v # vs) s = (v = s \<or> containsString vs s)"

fun required_missing ::
  "(string, property_spec) gomap \<Rightarrow> (string, property) gomap \<Rightarrow> type_id \<Rightarrow> operad_error option" where
  "required_missing [] props t = None"
| "required_missing ((name, pspec) # rest) props t =
     (if mget props name = None \<and> ps_Mutability pspec = ''immutable'' then Some (MissingImmutable name t)
      else required_missing rest props t)"

definition ValidateADD :: "registry \<Rightarrow> envelope \<Rightarrow> operad_error option" where
  "ValidateADD r env =
     (case mget (NodeTypes r) (e_TypeID env) of
        None \<Rightarrow> Some (UnknownTypeID (e_TypeID env))
      | Some spec \<Rightarrow> required_missing (nt_Properties spec) (e_Properties env) (e_TypeID env))"

fun pair_listed :: "additional_port_pair list \<Rightarrow> string \<Rightarrow> string \<Rightarrow> bool" where
  "pair_listed [] src tgt = False"
| "pair_listed (p # ps) src tgt =
     (if ap_SrcPort p = src \<and> ap_TgtPort p = tgt then True else pair_listed ps src tgt)"

definition linkPairDeclared :: "wf_spec \<Rightarrow> string \<Rightarrow> string \<Rightarrow> bool" where
  "linkPairDeclared wfSpec src tgt =
     (if wf_SrcPort wfSpec = src \<and> wf_TgtPort wfSpec = tgt then True
      else pair_listed (wf_AdditionalPortPairs wfSpec) src tgt)"

definition pair_text :: "string \<Rightarrow> string \<Rightarrow> string" where
  "pair_text s t = ''('' @ s @ '', '' @ t @ '')''"

fun join :: "string \<Rightarrow> string list \<Rightarrow> string" where
  "join sep [] = ''''"
| "join sep [s] = s"
| "join sep (s # ss) = s @ sep @ join sep ss"

definition describeDeclaredPairs :: "wf_spec \<Rightarrow> string" where
  "describeDeclaredPairs wfSpec =
     (let pairs = (if wf_SrcPort wfSpec \<noteq> '''' \<or> wf_TgtPort wfSpec \<noteq> ''''
                   then [pair_text (wf_SrcPort wfSpec) (wf_TgtPort wfSpec)] else [])
                  @ map (\<lambda>p. pair_text (ap_SrcPort p) (ap_TgtPort p)) (wf_AdditionalPortPairs wfSpec)
      in if pairs = [] then ''(none declared)'' else join '' | '' pairs)"

fun matching_pair ::
  "additional_port_pair list \<Rightarrow> string \<Rightarrow> string \<Rightarrow> additional_port_pair option" where
  "matching_pair [] src tgt = None"
| "matching_pair (p # ps) src tgt =
     (if ap_SrcPort p = src \<and> ap_TgtPort p = tgt then Some p else matching_pair ps src tgt)"

definition matchingAdditionalPair ::
  "wf_spec \<Rightarrow> string \<Rightarrow> string \<Rightarrow> additional_port_pair option" where
  "matchingAdditionalPair wfSpec src tgt = matching_pair (wf_AdditionalPortPairs wfSpec) src tgt"

definition describeUncolored :: "string \<Rightarrow> string \<Rightarrow> bool \<Rightarrow> uncolored" where
  "describeUncolored sd pt present = Uncolored sd pt present"

definition resolvePortColors ::
  "registry \<Rightarrow> string \<Rightarrow> string \<Rightarrow> uncolored list + (port_color \<times> port_color)" where
  "resolvePortColors r srcPort tgtPort =
     (let colors = (case PortColors r of None \<Rightarrow> legacyPortColors | Some c \<Rightarrow> c);
          srcOk = (mget colors srcPort \<noteq> None);
          tgtOk = (mget colors tgtPort \<noteq> None);
          srcColor = (case mget colors srcPort of Some c \<Rightarrow> c | None \<Rightarrow> '''');
          tgtColor = (case mget colors tgtPort of Some c \<Rightarrow> c | None \<Rightarrow> '''')
      in if \<not> srcOk \<or> \<not> tgtOk \<or> srcColor = '''' \<or> tgtColor = '''' then
           Inl ((if \<not> srcOk \<or> srcColor = '''' then [describeUncolored ''src'' srcPort srcOk] else [])
                @ (if \<not> tgtOk \<or> tgtColor = '''' then [describeUncolored ''tgt'' tgtPort tgtOk] else []))
         else Inr (srcColor, tgtColor))"

definition pairsDeclared :: "wf_spec \<Rightarrow> bool" where
  "pairsDeclared wfSpec \<longleftrightarrow>
     wf_SrcPort wfSpec \<noteq> '''' \<or> wf_TgtPort wfSpec \<noteq> '''' \<or> wf_AdditionalPortPairs wfSpec \<noteq> []"

definition ValidateLINK :: "registry \<Rightarrow> envelope \<Rightarrow> operad_error option" where
  "ValidateLINK r env =
     (case mget (RewriteCategories r) (e_RewriteCategory env) of
        None \<Rightarrow> Some (UnknownCategory (e_RewriteCategory env))
      | Some wfSpec \<Rightarrow>
          if \<not> containsRewrite (wf_AllowedRewrites wfSpec) LINK
          then Some (CategoryDisallows (e_RewriteCategory env) LINK)
          else if e_RewriteCategory env = WF15 \<and> e_ContractURN env = '''' then Some ContractRequired
          else if pairsDeclared wfSpec \<and> \<not> linkPairDeclared wfSpec (e_SrcPort env) (e_TgtPort env)
          then Some (PairNotDeclared (e_SrcPort env) (e_TgtPort env) (e_RewriteCategory env)
                       (describeDeclaredPairs wfSpec))
          else
            (case resolvePortColors r (e_SrcPort env) (e_TgtPort env) of
               Inl missing \<Rightarrow> if pairsDeclared wfSpec then Some (NoPortColor missing) else None
             | Inr (srcColor, tgtColor) \<Rightarrow>
                 if srcColor \<noteq> tgtColor
                 then Some (ColorMismatch (e_SrcPort env) srcColor (e_TgtPort env) tgtColor
                              (e_RewriteCategory env))
                 else None))"

definition checkAuthority :: "string \<Rightarrow> urn \<Rightarrow> node \<Rightarrow> operad_error option" where
  "checkAuthority scope actor nd =
     (if scope = ''kernel'' then None
      else if scope = ''owner'' then
        (case mget (n_Properties nd) ''owner_urn'' of
           None \<Rightarrow> None
         | Some ownerProp \<Rightarrow>
             (case as_string (p_Value ownerProp) of
                None \<Rightarrow> None
              | Some ownerURN \<Rightarrow> if ownerURN \<noteq> actor then Some (NotOwner actor ownerURN) else None))
      else if scope \<in> {''principal'', ''substrate'', ''delegate''} then None
      else None)"

definition ValidateMUTATE :: "registry \<Rightarrow> envelope \<Rightarrow> node \<Rightarrow> operad_error option" where
  "ValidateMUTATE r env nd =
     (if mget (n_Properties nd) (e_Field env) = None then
        err_seq
          (case mget (NodeTypes r) (n_TypeID nd) of
             None \<Rightarrow> None
           | Some typeSpec \<Rightarrow>
               (case mget (nt_Properties typeSpec) (e_Field env) of
                  None \<Rightarrow> Some (FieldNotDeclared (e_Field env) (n_TypeID nd))
                | Some pspec \<Rightarrow>
                    if ps_Mutability pspec \<noteq> ''mutable''
                    then Some (FieldNotMutable (e_Field env) (n_TypeID nd))
                    else checkAuthority (ps_AuthorityScope pspec) (e_Actor env) nd))
          (err_if (e_RewriteCategory env \<noteq> '''' \<and>
                   mget (RewriteCategories r) (e_RewriteCategory env) = None)
             (UnknownCategory (e_RewriteCategory env)))
      else
        (case mget (RewriteCategories r) (e_RewriteCategory env) of
           None \<Rightarrow> Some (UnknownCategory (e_RewriteCategory env))
         | Some wfSpec \<Rightarrow>
             if \<not> containsRewrite (wf_AllowedRewrites wfSpec) MUTATE
             then Some (CategoryDisallows (e_RewriteCategory env) MUTATE)
             else if wf_MutateScope wfSpec \<noteq> [] \<and> \<not> containsString (wf_MutateScope wfSpec) (e_Field env)
             then Some (FieldNotInScope (e_Field env) (e_RewriteCategory env))
             else
               (case mget (NodeTypes r) (n_TypeID nd) of
                  None \<Rightarrow> None
                | Some typeSpec \<Rightarrow>
                    (case mget (nt_Properties typeSpec) (e_Field env) of
                       None \<Rightarrow> None
                     | Some pspec \<Rightarrow>
                         if ps_Mutability pspec = ''immutable''
                         then Some (FieldImmutable (e_Field env) (n_TypeID nd))
                         else checkAuthority (ps_AuthorityScope pspec) (e_Actor env) nd))))"

definition ValidateUNLINK :: "registry \<Rightarrow> envelope \<Rightarrow> operad_error option" where
  "ValidateUNLINK r env =
     (if e_RewriteCategory env = '''' then None
      else case mget (RewriteCategories r) (e_RewriteCategory env) of
        None \<Rightarrow> Some (UnknownCategory (e_RewriteCategory env))
      | Some wfSpec \<Rightarrow>
          if \<not> containsRewrite (wf_AllowedRewrites wfSpec) UNLINK
          then Some (CategoryDisallows (e_RewriteCategory env) UNLINK)
          else None)"

section \<open>What the gates admit\<close>

lemma containsRewrite_iff [simp]: "containsRewrite rs rt \<longleftrightarrow> rt \<in> set rs"
  by (induction rs) auto

lemma containsString_iff [simp]: "containsString vs s \<longleftrightarrow> s \<in> set vs"
  by (induction vs) auto

lemma required_missing_None:
  "required_missing specs props t = None \<longleftrightarrow>
   (\<forall>(name, p)\<in>set specs. ps_Mutability p = ''immutable'' \<longrightarrow> mget props name \<noteq> None)"
  by (induction specs) (auto split: if_splits)

lemma pair_listed_iff: "pair_listed ps s t \<longleftrightarrow> (s, t) \<in> set (map (\<lambda>p. (ap_SrcPort p, ap_TgtPort p)) ps)"
  by (induction ps) auto

text \<open>The declared port pairs: the primary pair and the additional ones.\<close>

definition declared_pairs :: "wf_spec \<Rightarrow> (string \<times> string) set" where
  "declared_pairs w =
     insert (wf_SrcPort w, wf_TgtPort w)
       ((\<lambda>p. (ap_SrcPort p, ap_TgtPort p)) ` set (wf_AdditionalPortPairs w))"

lemma linkPairDeclared_iff: "linkPairDeclared w s t \<longleftrightarrow> (s, t) \<in> declared_pairs w"
  by (auto simp: linkPairDeclared_def pair_listed_iff declared_pairs_def)

lemma matching_pair_Some:
  "matching_pair ps s t = Some p \<Longrightarrow> p \<in> set ps \<and> ap_SrcPort p = s \<and> ap_TgtPort p = t"
  by (induction ps) (auto split: if_splits)

lemma matching_pair_None: "matching_pair ps s t = None \<longleftrightarrow> \<not> pair_listed ps s t"
  by (induction ps) auto

text \<open>The color of a port; an empty color counts as none.\<close>

definition port_color_of :: "registry \<Rightarrow> string \<Rightarrow> port_color option" where
  "port_color_of r p =
     (case mget (case PortColors r of None \<Rightarrow> legacyPortColors | Some c \<Rightarrow> c) p of
        None \<Rightarrow> None
      | Some c \<Rightarrow> if c = '''' then None else Some c)"

lemma resolvePortColors_Inr:
  "resolvePortColors r s t = Inr (a, b) \<longleftrightarrow> port_color_of r s = Some a \<and> port_color_of r t = Some b"
  by (auto simp: resolvePortColors_def port_color_of_def Let_def split: option.splits if_splits)

lemma resolvePortColors_Inl:
  "(\<exists>m. resolvePortColors r s t = Inl m) \<longleftrightarrow> port_color_of r s = None \<or> port_color_of r t = None"
  by (auto simp: resolvePortColors_def port_color_of_def Let_def split: option.splits if_splits)

definition colors_ok :: "registry \<Rightarrow> wf_spec \<Rightarrow> string \<Rightarrow> string \<Rightarrow> bool" where
  "colors_ok r w s t \<longleftrightarrow>
     (case (port_color_of r s, port_color_of r t) of
        (Some a, Some b) \<Rightarrow> a = b
      | _ \<Rightarrow> \<not> pairsDeclared w)"

lemma resolve_colors_ok:
  "(case resolvePortColors r s t of
      Inl missing \<Rightarrow> if pairsDeclared w then Some (NoPortColor missing) else None
    | Inr (a, b) \<Rightarrow> if a \<noteq> b then Some (ColorMismatch s a t b c) else None) = None
   \<longleftrightarrow> colors_ok r w s t"
proof (cases "resolvePortColors r s t")
  case (Inl m)
  then have "port_color_of r s = None \<or> port_color_of r t = None"
    by (simp flip: resolvePortColors_Inl)
  with Inl show ?thesis by (auto simp: colors_ok_def split: option.splits)
next
  case (Inr ab)
  obtain x y where xy: "ab = (x, y)" by force
  then have "port_color_of r s = Some x" "port_color_of r t = Some y"
    using Inr by (simp_all add: resolvePortColors_Inr)
  with Inr xy show ?thesis by (simp add: colors_ok_def)
qed

definition link_admitted :: "registry \<Rightarrow> wf_spec \<Rightarrow> envelope \<Rightarrow> bool" where
  "link_admitted r w env \<longleftrightarrow>
     LINK \<in> set (wf_AllowedRewrites w) \<and>
     \<not> (e_RewriteCategory env = WF15 \<and> e_ContractURN env = '''') \<and>
     (if pairsDeclared w then (e_SrcPort env, e_TgtPort env) \<in> declared_pairs w else True) \<and>
     colors_ok r w (e_SrcPort env) (e_TgtPort env)"

lemma ValidateLINK_None:
  "ValidateLINK r env = None \<longleftrightarrow>
   (\<exists>w. mget (RewriteCategories r) (e_RewriteCategory env) = Some w \<and> link_admitted r w env)"
proof (cases "mget (RewriteCategories r) (e_RewriteCategory env)")
  case None
  then show ?thesis by (simp add: ValidateLINK_def)
next
  case (Some w)
  show ?thesis
    unfolding ValidateLINK_def link_admitted_def Some
    by (simp add: resolve_colors_ok linkPairDeclared_iff del: not_None_eq)
qed

lemma ValidateADD_None:
  "ValidateADD r env = None \<longleftrightarrow>
   (\<exists>spec. mget (NodeTypes r) (e_TypeID env) = Some spec \<and>
      (\<forall>(name, p)\<in>set (nt_Properties spec).
         ps_Mutability p = ''immutable'' \<longrightarrow> mget (e_Properties env) name \<noteq> None))"
  by (simp add: ValidateADD_def required_missing_None split: option.splits)

lemma ValidateUNLINK_None:
  "ValidateUNLINK r env = None \<longleftrightarrow> e_RewriteCategory env = '''' \<or>
   (\<exists>w. mget (RewriteCategories r) (e_RewriteCategory env) = Some w \<and> UNLINK \<in> set (wf_AllowedRewrites w))"
  by (auto simp: ValidateUNLINK_def split: option.splits)

text \<open>What the type spec says of a field of a node.\<close>

definition field_spec :: "registry \<Rightarrow> node \<Rightarrow> string \<Rightarrow> property_spec option" where
  "field_spec r nd f =
     (case mget (NodeTypes r) (n_TypeID nd) of None \<Rightarrow> None | Some ts \<Rightarrow> mget (nt_Properties ts) f)"

lemma ValidateMUTATE_not_immutable:
  assumes "ValidateMUTATE r env nd = None" "field_spec r nd (e_Field env) = Some p"
  shows "ps_Mutability p \<noteq> ''immutable'' \<and> checkAuthority (ps_AuthorityScope p) (e_Actor env) nd = None"
  using assms
  by (auto simp: ValidateMUTATE_def field_spec_def split: option.splits if_splits)

lemma checkAuthority_None:
  "checkAuthority scope actor nd = None \<longleftrightarrow>
   scope \<noteq> ''owner'' \<or>
   (case mget (n_Properties nd) ''owner_urn'' of
      None \<Rightarrow> True
    | Some p \<Rightarrow> (case as_string (p_Value p) of None \<Rightarrow> True | Some o_urn \<Rightarrow> o_urn = actor))"
  by (auto simp: checkAuthority_def split: option.splits)

section \<open>The legacy color table\<close>

lemma legacy_wf: "wf_map legacyPortColors"
  by (simp add: wf_map_def legacyPortColors_def)

lemma legacy_vocabulary: "set (map snd legacyPortColors) \<subseteq> set all_colors"
  by (simp add: legacyPortColors_def all_colors_def)

lemma all_colors_nonempty: "c \<in> set all_colors \<Longrightarrow> c \<noteq> ''''"
  by (auto simp: all_colors_def)

lemma legacy_color_nonempty: "mget legacyPortColors p = Some c \<Longrightarrow> c \<noteq> ''''"
  using legacy_vocabulary all_colors_nonempty by (force dest: map_of_SomeD)

end
