(* ===== verification/LinkGates.thy ===== *)
theory LinkGates
  imports Registry Replay
begin

text \<open>
  The state-dependent link gates of internal/operad/validate.go: ValidateStrataLink (M5 strata
  filtration, type allowance) and ValidateCausalAcyclic (WF21), whose breadth-first search is a
  terminating function here and is shown to decide reachability along the causes edges.
\<close>

section \<open>Strata and types\<close>

fun typeAllowed :: "type_id list \<Rightarrow> type_id \<Rightarrow> bool" where
  "typeAllowed [] ty = False"
| "typeAllowed (v # vs) ty = (if v = ''*'' \<or> v = ty then True else typeAllowed vs ty)"

definition s4_violation :: "string \<Rightarrow> string \<Rightarrow> bool" where
  "s4_violation src tgt =
     (case (ParseStratum src, ParseStratum tgt) of
        (Inr a, Inr b) \<Rightarrow> a = S4 \<and> b < S3
      | _ \<Rightarrow> False)"

definition ValidateStrataLink :: "registry \<Rightarrow> envelope \<Rightarrow> graph_state \<Rightarrow> operad_error option" where
  "ValidateStrataLink r env state =
     (case (mget (Nodes state) (e_SrcURN env), mget (Nodes state) (e_TgtURN env)) of
        (Some srcNode, Some tgtNode) \<Rightarrow>
          (case (mget (NodeTypes r) (n_TypeID srcNode), mget (NodeTypes r) (n_TypeID tgtNode)) of
             (Some srcSpec, Some tgtSpec) \<Rightarrow>
               if s4_violation (nt_Stratum srcSpec) (nt_Stratum tgtSpec) then
                 Some (StrataViolation (e_SrcURN env) (n_TypeID srcNode) (nt_Stratum tgtSpec)
                         (e_TgtURN env) (n_TypeID tgtNode))
               else
                 (case mget (RewriteCategories r) (e_RewriteCategory env) of
                    None \<Rightarrow> None
                  | Some wfSpec \<Rightarrow>
                      (case matchingAdditionalPair wfSpec (e_SrcPort env) (e_TgtPort env) of
                         None \<Rightarrow>
                           if wf_SrcTypes wfSpec \<noteq> [] \<and> \<not> typeAllowed (wf_SrcTypes wfSpec) (n_TypeID srcNode)
                           then Some (SrcTypeNotAllowed (n_TypeID srcNode) (e_RewriteCategory env))
                           else if wf_TgtTypes wfSpec \<noteq> [] \<and> \<not> typeAllowed (wf_TgtTypes wfSpec) (n_TypeID tgtNode)
                           then Some (TgtTypeNotAllowed (n_TypeID tgtNode) (e_RewriteCategory env))
                           else None
                       | Some pair \<Rightarrow>
                           if ap_SrcTypes pair \<noteq> [] \<and> \<not> typeAllowed (ap_SrcTypes pair) (n_TypeID srcNode)
                           then Some (SrcTypeNotOnPair (n_TypeID srcNode) (e_SrcPort env) (e_TgtPort env)
                                        (e_RewriteCategory env))
                           else if ap_TgtTypes pair \<noteq> [] \<and> \<not> typeAllowed (ap_TgtTypes pair) (n_TypeID tgtNode)
                           then Some (TgtTypeNotOnPair (n_TypeID tgtNode) (e_SrcPort env) (e_TgtPort env)
                                        (e_RewriteCategory env))
                           else None))
           | _ \<Rightarrow> None)
      | _ \<Rightarrow> None)"

section \<open>The causal walk\<close>

text \<open>The targets of the canonical causes-edges out of \<open>cur\<close>; a nil index ranges over nothing.\<close>

definition is_causes :: "relation \<Rightarrow> bool" where
  "is_causes rel \<longleftrightarrow> r_RewriteCategory rel = WF21 \<and> r_SrcPort rel = ''causes''"

definition causes_targets :: "graph_state \<Rightarrow> urn \<Rightarrow> urn list" where
  "causes_targets state cur =
     concat (map (\<lambda>relURN.
       case mget (Relations state) relURN of
         None \<Rightarrow> []
       | Some rel \<Rightarrow> if is_causes rel then [r_TgtURN rel] else [])
       (index_look (RelationsBySrc state) cur))"

text \<open>The inner loop: \<open>None\<close> when it meets the source of the proposed edge.\<close>

fun visit_targets :: "urn \<Rightarrow> urn list \<Rightarrow> urn list \<Rightarrow> urn list \<Rightarrow> (urn list \<times> urn list) option" where
  "visit_targets src [] visited queue = Some (visited, queue)"
| "visit_targets src (t # ts) visited queue =
     (if t = src then None
      else if t \<notin> set visited then visit_targets src ts (t # visited) (queue @ [t])
      else visit_targets src ts visited queue)"

definition all_targets :: "graph_state \<Rightarrow> urn set" where
  "all_targets state = r_TgtURN ` set (map snd (Relations state))"

lemma finite_all_targets [simp]: "finite (all_targets state)"
  by (simp add: all_targets_def)

lemma in_causes_targets:
  "b \<in> set (causes_targets state a) \<longleftrightarrow>
   (\<exists>u\<in>set (index_look (RelationsBySrc state) a). \<exists>rel.
      mget (Relations state) u = Some rel \<and> is_causes rel \<and> r_TgtURN rel = b)"
proof -
  have "b \<in> set (case mget (Relations state) u of None \<Rightarrow> []
                | Some rel \<Rightarrow> if is_causes rel then [r_TgtURN rel] else []) \<longleftrightarrow>
      (\<exists>rel. mget (Relations state) u = Some rel \<and> is_causes rel \<and> r_TgtURN rel = b)" for u
    by (cases "mget (Relations state) u") auto
  then show ?thesis by (simp add: causes_targets_def)
qed

lemma causes_targets_all: "set (causes_targets state cur) \<subseteq> all_targets state"
proof
  fix b assume "b \<in> set (causes_targets state cur)"
  then obtain u rel where "mget (Relations state) u = Some rel" "b = r_TgtURN rel"
    unfolding in_causes_targets by blast
  then show "b \<in> all_targets state" by (force simp: all_targets_def dest: mget_in_set)
qed

lemma visit_targets_measure:
  assumes "visit_targets src ts visited queue = Some (visited', queue')"
    and "set ts \<subseteq> T" "finite T"
  shows "length queue' + 2 * card (T - set visited') \<le> length queue + 2 * card (T - set visited)"
  using assms
proof (induction ts arbitrary: visited queue)
  case Nil
  then show ?case by simp
next
  case (Cons t ts)
  show ?case
  proof (cases "t \<in> set visited")
    case True
    with Cons show ?thesis by (auto split: if_splits)
  next
    case False
    have "card (T - insert t (set visited)) < card (T - set visited)"
      using Cons.prems False by (intro psubset_card_mono) auto
    moreover have "length queue' + 2 * card (T - set visited') \<le>
        Suc (length queue) + 2 * card (T - insert t (set visited))"
      using Cons.IH [of "t # visited" "queue @ [t]"] Cons.prems False by (auto split: if_splits)
    ultimately show ?thesis by simp
  qed
qed

text \<open>\<open>causal_walk\<close> is the outer loop: true when the walk reaches \<open>src\<close>.\<close>

function causal_walk :: "graph_state \<Rightarrow> urn \<Rightarrow> urn list \<Rightarrow> urn list \<Rightarrow> bool" where
  "causal_walk state src visited [] = False"
| "causal_walk state src visited (cur # queue) =
     (case visit_targets src (causes_targets state cur) visited queue of
        None \<Rightarrow> True
      | Some (visited', queue') \<Rightarrow> causal_walk state src visited' queue')"
  by pat_completeness auto

termination
  by (relation "measure (\<lambda>(state, src, visited, queue).
        length queue + 2 * card (all_targets state - set visited))")
     (auto dest!: visit_targets_measure [OF _ causes_targets_all finite_all_targets])

definition ValidateCausalAcyclic :: "envelope \<Rightarrow> graph_state \<Rightarrow> operad_error option" where
  "ValidateCausalAcyclic env state =
     (if e_RewriteType env \<noteq> LINK then None
      else if e_RewriteCategory env \<noteq> WF21 then None
      else if e_SrcURN env = e_TgtURN env then Some (CausalSelfLink (e_SrcURN env))
      else if causal_walk state (e_SrcURN env) [e_TgtURN env] [e_TgtURN env]
      then Some (CausalCycle (e_SrcURN env) (e_TgtURN env))
      else None)"

lemma ValidateCausalAcyclic_other: "e_RewriteType env \<noteq> LINK \<Longrightarrow> ValidateCausalAcyclic env state = None"
  by (simp add: ValidateCausalAcyclic_def)

section \<open>The walk decides reachability\<close>

definition walk_edges :: "graph_state \<Rightarrow> (urn \<times> urn) set" where
  "walk_edges state = {(a, b). b \<in> set (causes_targets state a)}"

definition causes :: "graph_state \<Rightarrow> (urn \<times> urn) set" where
  "causes state =
     {(r_SrcURN r, r_TgtURN r) | r u. mget (Relations state) u = Some r \<and> is_causes r}"

lemma walk_edges_causes:
  assumes "indexed state"
  shows "walk_edges state = causes state"
proof -
  have ix: "set (index_look (RelationsBySrc state) a) =
      {u. \<exists>r. mget (Relations state) u = Some r \<and> r_SrcURN r = a}" for a
    using assms by (simp add: indexed_def indexes_def)
  have "b \<in> set (causes_targets state a) \<longleftrightarrow>
      (\<exists>u r. mget (Relations state) u = Some r \<and> r_SrcURN r = a \<and> is_causes r \<and> r_TgtURN r = b)" for a b
    unfolding in_causes_targets ix by (simp, metis option.inject)
  note mem = this
  show ?thesis
    by (rule set_eqI) (simp only: walk_edges_def causes_def mem split_paired_all mem_Collect_eq prod.case
        prod.inject, metis)
qed

lemma visit_targets_None: "visit_targets src ts visited queue = None \<longleftrightarrow> src \<in> set ts"
  by (induction ts arbitrary: visited queue) auto

lemma visit_targets_Some:
  "visit_targets src ts visited queue = Some (visited', queue') \<Longrightarrow>
   set visited' = set visited \<union> set ts \<and> set queue' = set queue \<union> (set ts - set visited) \<and> src \<notin> set ts"
  by (induction ts arbitrary: visited queue) (auto split: if_splits)

lemma closed_reach: "E `` V \<subseteq> V \<Longrightarrow> (a, b) \<in> E\<^sup>* \<Longrightarrow> a \<in> V \<Longrightarrow> b \<in> V"
  by (metis Image_closed_trancl ImageI)

lemma causal_walk_iff:
  assumes "set queue \<subseteq> set visited" "src \<notin> set visited"
    "\<forall>v\<in>set visited - set queue. walk_edges state `` {v} \<subseteq> set visited"
  shows "causal_walk state src visited queue \<longleftrightarrow> (\<exists>v\<in>set visited. (v, src) \<in> (walk_edges state)\<^sup>*)"
  using assms
proof (induction state src visited queue rule: causal_walk.induct)
  case (1 state src visited)
  then have "walk_edges state `` set visited \<subseteq> set visited" by auto
  with 1 show ?case using closed_reach by fastforce
next
  case (2 state src visited cur queue)
  let ?ts = "causes_targets state cur"
  show ?case
  proof (cases "visit_targets src ?ts visited queue")
    case None
    then have "(cur, src) \<in> walk_edges state" by (simp add: visit_targets_None walk_edges_def)
    with 2 None show ?thesis by auto
  next
    case (Some vq)
    obtain visited' queue' where vq: "vq = (visited', queue')" by force
    from visit_targets_Some [OF Some [unfolded vq]]
    have v': "set visited' = set visited \<union> set ?ts" "set queue' = set queue \<union> (set ?ts - set visited)"
      "src \<notin> set ?ts" by auto
    have cur: "walk_edges state `` {cur} = set ?ts" by (auto simp: walk_edges_def)
    have "\<forall>v\<in>set visited' - set queue'. walk_edges state `` {v} \<subseteq> set visited'"
    proof
      fix v assume "v \<in> set visited' - set queue'"
      then have "v = cur \<or> v \<in> set visited - set (cur # queue)" using v' by auto
      then show "walk_edges state `` {v} \<subseteq> set visited'"
        using 2 v' cur by (metis Un_iff subsetI subset_iff)
    qed
    then have "causal_walk state src visited' queue' \<longleftrightarrow>
        (\<exists>v\<in>set visited'. (v, src) \<in> (walk_edges state)\<^sup>*)"
    proof (intro "2.IH" [OF Some vq [symmetric]])
      show "set queue' \<subseteq> set visited'" "src \<notin> set visited'" using "2.prems" v' by auto
    qed
    also have "\<dots> \<longleftrightarrow> (\<exists>v\<in>set visited. (v, src) \<in> (walk_edges state)\<^sup>*)"
    proof -
      have "(t, src) \<in> (walk_edges state)\<^sup>* \<Longrightarrow> t \<in> set ?ts \<Longrightarrow> (cur, src) \<in> (walk_edges state)\<^sup>*" for t
        using cur by (auto intro: converse_rtrancl_into_rtrancl)
      then show ?thesis using 2 v' by auto
    qed
    finally show ?thesis using Some vq by simp
  qed
qed

lemma ValidateCausalAcyclic_None:
  assumes "indexed state" "e_RewriteType env = LINK" "e_RewriteCategory env = WF21"
  shows "ValidateCausalAcyclic env state = None \<longleftrightarrow>
    (e_TgtURN env, e_SrcURN env) \<notin> (causes state)\<^sup>*"
proof (cases "e_SrcURN env = e_TgtURN env")
  case True
  with assms show ?thesis by (simp add: ValidateCausalAcyclic_def)
next
  case False
  with causal_walk_iff [of "[e_TgtURN env]" "[e_TgtURN env]" "e_SrcURN env" state]
  have "causal_walk state (e_SrcURN env) [e_TgtURN env] [e_TgtURN env] \<longleftrightarrow>
      (e_TgtURN env, e_SrcURN env) \<in> (walk_edges state)\<^sup>*" by simp
  with False assms show ?thesis by (simp add: ValidateCausalAcyclic_def walk_edges_causes)
qed

section \<open>Acyclicity\<close>

lemma causes_put_fresh:
  "mget (Relations s) u = None \<Longrightarrow>
   causes (s\<lparr> Relations := mput u r (Relations s), RelationsBySrc := a, RelationsByTgt := b \<rparr>) =
   (if is_causes r then insert (r_SrcURN r, r_TgtURN r) (causes s) else causes s)"
  by (auto simp: causes_def split: if_splits) (metis option.distinct(1))+

lemma causes_del_subset:
  "causes (s\<lparr> Relations := mdel u (Relations s), RelationsBySrc := a, RelationsByTgt := b \<rparr>) \<subseteq> causes s"
  by (auto simp: causes_def split: if_splits)

lemma causes_nodes [simp]:
  "causes (s\<lparr> Nodes := n \<rparr>) = causes s" "causes (s\<lparr> NodesByType := x \<rparr>) = causes s"
  by (simp_all add: causes_def)

lemma causal_acyclic_step:
  assumes "indexed s" "acyclic (causes s)" "ValidateCausalAcyclic e s = None"
    and "EvaluateAt s e t = Inr (s', r)"
  shows "acyclic (causes s')"
  using assms(4)
proof (cases rule: EvaluateAt_cases)
  case 1
  with assms show ?thesis by (simp add: EvaluateAt_ADD_iff)
next
  case 2
  then have s': "causes s' = (if is_causes (new_relation e t)
      then insert (e_SrcURN e, e_TgtURN e) (causes s) else causes s)"
    using assms(4) by (auto simp: EvaluateAt_LINK_iff causes_put_fresh)
  show ?thesis
  proof (cases "is_causes (new_relation e t)")
    case True
    then have "e_RewriteCategory e = WF21" by (simp add: is_causes_def)
    then have "(e_TgtURN e, e_SrcURN e) \<notin> (causes s)\<^sup>*"
      using assms 2 ValidateCausalAcyclic_None [of s e] by simp
    with True s' assms(2) show ?thesis by (simp add: acyclic_insert)
  next
    case False
    with s' assms(2) show ?thesis by simp
  qed
next
  case 3
  with assms show ?thesis by (auto simp: EvaluateAt_MUTATE_iff)
next
  case 4
  then have "causes s' \<subseteq> causes s"
    using assms(4) by (auto simp: EvaluateAt_UNLINK_iff dest: subsetD [OF causes_del_subset])
  with assms(2) show ?thesis by (rule acyclic_subset)
qed

end
