(* ===== verification/Occupancy.thy ===== *)
theory Occupancy
  imports LinkGates
begin

text \<open>
  internal/operad/occupancy.go and session_context.go: who occupies a session, the admin chain,
  the rotation program, the session context of an envelope and the classifiers of system-internal
  and admin-scope rewrites. A Go pair (value, ok) is an option.
\<close>

definition superadminRoleURN :: urn where
  "superadminRoleURN = ''urn:moos:role:superadmin''"

definition hasOccupantSrcPort :: string where
  "hasOccupantSrcPort = ''has-occupant''"

definition isOccupantOfTgtPort :: string where
  "isOccupantOfTgtPort = ''is-occupant-of''"

definition principalTypes :: "type_id list" where
  "principalTypes = [''user'', ''agent'', ''group'']"

definition occupant_ports :: "relation \<Rightarrow> bool" where
  "occupant_ports rel \<longleftrightarrow> r_SrcPort rel = hasOccupantSrcPort \<and> r_TgtPort rel = isOccupantOfTgtPort"

section \<open>Occupants and the admin chain\<close>

fun first_occupant :: "graph_state \<Rightarrow> urn list \<Rightarrow> urn option" where
  "first_occupant state [] = None"
| "first_occupant state (relURN # rest) =
     (case mget (Relations state) relURN of
        None \<Rightarrow> first_occupant state rest
      | Some rel \<Rightarrow>
          if \<not> occupant_ports rel then first_occupant state rest
          else case mget (Nodes state) (r_TgtURN rel) of
            None \<Rightarrow> first_occupant state rest
          | Some tgt \<Rightarrow>
              if n_TypeID tgt \<notin> set principalTypes then first_occupant state rest
              else Some (r_TgtURN rel))"

definition ResolveSessionOccupant :: "graph_state \<Rightarrow> urn \<Rightarrow> urn option" where
  "ResolveSessionOccupant state sessionURN =
     (if sessionURN = '''' then None
      else case mget (Nodes state) sessionURN of
        None \<Rightarrow> None
      | Some sessionNode \<Rightarrow>
          if n_TypeID sessionNode \<noteq> ''session'' then None
          else first_occupant state (RelationsFrom state sessionURN))"

fun governs_superadmin :: "graph_state \<Rightarrow> urn list \<Rightarrow> bool" where
  "governs_superadmin state [] = False"
| "governs_superadmin state (relURN # rest) =
     (case mget (Relations state) relURN of
        None \<Rightarrow> governs_superadmin state rest
      | Some rel \<Rightarrow>
          if r_RewriteCategory rel \<noteq> WF02 then governs_superadmin state rest
          else if r_SrcPort rel \<noteq> ''governs'' \<or> r_TgtPort rel \<noteq> ''governed-by''
          then governs_superadmin state rest
          else if r_TgtURN rel = superadminRoleURN then True
          else governs_superadmin state rest)"

definition admin_principal :: "graph_state \<Rightarrow> urn \<Rightarrow> node \<Rightarrow> urn option" where
  "admin_principal state actor actorNode =
     (if n_TypeID actorNode = ''session'' then ResolveSessionOccupant state actor else Some actor)"

definition CheckAdminCapability :: "graph_state \<Rightarrow> urn \<Rightarrow> bool" where
  "CheckAdminCapability state actor =
     (if actor = '''' then False
      else case mget (Nodes state) actor of
        None \<Rightarrow> False
      | Some actorNode \<Rightarrow>
          if mget (Nodes state) superadminRoleURN = None then False
          else case admin_principal state actor actorNode of
            None \<Rightarrow> False
          | Some princ \<Rightarrow>
              (case mget (Nodes state) princ of
                 None \<Rightarrow> False
               | Some principalNode \<Rightarrow>
                   if n_TypeID principalNode \<notin> set principalTypes then False
                   else governs_superadmin state (RelationsFrom state princ)))"

section \<open>Rotation\<close>

record rotate_result =
  ro_Envelopes :: "envelope list"
  ro_PriorRelationURN :: urn
  ro_PriorOccupant :: urn

datatype rotate_error =
    EmptySession | EmptyOccupant | EmptyRelation | EmptyActor
  | SessionNotFound urn | NotASession urn type_id
  | OccupantNotFound urn | NotAPrincipal urn type_id
  | ManyOccupants urn nat | AlreadyOccupied urn urn | RelationURNTaken urn

fun gather_occupants ::
  "graph_state \<Rightarrow> urn list \<Rightarrow> nat \<Rightarrow> urn \<times> urn \<Rightarrow> nat \<times> (urn \<times> urn)" where
  "gather_occupants state [] n prior = (n, prior)"
| "gather_occupants state (relURN # rest) n prior =
     (case mget (Relations state) relURN of
        None \<Rightarrow> gather_occupants state rest n prior
      | Some rel \<Rightarrow>
          if \<not> occupant_ports rel then gather_occupants state rest n prior
          else if Suc n > 1 then (Suc n, prior)
          else gather_occupants state rest (Suc n) (r_URN rel, r_TgtURN rel))"

definition occupant_link :: "urn \<Rightarrow> urn \<Rightarrow> urn \<Rightarrow> urn \<Rightarrow> envelope" where
  "occupant_link actor newRelationURN sessionURN newOccupantURN =
     (zero_envelope LINK actor)\<lparr> e_RelationURN := newRelationURN, e_SrcURN := sessionURN,
        e_SrcPort := hasOccupantSrcPort, e_TgtURN := newOccupantURN,
        e_TgtPort := isOccupantOfTgtPort, e_RewriteCategory := WF19 \<rparr>"

definition occupant_unlink :: "urn \<Rightarrow> urn \<Rightarrow> envelope" where
  "occupant_unlink actor priorRelURN =
     (zero_envelope UNLINK actor)\<lparr> e_RelationURN := priorRelURN, e_RewriteCategory := WF19 \<rparr>"

definition RotateSessionOccupant ::
  "graph_state \<Rightarrow> urn \<Rightarrow> urn \<Rightarrow> urn \<Rightarrow> urn \<Rightarrow> rotate_error + rotate_result" where
  "RotateSessionOccupant state sessionURN newOccupantURN actor newRelationURN =
     (if sessionURN = '''' then Inl EmptySession
      else if newOccupantURN = '''' then Inl EmptyOccupant
      else if newRelationURN = '''' then Inl EmptyRelation
      else if actor = '''' then Inl EmptyActor
      else case mget (Nodes state) sessionURN of
        None \<Rightarrow> Inl (SessionNotFound sessionURN)
      | Some sessionNode \<Rightarrow>
          if n_TypeID sessionNode \<noteq> ''session'' then Inl (NotASession sessionURN (n_TypeID sessionNode))
          else case mget (Nodes state) newOccupantURN of
            None \<Rightarrow> Inl (OccupantNotFound newOccupantURN)
          | Some occNode \<Rightarrow>
              if n_TypeID occNode \<notin> set principalTypes
              then Inl (NotAPrincipal newOccupantURN (n_TypeID occNode))
              else
                (case gather_occupants state (RelationsFrom state sessionURN) 0 ('''', '''') of
                   (count, priorRelURN, priorOccupant) \<Rightarrow>
                     if count > 1 then Inl (ManyOccupants sessionURN count)
                     else if count = 1 \<and> priorOccupant = newOccupantURN
                     then Inl (AlreadyOccupied sessionURN newOccupantURN)
                     else if mget (Relations state) newRelationURN \<noteq> None
                     then Inl (RelationURNTaken newRelationURN)
                     else
                       let linkEnv = occupant_link actor newRelationURN sessionURN newOccupantURN
                       in if count = 0 then
                            Inr \<lparr> ro_Envelopes = [linkEnv], ro_PriorRelationURN = '''', ro_PriorOccupant = '''' \<rparr>
                          else
                            Inr \<lparr> ro_Envelopes = [occupant_unlink actor priorRelURN, linkEnv],
                                  ro_PriorRelationURN = priorRelURN, ro_PriorOccupant = priorOccupant \<rparr>))"

section \<open>The session of an envelope\<close>

datatype resolve_kind =
    ResolveSessionExplicit
  | ResolveSessionInferred
  | ResolveSessionActorIsSession
  | ResolveSessionExplicitMismatch
  | ResolveSessionAmbiguous
  | ResolveSessionAbsent

record resolve_result =
  rs_Kind :: resolve_kind
  rs_SessionURN :: urn
  rs_Candidates :: "urn list"

definition sessionHasAnyOccupant :: "graph_state \<Rightarrow> urn \<Rightarrow> bool" where
  "sessionHasAnyOccupant state sessionURN = (ResolveSessionOccupant state sessionURN \<noteq> None)"

fun has_target :: "graph_state \<Rightarrow> urn list \<Rightarrow> urn \<Rightarrow> bool" where
  "has_target state [] actor = False"
| "has_target state (relURN # rest) actor =
     (case mget (Relations state) relURN of
        None \<Rightarrow> has_target state rest actor
      | Some rel \<Rightarrow>
          if \<not> occupant_ports rel then has_target state rest actor
          else if r_TgtURN rel = actor then True
          else has_target state rest actor)"

definition sessionHasOccupantTarget :: "graph_state \<Rightarrow> urn \<Rightarrow> urn \<Rightarrow> bool" where
  "sessionHasOccupantTarget state sessionURN actor =
     has_target state (RelationsFrom state sessionURN) actor"

fun occupied_sessions :: "graph_state \<Rightarrow> urn list \<Rightarrow> urn list" where
  "occupied_sessions state [] = []"
| "occupied_sessions state (relURN # rest) =
     (case mget (Relations state) relURN of
        None \<Rightarrow> occupied_sessions state rest
      | Some rel \<Rightarrow>
          if \<not> occupant_ports rel then occupied_sessions state rest
          else case mget (Nodes state) (r_SrcURN rel) of
            None \<Rightarrow> occupied_sessions state rest
          | Some srcNode \<Rightarrow>
              if n_TypeID srcNode \<noteq> ''session'' then occupied_sessions state rest
              else r_SrcURN rel # occupied_sessions state rest)"

definition sessionsOccupyingActor :: "graph_state \<Rightarrow> urn \<Rightarrow> urn list" where
  "sessionsOccupyingActor state actor = occupied_sessions state (RelationsTo state actor)"

definition actor_is_session :: "graph_state \<Rightarrow> urn \<Rightarrow> bool" where
  "actor_is_session state u =
     (case mget (Nodes state) u of None \<Rightarrow> False | Some n \<Rightarrow> n_TypeID n = ''session'')"

definition ResolveSessionForEnvelope :: "graph_state \<Rightarrow> envelope \<Rightarrow> resolve_result" where
  "ResolveSessionForEnvelope state env =
     (if actor_is_session state (e_Actor env) then
        (if \<not> sessionHasAnyOccupant state (e_Actor env)
         then \<lparr> rs_Kind = ResolveSessionAbsent, rs_SessionURN = e_Actor env, rs_Candidates = [] \<rparr>
         else \<lparr> rs_Kind = ResolveSessionActorIsSession, rs_SessionURN = e_Actor env, rs_Candidates = [] \<rparr>)
      else if e_SessionURN env \<noteq> '''' then
        (if \<not> actor_is_session state (e_SessionURN env) \<or>
            \<not> sessionHasOccupantTarget state (e_SessionURN env) (e_Actor env)
         then \<lparr> rs_Kind = ResolveSessionExplicitMismatch, rs_SessionURN = e_SessionURN env,
                rs_Candidates = [] \<rparr>
         else \<lparr> rs_Kind = ResolveSessionExplicit, rs_SessionURN = e_SessionURN env,
                rs_Candidates = [] \<rparr>)
      else
        let candidates = sessionsOccupyingActor state (e_Actor env)
        in if length candidates = 0
           then \<lparr> rs_Kind = ResolveSessionAbsent, rs_SessionURN = '''', rs_Candidates = [] \<rparr>
           else if length candidates = 1
           then \<lparr> rs_Kind = ResolveSessionInferred, rs_SessionURN = candidates ! 0, rs_Candidates = [] \<rparr>
           else \<lparr> rs_Kind = ResolveSessionAmbiguous, rs_SessionURN = '''', rs_Candidates = candidates \<rparr>)"

section \<open>Classifiers\<close>

definition isKernelActor :: "urn \<Rightarrow> bool" where
  "isKernelActor actor =
     (let prefix = ''urn:moos:kernel:''
      in if length actor < length prefix then False else take (length prefix) actor = prefix)"

definition isInfrastructureType :: "type_id \<Rightarrow> bool" where
  "isInfrastructureType t = (t = ''user'' \<or> t = ''workstation'' \<or> t = ''kernel'')"

definition SystemInternalEnvelope :: "envelope \<Rightarrow> bool" where
  "SystemInternalEnvelope env =
     (if isKernelActor (e_Actor env) then True
      else if e_RewriteType env = ADD \<and> isInfrastructureType (e_TypeID env) then True
      else False)"

definition ontologyGovernedTypes :: "type_id list" where
  "ontologyGovernedTypes =
     [''system_instruction'', ''gate'', ''twin_link'', ''transport_binding'', ''kernel'']"

definition authorityScopeForField :: "registry \<Rightarrow> node \<Rightarrow> string \<Rightarrow> string option" where
  "authorityScopeForField r nd field =
     (case (case mget (NodeTypes r) (n_TypeID nd) of
              None \<Rightarrow> None | Some typeSpec \<Rightarrow> mget (nt_Properties typeSpec) field) of
        Some pspec \<Rightarrow> Some (ps_AuthorityScope pspec)
      | None \<Rightarrow>
          (case mget (n_Properties nd) field of
             Some prop \<Rightarrow> if p_AuthorityScope prop \<noteq> '''' then Some (p_AuthorityScope prop) else None
           | None \<Rightarrow> None))"

text \<open>The receiver may be a nil registry.\<close>

definition AdminScopeRewrite :: "registry option \<Rightarrow> envelope \<Rightarrow> graph_state \<Rightarrow> bool" where
  "AdminScopeRewrite reg env state =
     (case reg of
        None \<Rightarrow> False
      | Some r \<Rightarrow>
          if e_RewriteType env = ADD then e_TypeID env \<in> set ontologyGovernedTypes
          else if e_RewriteType env = MUTATE then
            (case mget (Nodes state) (e_TargetURN env) of
               None \<Rightarrow> True
             | Some nd \<Rightarrow>
                 if n_TypeID nd \<in> set ontologyGovernedTypes then True
                 else authorityScopeForField r nd (e_Field env) = Some ''kernel'')
          else False)"

section \<open>Searches along the relations of a node\<close>

text \<open>
  The Go loops over RelationsFrom share one contract: skip the URNs the relation map does not
  hold, return true on the first relation that satisfies a test. Under the state invariant such
  a search decides whether the node has an outgoing relation with the property.
\<close>

locale relation_search =
  fixes search :: "graph_state \<Rightarrow> urn list \<Rightarrow> bool"
    and hit :: "graph_state \<Rightarrow> relation \<Rightarrow> bool"
  assumes search_Nil: "\<not> search s []"
    and search_Cons: "search s (u # us) \<longleftrightarrow>
      (case mget (Relations s) u of None \<Rightarrow> search s us | Some r \<Rightarrow> hit s r \<or> search s us)"
begin

lemma search_iff: "search s us \<longleftrightarrow> (\<exists>u\<in>set us. \<exists>r. mget (Relations s) u = Some r \<and> hit s r)"
proof (induction us)
  case Nil
  then show ?case by (simp add: search_Nil)
next
  case (Cons u us)
  then show ?case by (cases "mget (Relations s) u") (simp_all add: search_Cons)
qed

lemma search_from:
  assumes "good_state s"
  shows "search s (RelationsFrom s a) \<longleftrightarrow>
    (\<exists>u r. mget (Relations s) u = Some r \<and> r_SrcURN r = a \<and> hit s r)"
  using assms set_RelationsFrom [of s a] unfolding good_state_def search_iff
  by (simp, metis option.inject)

end

definition principal_node :: "graph_state \<Rightarrow> urn \<Rightarrow> bool" where
  "principal_node s u \<longleftrightarrow> (\<exists>n. mget (Nodes s) u = Some n \<and> n_TypeID n \<in> set principalTypes)"

definition governs_rel :: "relation \<Rightarrow> bool" where
  "governs_rel r \<longleftrightarrow> r_RewriteCategory r = WF02 \<and> r_SrcPort r = ''governs'' \<and>
     r_TgtPort r = ''governed-by'' \<and> r_TgtURN r = superadminRoleURN"

interpretation admin_walk: relation_search governs_superadmin "\<lambda>s r. governs_rel r"
  by unfold_locales (auto simp: governs_rel_def split: option.splits)

interpretation target_walk: relation_search
  "\<lambda>s us. has_target s us a" "\<lambda>s r. occupant_ports r \<and> r_TgtURN r = a" for a
  by unfold_locales (auto split: option.splits)

interpretation occupant_walk: relation_search
  "\<lambda>s us. first_occupant s us \<noteq> None" "\<lambda>s r. occupant_ports r \<and> principal_node s (r_TgtURN r)"
  by unfold_locales (auto simp: principal_node_def split: option.splits)

lemma first_occupant_Some:
  "first_occupant s us = Some p \<Longrightarrow>
   \<exists>u\<in>set us. \<exists>r. mget (Relations s) u = Some r \<and> occupant_ports r \<and> r_TgtURN r = p \<and> principal_node s p"
  by (induction us) (auto simp: principal_node_def split: option.splits if_splits)

text \<open>The principals seated in a session, as the relations say it.\<close>

definition occupants :: "graph_state \<Rightarrow> urn \<Rightarrow> urn set" where
  "occupants s a =
     {r_TgtURN r | r u. mget (Relations s) u = Some r \<and> r_SrcURN r = a \<and> occupant_ports r}"

lemma occupants_iff: "p \<in> occupants s a \<longleftrightarrow>
    (\<exists>u r. mget (Relations s) u = Some r \<and> r_SrcURN r = a \<and> occupant_ports r \<and> r_TgtURN r = p)"
  unfolding occupants_def by blast

lemma ResolveSessionOccupant_Some:
  assumes "good_state s" "ResolveSessionOccupant s a = Some p"
  shows "p \<in> occupants s a \<and> principal_node s p \<and> actor_is_session s a"
proof -
  have "actor_is_session s a" and occ: "first_occupant s (RelationsFrom s a) = Some p"
    using assms(2) by (auto simp: ResolveSessionOccupant_def actor_is_session_def split: if_splits option.splits)
  moreover obtain u r where "u \<in> set (RelationsFrom s a)" "mget (Relations s) u = Some r"
    "occupant_ports r" "r_TgtURN r = p" "principal_node s p"
    using first_occupant_Some [OF occ] by blast
  ultimately show ?thesis
    using assms(1) set_RelationsFrom [of s a] by (auto simp: good_state_def occupants_iff)
qed

lemma ResolveSessionOccupant_None:
  assumes "good_state s" "actor_is_session s a"
  shows "ResolveSessionOccupant s a = None \<longleftrightarrow> (\<forall>p\<in>occupants s a. \<not> principal_node s p)"
proof -
  obtain n where n: "mget (Nodes s) a = Some n" "n_TypeID n = ''session''"
    using assms(2) by (auto simp: actor_is_session_def split: option.splits)
  with assms(1) have "a \<noteq> ''''" by (auto simp: good_state_def dest!: wf_state_node simp: wf_node_def)
  with n have "ResolveSessionOccupant s a = None \<longleftrightarrow> first_occupant s (RelationsFrom s a) = None"
    by (simp add: ResolveSessionOccupant_def)
  with occupant_walk.search_from [OF assms(1), of a] show ?thesis
    unfolding occupants_def by auto
qed

lemma sessionHasOccupantTarget_iff:
  "good_state s \<Longrightarrow> sessionHasOccupantTarget s a p \<longleftrightarrow> p \<in> occupants s a"
  by (simp add: sessionHasOccupantTarget_def target_walk.search_from occupants_iff)

lemma sessionHasAnyOccupant_iff:
  "good_state s \<Longrightarrow> actor_is_session s a \<Longrightarrow>
   sessionHasAnyOccupant s a \<longleftrightarrow> (\<exists>p\<in>occupants s a. principal_node s p)"
  by (simp add: sessionHasAnyOccupant_def ResolveSessionOccupant_None)

lemma set_occupied_sessions:
  "a \<in> set (occupied_sessions s us) \<longleftrightarrow>
   (\<exists>u\<in>set us. \<exists>r. mget (Relations s) u = Some r \<and> occupant_ports r \<and> r_SrcURN r = a \<and> actor_is_session s a)"
proof (induction us)
  case Nil
  then show ?case by simp
next
  case (Cons u us)
  then show ?case
    by (cases "mget (Relations s) u"; cases "mget (Nodes s) a") (auto simp: actor_is_session_def split: option.splits)
qed

lemma set_sessionsOccupyingActor:
  assumes "good_state s"
  shows "set (sessionsOccupyingActor s p) = {a. actor_is_session s a \<and> p \<in> occupants s a}"
proof -
  have "set (RelationsTo s p) = {k. \<exists>r. mget (Relations s) k = Some r \<and> r_TgtURN r = p}"
    using assms by (simp add: good_state_def set_RelationsTo)
  then show ?thesis
    unfolding sessionsOccupyingActor_def
    by (intro set_eqI) (simp add: set_occupied_sessions occupants_iff, metis option.inject)
qed

section \<open>The admin chain\<close>

definition governs :: "graph_state \<Rightarrow> urn \<Rightarrow> bool" where
  "governs s p \<longleftrightarrow> (\<exists>u r. mget (Relations s) u = Some r \<and> r_SrcURN r = p \<and> governs_rel r)"

lemma CheckAdminCapability_iff:
  assumes "good_state s"
  shows "CheckAdminCapability s actor \<longleftrightarrow>
    (\<exists>n p. mget (Nodes s) actor = Some n \<and> admin_principal s actor n = Some p \<and>
       principal_node s p \<and> governs s p)"
proof -
  have gov: "governs_superadmin s (RelationsFrom s p) \<longleftrightarrow> governs s p" for p
    using admin_walk.search_from [OF assms] by (simp add: governs_def)
  have role: "governs s p \<Longrightarrow> mget (Nodes s) superadminRoleURN \<noteq> None" for p
    using assms by (fastforce simp: good_state_def governs_def governs_rel_def wf_relation_def
        dest!: wf_state_relation)
  have ne: "mget (Nodes s) actor = Some n \<Longrightarrow> actor \<noteq> ''''" for n
    using assms by (auto simp: good_state_def wf_node_def dest!: wf_state_node)
  show ?thesis
    unfolding CheckAdminCapability_def principal_node_def
    by (cases "mget (Nodes s) actor"; cases "mget (Nodes s) superadminRoleURN")
       (auto simp: gov ne dest: role split: option.splits)
qed

section \<open>Rotation keeps one occupant\<close>

definition is_occupant_urn :: "graph_state \<Rightarrow> urn \<Rightarrow> bool" where
  "is_occupant_urn s u \<longleftrightarrow> (\<exists>r. mget (Relations s) u = Some r \<and> occupant_ports r)"

lemma gather_one: "gather_occupants s us (Suc 0) p =
    (if \<exists>u\<in>set us. is_occupant_urn s u then (2, p) else (1, p))"
  by (induction us) (auto simp: is_occupant_urn_def split: option.splits)

lemma gather_cases:
  assumes "gather_occupants s us 0 ('''', '''') = (n, ru, p)" "distinct us"
  shows "n = 0 \<and> {u \<in> set us. is_occupant_urn s u} = {} \<or>
    n = 1 \<and> (\<exists>u r. {u \<in> set us. is_occupant_urn s u} = {u} \<and> mget (Relations s) u = Some r \<and>
      ru = r_URN r \<and> p = r_TgtURN r) \<or>
    n = 2 \<and> (\<exists>u v. u \<in> set us \<and> v \<in> set us \<and> u \<noteq> v \<and> is_occupant_urn s u \<and> is_occupant_urn s v)"
  using assms
proof (induction us)
  case Nil
  then show ?case by simp
next
  case (Cons u us)
  show ?case
  proof (cases "is_occupant_urn s u")
    case False
    then have "gather_occupants s (u # us) 0 ('''', '''') = gather_occupants s us 0 ('''', '''')"
      by (auto simp: is_occupant_urn_def split: option.splits)
    moreover have "{x \<in> set (u # us). is_occupant_urn s x} = {x \<in> set us. is_occupant_urn s x}"
      using False by auto
    ultimately show ?thesis using Cons by fastforce
  next
    case True
    then obtain r where r: "mget (Relations s) u = Some r" "occupant_ports r"
      by (auto simp: is_occupant_urn_def)
    then have g: "gather_occupants s us (Suc 0) (r_URN r, r_TgtURN r) = (n, ru, p)"
      using Cons.prems by simp
    show ?thesis
    proof (cases "\<exists>v\<in>set us. is_occupant_urn s v")
      case True
      with g Cons.prems \<open>is_occupant_urn s u\<close> show ?thesis by (auto simp: gather_one)
    next
      case False
      then have "{x \<in> set (u # us). is_occupant_urn s x} = {u}" using \<open>is_occupant_urn s u\<close> by auto
      with False g r show ?thesis by (auto simp: gather_one)
    qed
  qed
qed

lemma occupants_mput:
  "mget (Relations s) u = None \<Longrightarrow>
   occupants (s\<lparr> Relations := mput u r (Relations s), RelationsBySrc := x, RelationsByTgt := y \<rparr>) a =
   (if r_SrcURN r = a \<and> occupant_ports r then insert (r_TgtURN r) (occupants s a) else occupants s a)"
  unfolding occupants_def by (auto split: if_splits) (metis option.distinct(1))+

lemma occupants_mdel:
  assumes "\<forall>v q. mget (Relations s) v = Some q \<and> occupant_ports q \<and> r_SrcURN q = r_SrcURN r \<longrightarrow> v = u"
    "mget (Relations s) u = Some r"
  shows "occupants (s\<lparr> Relations := mdel u (Relations s), RelationsBySrc := x, RelationsByTgt := y \<rparr>) a =
    (if a = r_SrcURN r then {} else occupants s a)"
  using assms unfolding occupants_def by (auto split: if_splits) (metis option.inject)+

lemma occupant_link_succeeds:
  assumes "mget (Nodes s) sess \<noteq> None" "mget (Nodes s) p \<noteq> None" "mget (Relations s) ru = None"
    and ne: "sess \<noteq> ''''" "p \<noteq> ''''" "ru \<noteq> ''''" "actor \<noteq> ''''"
  shows "\<exists>s' res. EvaluateAt s (occupant_link actor ru sess p) t = Inr (s', res) \<and> Nodes s' = Nodes s \<and>
    (\<forall>a. occupants s' a = (if a = sess then insert p (occupants s sess) else occupants s a))"
proof -
  let ?e = "occupant_link actor ru sess p"
  have rt: "e_RewriteType ?e = LINK" by (simp add: occupant_link_def)
  have op: "occupant_ports (new_relation ?e t)" by (simp add: occupant_ports_def occupant_link_def)
  show ?thesis
    unfolding EvaluateAt_LINK_iff [OF rt]
    using assms op occupants_mput [OF assms(3), where r = "new_relation ?e t"]
    by (auto simp: occupant_link_def)
qed

lemma occupant_unlink_succeeds:
  assumes "mget (Relations s) u = Some r" "u \<noteq> ''''" "actor \<noteq> ''''"
    and "\<forall>v q. mget (Relations s) v = Some q \<and> occupant_ports q \<and> r_SrcURN q = r_SrcURN r \<longrightarrow> v = u"
  shows "\<exists>s' res. EvaluateAt s (occupant_unlink actor u) t = Inr (s', res) \<and> Nodes s' = Nodes s \<and>
    Relations s' = mdel u (Relations s) \<and>
    (\<forall>a. occupants s' a = (if a = r_SrcURN r then {} else occupants s a))"
proof -
  let ?e = "occupant_unlink actor u"
  have rt: "e_RewriteType ?e = UNLINK" by (simp add: occupant_unlink_def)
  show ?thesis
    unfolding EvaluateAt_UNLINK_iff [OF rt]
    using assms occupants_mdel [OF assms(4,1)] by (auto simp: occupant_unlink_def)
qed

lemma RotateSessionOccupant_Inr:
  assumes "RotateSessionOccupant s sess p actor ru = Inr res"
  shows "sess \<noteq> ''''" "p \<noteq> ''''" "ru \<noteq> ''''" "actor \<noteq> ''''" "mget (Relations s) ru = None"
    "mget (Nodes s) sess \<noteq> None" "actor_is_session s sess" "principal_node s p"
    "\<exists>n pu pp. gather_occupants s (RelationsFrom s sess) 0 ('''', '''') = (n, pu, pp) \<and>
       (n = 0 \<and> ro_Envelopes res = [occupant_link actor ru sess p] \<or>
        n = 1 \<and> pp \<noteq> p \<and> ro_Envelopes res = [occupant_unlink actor pu, occupant_link actor ru sess p])"
proof -
  obtain n pu pp where g: "gather_occupants s (RelationsFrom s sess) 0 ('''', '''') = (n, pu, pp)"
    by (metis prod_cases3)
  show "sess \<noteq> ''''" "p \<noteq> ''''" "ru \<noteq> ''''" "actor \<noteq> ''''" "mget (Relations s) ru = None"
    "mget (Nodes s) sess \<noteq> None" "actor_is_session s sess" "principal_node s p"
    using assms unfolding RotateSessionOccupant_def g
    by (auto simp: actor_is_session_def principal_node_def Let_def split: if_splits option.splits)
  have "n = 0 \<and> ro_Envelopes res = [occupant_link actor ru sess p] \<or>
      n = 1 \<and> pp \<noteq> p \<and> ro_Envelopes res = [occupant_unlink actor pu, occupant_link actor ru sess p]"
    using assms unfolding RotateSessionOccupant_def g
    by (auto simp: Let_def split: if_splits option.splits)
  with g show "\<exists>n pu pp. gather_occupants s (RelationsFrom s sess) 0 ('''', '''') = (n, pu, pp) \<and>
       (n = 0 \<and> ro_Envelopes res = [occupant_link actor ru sess p] \<or>
        n = 1 \<and> pp \<noteq> p \<and> ro_Envelopes res = [occupant_unlink actor pu, occupant_link actor ru sess p])"
    by blast
qed

lemma occupant_urns_from:
  assumes "good_state s" "{u \<in> set (RelationsFrom s a). is_occupant_urn s u} = U"
    and "mget (Relations s) v = Some q" "occupant_ports q" "r_SrcURN q = a"
  shows "v \<in> U"
proof -
  have "v \<in> set (RelationsFrom s a)"
    using assms(1,3,5) set_RelationsFrom [of s a] by (simp add: good_state_def)
  with assms(2-4) show ?thesis by (auto simp: is_occupant_urn_def)
qed

lemma rotation_chain:
  assumes good: "good_state s" and rot: "RotateSessionOccupant s sess p actor ru = Inr res"
    and len: "length ts = length (ro_Envelopes res)"
  shows "\<exists>s' rs. eval_chain s (zip (ro_Envelopes res) ts) = Some (s', rs) \<and> Nodes s' = Nodes s \<and>
    (\<forall>a. occupants s' a = (if a = sess then {p} else occupants s a))"
proof -
  note R = RotateSessionOccupant_Inr [OF rot]
  have np: "mget (Nodes s) p \<noteq> None" using R(8) by (auto simp: principal_node_def)
  obtain n pu pp where g: "gather_occupants s (RelationsFrom s sess) 0 ('''', '''') = (n, pu, pp)"
    and env: "n = 0 \<and> ro_Envelopes res = [occupant_link actor ru sess p] \<or>
      n = 1 \<and> pp \<noteq> p \<and> ro_Envelopes res = [occupant_unlink actor pu, occupant_link actor ru sess p]"
    using R(9) by blast
  have dist: "distinct (RelationsFrom s sess)" using good by (simp add: good_state_def distinct_accessors)
  from env show ?thesis
  proof (elim disjE conjE)
    assume n: "n = 0" and e: "ro_Envelopes res = [occupant_link actor ru sess p]"
    have "{u \<in> set (RelationsFrom s sess). is_occupant_urn s u} = {}"
      using gather_cases [OF g dist] n by auto
    then have "occupants s sess = {}"
      using occupant_urns_from [OF good] by (fastforce simp: occupants_def)
    moreover obtain t where "ts = [t]" using len e by (auto simp: length_Suc_conv)
    ultimately show ?thesis
      using occupant_link_succeeds [OF R(6) np R(5,1,2,3,4), of t] e by fastforce
  next
    assume n: "n = 1" and e: "ro_Envelopes res = [occupant_unlink actor pu, occupant_link actor ru sess p]"
    obtain t t' where ts: "ts = [t, t']" using len e by (auto simp: length_Suc_conv)
    obtain u r where u: "{u \<in> set (RelationsFrom s sess). is_occupant_urn s u} = {u}"
      "mget (Relations s) u = Some r" "pu = r_URN r"
      using gather_cases [OF g dist] n by auto
    have wf: "r_URN r = u" "u \<noteq> ''''"
      using good wf_state_relation [OF _ u(2)] by (auto simp: good_state_def wf_relation_def)
    have "u \<in> set (RelationsFrom s sess)" using u(1) by blast
    then have src: "r_SrcURN r = sess"
      using u(2) good set_RelationsFrom [of s sess] by (simp add: good_state_def)
    have uniq: "\<forall>v q. mget (Relations s) v = Some q \<and> occupant_ports q \<and> r_SrcURN q = r_SrcURN r \<longrightarrow> v = u"
      using occupant_urns_from [OF good u(1)] src by auto
    obtain s1 r1 where s1: "EvaluateAt s (occupant_unlink actor u) t = Inr (s1, r1)" "Nodes s1 = Nodes s"
      "Relations s1 = mdel u (Relations s)" "\<forall>a. occupants s1 a = (if a = sess then {} else occupants s a)"
      using occupant_unlink_succeeds [OF u(2) wf(2) R(4) uniq, of t] src by auto
    have "mget (Relations s1) ru = None" using s1(3) R(5) by simp
    then obtain s2 r2 where s2: "EvaluateAt s1 (occupant_link actor ru sess p) t' = Inr (s2, r2)"
      "Nodes s2 = Nodes s1" "\<forall>a. occupants s2 a = (if a = sess then insert p (occupants s1 sess) else occupants s1 a)"
      using occupant_link_succeeds [of s1 sess p ru actor t'] R np s1(2) by auto
    show ?thesis using s1 s2 e ts u(3) wf(1) by auto
  qed
qed

end
