(* ===== verification/Liveness.thy ===== *)
theory Liveness
  imports Occupancy
begin

text \<open>
  internal/kernel/liveness.go: the session gate (M11) and the admin gate (M12) of the apply path,
  and the errors the runtime returns.
\<close>

datatype gate_error =
    GateNodeMissing urn
  | GateFailed urn string urn

datatype kernel_error =
    FoldErr fold_error
  | OperadErr operad_error
  | M11Mismatch urn urn
  | M11Ambiguous urn string
  | M11Absent urn
  | M12Denied urn
  | GateErr gate_error
  | PersistErr
  | ReadStoreErr
  | ReplayErr replay_error
  | ProgramErr program_error

definition renderURNList :: "urn list \<Rightarrow> string" where
  "renderURNList urns = (if urns = [] then ''[]'' else ''['' @ join '', '' urns @ '']'')"

definition checkLivenessM11 :: "registry option \<Rightarrow> envelope \<Rightarrow> graph_state \<Rightarrow> kernel_error option" where
  "checkLivenessM11 reg env state =
     (if reg = None then None
      else if SystemInternalEnvelope env then None
      else
        let res = ResolveSessionForEnvelope state env
        in (case rs_Kind res of
              ResolveSessionExplicit \<Rightarrow> None
            | ResolveSessionInferred \<Rightarrow> None
            | ResolveSessionActorIsSession \<Rightarrow> None
            | ResolveSessionExplicitMismatch \<Rightarrow> Some (M11Mismatch (rs_SessionURN res) (e_Actor env))
            | ResolveSessionAmbiguous \<Rightarrow> Some (M11Ambiguous (e_Actor env) (renderURNList (rs_Candidates res)))
            | ResolveSessionAbsent \<Rightarrow> Some (M11Absent (e_Actor env))))"

definition checkLivenessM12 :: "registry option \<Rightarrow> envelope \<Rightarrow> graph_state \<Rightarrow> kernel_error option" where
  "checkLivenessM12 reg env state =
     (if reg = None then None
      else if SystemInternalEnvelope env then None
      else if \<not> AdminScopeRewrite reg env state then None
      else if \<not> CheckAdminCapability state (e_Actor env) then Some (M12Denied (e_Actor env))
      else None)"

definition checkLiveness :: "registry option \<Rightarrow> envelope \<Rightarrow> graph_state \<Rightarrow> kernel_error option" where
  "checkLiveness reg env state =
     (case checkLivenessM11 reg env state of
        Some err \<Rightarrow> Some err
      | None \<Rightarrow> checkLivenessM12 reg env state)"

section \<open>What the gates admit\<close>

text \<open>The session an envelope runs under, when it is unique.\<close>

definition runs_under :: "graph_state \<Rightarrow> envelope \<Rightarrow> urn \<Rightarrow> bool" where
  "runs_under s env sess \<longleftrightarrow>
     actor_is_session s sess \<and>
     (if actor_is_session s (e_Actor env)
      then sess = e_Actor env \<and> (\<exists>p\<in>occupants s sess. principal_node s p)
      else e_Actor env \<in> occupants s sess \<and>
        (if e_SessionURN env \<noteq> '''' then sess = e_SessionURN env
         else \<forall>other. actor_is_session s other \<and> e_Actor env \<in> occupants s other \<longrightarrow> other = sess))"

definition resolved :: "resolve_result \<Rightarrow> bool" where
  "resolved res \<longleftrightarrow>
     rs_Kind res = ResolveSessionExplicit \<or> rs_Kind res = ResolveSessionInferred \<or>
     rs_Kind res = ResolveSessionActorIsSession"

lemma M11_None:
  "checkLivenessM11 reg env s = None \<longleftrightarrow>
   reg = None \<or> SystemInternalEnvelope env \<or> resolved (ResolveSessionForEnvelope s env)"
  by (cases "rs_Kind (ResolveSessionForEnvelope s env)")
     (auto simp: checkLivenessM11_def resolved_def Let_def)

text \<open>One relation per occupied session: an actor seated twice in one session is ambiguous.\<close>

lemma resolved_runs_under:
  assumes "good_state s" "resolved (ResolveSessionForEnvelope s env)"
  shows "runs_under s env (rs_SessionURN (ResolveSessionForEnvelope s env))"
proof -
  let ?c = "sessionsOccupyingActor s (e_Actor env)"
  have c: "set ?c = {a. actor_is_session s a \<and> e_Actor env \<in> occupants s a}"
    by (rule set_sessionsOccupyingActor [OF assms(1)])
  consider (self) "actor_is_session s (e_Actor env)"
    | (explicit) "\<not> actor_is_session s (e_Actor env)" "e_SessionURN env \<noteq> ''''"
    | (inferred) "\<not> actor_is_session s (e_Actor env)" "e_SessionURN env = ''''" by blast
  then show ?thesis
  proof cases
    case self
    then show ?thesis
      using assms by (auto simp: ResolveSessionForEnvelope_def resolved_def runs_under_def
          sessionHasAnyOccupant_iff split: if_splits)
  next
    case explicit
    then show ?thesis
      using assms by (auto simp: ResolveSessionForEnvelope_def resolved_def runs_under_def
          sessionHasOccupantTarget_iff split: if_splits)
  next
    case inferred
    have "length ?c = 1"
      using assms(2) inferred
      by (auto simp: ResolveSessionForEnvelope_def resolved_def Let_def split: if_splits)
    then obtain a where a: "?c = [a]" by (auto simp: length_Suc_conv)
    then have "{x. actor_is_session s x \<and> e_Actor env \<in> occupants s x} = {a}" using c by simp
    then show ?thesis
      using inferred a by (auto simp: ResolveSessionForEnvelope_def Let_def runs_under_def)
  qed
qed

lemma M12_None:
  "checkLivenessM12 (Some r) env s = None \<longleftrightarrow>
   SystemInternalEnvelope env \<or> \<not> AdminScopeRewrite (Some r) env s \<or> CheckAdminCapability s (e_Actor env)"
  by (simp add: checkLivenessM12_def)

lemma checkLiveness_None:
  "checkLiveness reg env s = None \<longleftrightarrow>
   checkLivenessM11 reg env s = None \<and> checkLivenessM12 reg env s = None"
  by (simp add: checkLiveness_def split: option.splits)

end
