(* ===== verification/OperadProperties.thy ===== *)
theory OperadProperties
  imports Liveness Examples
begin

text \<open>
  The properties of internal/operad and internal/kernel/liveness.go: what the typed validators
  admit, the causal gate, the seats of sessions, their rotation, and the session and admin gates.
\<close>

section \<open>A small registry for the witnesses\<close>

definition ex_spec :: "string \<Rightarrow> string \<Rightarrow> property_spec" where
  "ex_spec mut scope = \<lparr> ps_Mutability = mut, ps_AuthorityScope = scope, ps_Type = ''string'', ps_Values = [],
     ps_Note = '''' \<rparr>"

definition ex_type :: "type_id \<Rightarrow> string \<Rightarrow> (string \<times> property_spec) list \<Rightarrow> node_type_spec" where
  "ex_type t st ps = \<lparr> nt_ID = t, nt_Stratum = st, nt_URNPattern = '''',
     nt_Ports = \<lparr> po_Out = None, po_In = None, po_Self = None \<rparr>, nt_Properties = ps \<rparr>"

definition ex_wf :: "rewrite_category \<Rightarrow> rewrite_type list \<Rightarrow> string \<Rightarrow> string \<Rightarrow> wf_spec" where
  "ex_wf w rs sp tp = \<lparr> wf_ID = w, wf_Name = '''', wf_AllowedRewrites = rs, wf_SrcTypes = [], wf_TgtTypes = [],
     wf_SrcPort = sp, wf_TgtPort = tp, wf_AdditionalPortPairs = [], wf_Authority = '''', wf_MutateScope = [],
     wf_SyncMode = '''' \<rparr>"

definition ex_registry :: registry where
  "ex_registry = EmptyRegistry\<lparr>
     NodeTypes := [(''task'', ex_type ''task'' ''S2'' [(''title'', ex_spec ''mutable'' ''owner''),
                      (''owner'', ex_spec ''immutable'' '''')]),
                   (''gate'', ex_type ''gate'' ''S2'' []), (''claim'', ex_type ''claim'' ''S4'' [])],
     RewriteCategories := [(''WF19'', ex_wf ''WF19'' [LINK, MUTATE, UNLINK] ''has-occupant'' ''is-occupant-of''),
       (''WF21'', ex_wf ''WF21'' [LINK, UNLINK] ''causes'' ''caused-by'')] \<rparr>"

section \<open>The typed validators\<close>

lemma colors_ok_iff:
  "colors_ok r w a b \<longleftrightarrow>
   (if pairsDeclared w then port_color_of r a \<noteq> None \<and> port_color_of r a = port_color_of r b
    else port_color_of r a = None \<or> port_color_of r b = None \<or> port_color_of r a = port_color_of r b)"
  by (cases "port_color_of r a"; cases "port_color_of r b") (auto simp: colors_ok_def)

text \<open>C26: a LINK passes the registry exactly when its rewrite category is known and allows LINK,
  a WF15 relation names its contract, and, when the category declares port pairs, the pair is one
  of them and both ports have the same nonempty color; a category without declared pairs only
  rejects two known and different colors.\<close>

theorem ValidateLINK_exact:
  "ValidateLINK r env = None \<longleftrightarrow>
   (\<exists>w. mget (RewriteCategories r) (e_RewriteCategory env) = Some w \<and> LINK \<in> set (wf_AllowedRewrites w) \<and>
      \<not> (e_RewriteCategory env = WF15 \<and> e_ContractURN env = '''') \<and>
      (if pairsDeclared w
       then (e_SrcPort env, e_TgtPort env) \<in> declared_pairs w \<and>
         port_color_of r (e_SrcPort env) \<noteq> None \<and> port_color_of r (e_SrcPort env) = port_color_of r (e_TgtPort env)
       else port_color_of r (e_SrcPort env) = None \<or> port_color_of r (e_TgtPort env) = None \<or>
         port_color_of r (e_SrcPort env) = port_color_of r (e_TgtPort env)))"
  unfolding ValidateLINK_None link_admitted_def colors_ok_iff if_bool_eq_conj by meson

text \<open>An ADD that passes the registry and the fold creates a node of the declared type that
  carries every property the type declares immutable.\<close>

theorem ADD_complete:
  assumes "e_RewriteType env = ADD" "ValidateADD r env = None" "EvaluateAt s env t = Inr (s', res)"
    and "mget (NodeTypes r) (e_TypeID env) = Some spec" "(name, p) \<in> set (nt_Properties spec)"
    and "ps_Mutability p = ''immutable''"
  shows "\<exists>n. mget (Nodes s') (e_NodeURN env) = Some n \<and> n_TypeID n = e_TypeID env \<and> n_Version n = 1 \<and>
    mget (n_Properties n) name \<noteq> None"
proof -
  have "mget (e_Properties env) name \<noteq> None"
    using assms(2,4-6) unfolding ValidateADD_None by auto
  with assms(3) show ?thesis
    by (auto simp: EvaluateAt_ADD_iff [OF assms(1)] mget_copy_into_dom [unfolded not_None_eq])
qed

theorem ADD_complete_witness:
  "\<exists>s' res n. EvaluateAt NewGraphState (ex_add ''n'' ''task'' [(''owner'', ex_prop (VStr ''me'') ''immutable'')]) 1 =
     Inr (s', res) \<and> mget (Nodes s') ''n'' = Some n \<and> mget (n_Properties n) ''owner'' \<noteq> None"
proof -
  let ?e = "ex_add ''n'' ''task'' [(''owner'', ex_prop (VStr ''me'') ''immutable'')]"
  have "ValidateADD ex_registry ?e = None"
    by (simp add: ValidateADD_def ex_registry_def ex_type_def ex_spec_def)
  moreover obtain s' res where s': "EvaluateAt NewGraphState ?e 1 = Inr (s', res)"
    by (auto simp: EvaluateAt_ADD_iff NewGraphState_def)
  ultimately show ?thesis
    using ADD_complete [of ?e ex_registry NewGraphState 1 s' res "ex_type ''task'' ''S2''
        [(''title'', ex_spec ''mutable'' ''owner''), (''owner'', ex_spec ''immutable'' '''')]" "''owner''" "ex_spec ''immutable'' ''''"]
    by (auto simp: ex_registry_def ex_type_def ex_spec_def)
qed

text \<open>No MUTATE that passes the registry writes a field the node's type declares immutable, and
  a field of scope owner is written only by the actor the node names as its owner.\<close>

theorem MUTATE_respects_spec:
  assumes "ValidateMUTATE r env nd = None" "field_spec r nd (e_Field env) = Some p"
  shows "ps_Mutability p \<noteq> ''immutable'' \<and>
    (\<forall>q o_urn. ps_AuthorityScope p = ''owner'' \<and> mget (n_Properties nd) ''owner_urn'' = Some q \<and>
       as_string (p_Value q) = Some o_urn \<longrightarrow> o_urn = e_Actor env)"
  using ValidateMUTATE_not_immutable [OF assms] by (auto simp: checkAuthority_None)

theorem MUTATE_respects_spec_witness:
  "\<exists>p. field_spec ex_registry (new_node (ex_add ''n'' ''task'' []) 1) ''title'' = Some p \<and>
     ps_Mutability p \<noteq> ''immutable''"
  using MUTATE_respects_spec [of ex_registry "ex_mutate ''n'' ''title'' (VStr ''x'') 0" "new_node (ex_add ''n'' ''task'' []) 1"]
  by (simp add: ValidateMUTATE_def checkAuthority_def err_seq_def field_spec_def ex_registry_def ex_type_def ex_spec_def copy_into_def)

text \<open>A LINK between nodes of known types that passes the strata gate never leads from stratum S4
  to a stratum below S3.\<close>

theorem strata_filtration:
  assumes "ValidateStrataLink r env s = None"
    and "mget (Nodes s) (e_SrcURN env) = Some a" "mget (NodeTypes r) (n_TypeID a) = Some sa"
    and "mget (Nodes s) (e_TgtURN env) = Some b" "mget (NodeTypes r) (n_TypeID b) = Some sb"
    and "ParseStratum (nt_Stratum sa) = Inr S4" "ParseStratum (nt_Stratum sb) = Inr st"
  shows "S3 \<le> st"
  using assms by (auto simp: ValidateStrataLink_def s4_violation_def not_less split: if_splits)

text \<open>Two nodes, of types on stratum S4 and S2.\<close>

definition ex_strata :: graph_state where
  "ex_strata = ex_run [ex_add ''c'' ''claim'' [], ex_add ''d'' ''claim'' [], ex_add ''t'' ''task'' []]"

lemma ex_strata_types:
  "map_option n_TypeID (mget (Nodes ex_strata) ''c'') = Some ''claim''"
  "map_option n_TypeID (mget (Nodes ex_strata) ''d'') = Some ''claim''"
  by code_simp+

theorem strata_filtration_witness:
  "\<exists>st. ParseStratum ''S4'' = Inr st \<and> S3 \<le> st \<and>
     ValidateStrataLink ex_registry (ex_link ''l'' ''WF21'' ''c'' ''causes'' ''d'' ''caused-by'') ex_strata = None"
proof -
  let ?e = "ex_link ''l'' ''WF21'' ''c'' ''causes'' ''d'' ''caused-by''"
  obtain a b where n: "mget (Nodes ex_strata) ''c'' = Some a" "mget (Nodes ex_strata) ''d'' = Some b"
    "n_TypeID a = ''claim''" "n_TypeID b = ''claim''"
    using ex_strata_types by auto
  have v: "ValidateStrataLink ex_registry ?e ex_strata = None"
    by (simp add: ValidateStrataLink_def n ex_registry_def ex_type_def ex_wf_def s4_violation_def ParseStratum_def
        less_stratum_def matchingAdditionalPair_def)
  from strata_filtration [OF v] n v show ?thesis
    by (simp add: ex_registry_def ex_type_def ParseStratum_def)
qed

section \<open>Causality\<close>

text \<open>C12: the breadth-first causal gate is exact: a WF21 link passes it if and only if its source
  cannot be reached from its target along the existing causes edges. The walk always ends.\<close>

theorem causal_gate_exact:
  assumes "indexed s" "e_RewriteType env = LINK" "e_RewriteCategory env = WF21"
  shows "ValidateCausalAcyclic env s = None \<longleftrightarrow> (e_TgtURN env, e_SrcURN env) \<notin> (causes s)\<^sup>*"
  by (rule ValidateCausalAcyclic_None [OF assms])

theorem causal_gate_exact_witness:
  "ValidateCausalAcyclic (ex_link ''q'' WF21 ''b'' ''causes'' ''a'' ''caused-by'') ex_ab \<noteq> None"
proof -
  obtain r where r: "mget (Relations ex_ab) ''r'' = Some r" "r_SrcURN r = ''a''" "r_TgtURN r = ''b''" "is_causes r"
  proof -
    have "map_option (\<lambda>r. (r_SrcURN r, r_TgtURN r, is_causes r)) (mget (Relations ex_ab) ''r'') = Some (''a'', ''b'', True)"
      by code_simp
    then show thesis using that by auto
  qed
  then have "(''a'', ''b'') \<in> causes ex_ab" unfolding causes_def by force
  moreover have "indexed ex_ab" using good_state_ex_ab by (simp add: good_state_def)
  ultimately show ?thesis
    using causal_gate_exact [of ex_ab "ex_link ''q'' WF21 ''b'' ''causes'' ''a'' ''caused-by''"] by auto
qed

section \<open>Seats\<close>

lemma ex_office_facts:
  "map_option n_TypeID (mget (Nodes ex_office) ''s'') = Some ''session''"
  "map_option n_TypeID (mget (Nodes ex_office) ''u'') = Some ''user''"
  "map_option n_TypeID (mget (Nodes ex_office) ''w'') = Some ''user''"
  "mget (Nodes ex_office) superadminRoleURN \<noteq> None"
  "map_option (\<lambda>r. (r_SrcURN r, r_TgtURN r, occupant_ports r)) (mget (Relations ex_office) ''occ'') =
    Some (''s'', ''u'', True)"
  "map_option (\<lambda>r. (r_SrcURN r, governs_rel r)) (mget (Relations ex_office) ''gov'') = Some (''u'', True)"
  by code_simp+

lemma ex_office_seat: "''u'' \<in> occupants ex_office ''s''" "principal_node ex_office ''u''"
  "actor_is_session ex_office ''s''"
  using ex_office_facts by (force simp: occupants_def principal_node_def principalTypes_def actor_is_session_def)+

text \<open>The occupant a session resolves to is a principal (a user, an agent or a group) seated in
  that session; it resolves to none exactly when no principal is seated there.\<close>

theorem occupant_resolution:
  assumes "good_state s" "actor_is_session s a"
  shows "(\<forall>p. ResolveSessionOccupant s a = Some p \<longrightarrow> p \<in> occupants s a \<and> principal_node s p) \<and>
    (ResolveSessionOccupant s a = None \<longleftrightarrow> (\<forall>p\<in>occupants s a. \<not> principal_node s p))"
  using ResolveSessionOccupant_Some [OF assms(1)] ResolveSessionOccupant_None [OF assms] by blast

theorem occupant_resolution_witness:
  "\<exists>p. ResolveSessionOccupant ex_office ''s'' = Some p \<and> p \<in> occupants ex_office ''s''"
  using occupant_resolution [OF good_state_ex_office ex_office_seat(3)] ex_office_seat(1,2) by blast

text \<open>A rotation that is granted evaluates, at any timestamps, to a state with the same nodes in
  which the new principal is the session's only occupant and no other session has changed hands.\<close>

theorem rotation_seats_one:
  assumes "good_state s" "RotateSessionOccupant s sess p actor ru = Inr res"
    and "length ts = length (ro_Envelopes res)"
  shows "\<exists>s' rs. eval_chain s (zip (ro_Envelopes res) ts) = Some (s', rs) \<and> Nodes s' = Nodes s \<and>
    (\<forall>a. occupants s' a = (if a = sess then {p} else occupants s a))"
  by (rule rotation_chain [OF assms])

theorem rotation_seats_one_witness:
  "\<exists>res s' rs. RotateSessionOccupant ex_office ''s'' ''w'' ''k'' ''n'' = Inr res \<and>
     eval_chain ex_office (zip (ro_Envelopes res) [7, 8]) = Some (s', rs) \<and> occupants s' ''s'' = {''w''}"
proof -
  have ok: "case RotateSessionOccupant ex_office ''s'' ''w'' ''k'' ''n'' of
      Inl _ \<Rightarrow> False | Inr res \<Rightarrow> length (ro_Envelopes res) = 2"
    by code_simp
  then obtain res where res: "RotateSessionOccupant ex_office ''s'' ''w'' ''k'' ''n'' = Inr res"
    "length (ro_Envelopes res) = 2"
    by (auto split: sum.splits)
  from rotation_seats_one [OF good_state_ex_office res(1), of "[7, 8]"] res show ?thesis by fastforce
qed



section \<open>The liveness gates\<close>

text \<open>With an ontology loaded, an envelope that passes the session gate is system-internal or
  runs under one session: its actor's own, which a principal occupies, or one in which its actor
  is seated, which is the one the envelope names or the only one that seats the actor.\<close>

theorem M11_admits_one_session:
  assumes "good_state s" "checkLivenessM11 (Some reg) env s = None"
  shows "SystemInternalEnvelope env \<or> runs_under s env (rs_SessionURN (ResolveSessionForEnvelope s env))"
  using assms resolved_runs_under by (auto simp: M11_None)

theorem M11_admits_one_session_witness:
  "\<not> SystemInternalEnvelope (ex_mutate ''u'' ''f'' VNil 0\<lparr> e_Actor := ''u'' \<rparr>) \<and>
   runs_under ex_office (ex_mutate ''u'' ''f'' VNil 0\<lparr> e_Actor := ''u'' \<rparr>) ''s''"
proof -
  let ?e = "ex_mutate ''u'' ''f'' VNil 0\<lparr> e_Actor := ''u'' \<rparr>"
  have "checkLivenessM11 (Some ex_registry) ?e ex_office = None \<and> \<not> SystemInternalEnvelope ?e \<and>
      rs_SessionURN (ResolveSessionForEnvelope ex_office ?e) = ''s''"
    by code_simp
  then show ?thesis using M11_admits_one_session [OF good_state_ex_office, of ex_registry ?e] by auto
qed

text \<open>With an ontology loaded, an admin-scope rewrite that passes both liveness gates and is not
  system-internal comes from an actor whose principal governs the superadmin role.\<close>

theorem M12_admin_only:
  assumes "good_state s" "checkLiveness (Some reg) env s = None"
    and "\<not> SystemInternalEnvelope env" "AdminScopeRewrite (Some reg) env s"
  shows "\<exists>p. (p = e_Actor env \<or> ResolveSessionOccupant s (e_Actor env) = Some p) \<and>
    principal_node s p \<and> governs s p"
proof -
  have "CheckAdminCapability s (e_Actor env)"
    using assms(2-4) by (simp add: checkLiveness_None M12_None)
  then show ?thesis unfolding CheckAdminCapability_iff [OF assms(1)]
    by (auto simp: admin_principal_def split: if_splits)
qed

theorem M12_admin_only_witness:
  "\<exists>p. (p = ''u'' \<or> ResolveSessionOccupant ex_office ''u'' = Some p) \<and> principal_node ex_office p \<and>
     governs ex_office p"
proof -
  let ?e = "ex_add ''g'' ''gate'' []\<lparr> e_Actor := ''u'' \<rparr>"
  have "checkLiveness (Some ex_registry) ?e ex_office = None \<and> \<not> SystemInternalEnvelope ?e \<and>
      AdminScopeRewrite (Some ex_registry) ?e ex_office"
    by code_simp
  then show ?thesis using M12_admin_only [OF good_state_ex_office, of ex_registry ?e] by auto
qed

end
