(* ===== verification/HookPredicate.thy ===== *)
theory HookPredicate
  imports Occupancy
begin

text \<open>
  internal/reactive/predicate.go: the evaluator of t_hook predicates, with fmt's %v rendering of
  property values, which is how it compares them. Predicates are nested objects, so the evaluator
  recurses on the size of the predicate.
\<close>

section \<open>fmt's %v\<close>

text \<open>
  strconv's %g with the shortest precision: digits d with the decimal point after position dp;
  %e when the exponent dp - 1 is below -4 or at least 6, else %f.
\<close>

definition fmt_exp :: "int \<Rightarrow> string" where
  "fmt_exp x = (if x < 0 then ''e-'' else ''e+'') @
     (let d = string_of_nat (nat \<bar>x\<bar>) in if length d < 2 then CHR ''0'' # d else d)"

definition fmt_e :: "string \<Rightarrow> int \<Rightarrow> string" where
  "fmt_e ds dp = take 1 ds @ (if length ds > 1 then CHR ''.'' # drop 1 ds else []) @ fmt_exp (dp - 1)"

definition fmt_f :: "string \<Rightarrow> int \<Rightarrow> string" where
  "fmt_f ds dp =
     (if dp \<le> 0 then ''0.'' @ replicate (nat (- dp)) (CHR ''0'') @ ds
      else if nat dp \<ge> length ds then ds @ replicate (nat dp - length ds) (CHR ''0'')
      else take (nat dp) ds @ CHR ''.'' # drop (nat dp) ds)"

definition fmt_g :: "int \<Rightarrow> int \<Rightarrow> string" where
  "fmt_g m e =
     (if m = 0 then ''0''
      else let ds = string_of_nat (nat \<bar>m\<bar>); dp = int (length ds) + e
           in (if m < 0 then ''-'' else '''') @
              (if dp - 1 < - 4 \<or> dp - 1 \<ge> 6 then fmt_e ds dp else fmt_f ds dp))"

fun sep_by :: "string \<Rightarrow> string list \<Rightarrow> string" where
  "sep_by sep [] = ''''"
| "sep_by sep [s] = s"
| "sep_by sep (s # ss) = s @ sep @ sep_by sep ss"

text \<open>fmt prints a map with its keys sorted.\<close>

fun fmt_v :: "val \<Rightarrow> string" where
  "fmt_v VNil = ''<nil>''"
| "fmt_v (VBool b) = (if b then ''true'' else ''false'')"
| "fmt_v (VStr s) = s"
| "fmt_v (VInt i) = string_of_int i"
| "fmt_v (VFloat m e) = fmt_g m e"
| "fmt_v (VArr vs) = ''['' @ sep_by '' '' (map fmt_v vs) @ '']''"
| "fmt_v (VObj kvs) =
     ''map['' @ sep_by '' '' (map (\<lambda>(k, s). k @ '':'' @ s)
        (sort_key fst (map (\<lambda>(k, v). (k, fmt_v v)) kvs))) @ '']''"

definition propValueEquals :: "val \<Rightarrow> val \<Rightarrow> bool" where
  "propValueEquals actual expected = (fmt_v actual = fmt_v expected)"

section \<open>Numbers\<close>

text \<open>
  Go's conversion of a float64 to int truncates towards zero; out of range its result depends on
  the implementation, and is the least int64 on amd64.
\<close>

definition trunc_decimal :: "int \<Rightarrow> int \<Rightarrow> int" where
  "trunc_decimal m e =
     (if e \<ge> 0 then m * 10 ^ nat e else sgn m * (\<bar>m\<bar> div 10 ^ nat (- e)))"

definition float_to_int :: "int \<Rightarrow> int \<Rightarrow> int" where
  "float_to_int m e =
     (let x = trunc_decimal m e in if - (2 ^ 63) \<le> x \<and> x < 2 ^ 63 then x else - (2 ^ 63))"

fun coerceInt :: "val \<Rightarrow> int option" where
  "coerceInt (VInt i) = Some i"
| "coerceInt (VFloat m e) = Some (float_to_int m e)"
| "coerceInt _ = None"

section \<open>The evaluator\<close>

text \<open>The field read \<^verbatim>\<open>p[k].(string)\<close>: a missing key reads as nil.\<close>

definition str_field :: "(string \<times> val) list \<Rightarrow> string \<Rightarrow> string option" where
  "str_field p k = (case mget p k of None \<Rightarrow> None | Some v \<Rightarrow> as_string v)"

fun extract_objects :: "val list \<Rightarrow> (string \<times> val) list list option" where
  "extract_objects [] = Some []"
| "extract_objects (VObj m # rest) = map_option (Cons m) (extract_objects rest)"
| "extract_objects (_ # rest) = None"

definition extractPredicates :: "(string \<times> val) list \<Rightarrow> (string \<times> val) list list option" where
  "extractPredicates p =
     (case mget p ''predicates'' of
        Some (VArr arr) \<Rightarrow> extract_objects arr
      | _ \<Rightarrow> None)"

definition threshold_holds :: "(string \<times> val) list \<Rightarrow> int \<Rightarrow> bool" where
  "threshold_holds p currentT =
     (case mget p ''t'' of
        None \<Rightarrow> False
      | Some tRaw \<Rightarrow> (case coerceInt tRaw of None \<Rightarrow> False | Some t \<Rightarrow> currentT \<ge> t))"

definition window_holds :: "(string \<times> val) list \<Rightarrow> int \<Rightarrow> bool" where
  "window_holds p currentT =
     (case (mget p ''opens_at'', mget p ''closes_at'') of
        (Some oRaw, Some cRaw) \<Rightarrow>
          (case (coerceInt oRaw, coerceInt cRaw) of
             (Some opensAt, Some closesAt) \<Rightarrow>
               if opensAt > closesAt then False else currentT \<ge> opensAt \<and> currentT < closesAt
           | _ \<Rightarrow> False)
      | _ \<Rightarrow> False)"

definition on_prop_set_holds :: "(string \<times> val) list \<Rightarrow> graph_state \<Rightarrow> bool" where
  "on_prop_set_holds p state =
     (case (str_field p ''urn'', str_field p ''prop'') of
        (Some u, Some prop) \<Rightarrow>
          if u = '''' \<or> prop = '''' then False
          else (case mget (Nodes state) u of
                  None \<Rightarrow> False
                | Some nd \<Rightarrow>
                    let present = (mget (n_Properties nd) prop \<noteq> None);
                        expected = (case str_field p ''expected'' of Some s \<Rightarrow> s | None \<Rightarrow> '''')
                    in if expected = '''' \<or> expected = ''set'' then present
                       else if expected = ''unset'' then \<not> present
                       else False)
      | _ \<Rightarrow> False)"

fun seated :: "graph_state \<Rightarrow> urn list \<Rightarrow> urn" where
  "seated state [] = ''''"
| "seated state (relURN # rest) =
     (case mget (Relations state) relURN of
        None \<Rightarrow> seated state rest
      | Some rel \<Rightarrow>
          if \<not> occupant_ports rel then seated state rest
          else if mget (Nodes state) (r_TgtURN rel) = None then seated state rest
          else r_TgtURN rel)"

fun governs_target :: "graph_state \<Rightarrow> urn list \<Rightarrow> urn \<Rightarrow> urn \<Rightarrow> bool" where
  "governs_target state [] occupant target = False"
| "governs_target state (relURN # rest) occupant target =
     (case mget (Relations state) relURN of
        None \<Rightarrow> governs_target state rest occupant target
      | Some rel \<Rightarrow>
          if r_SrcURN rel = occupant \<and> r_SrcPort rel = ''governs'' \<and> r_TgtURN rel = target then True
          else governs_target state rest occupant target)"

definition when_capability_holds :: "(string \<times> val) list \<Rightarrow> graph_state \<Rightarrow> urn \<Rightarrow> bool" where
  "when_capability_holds p state session =
     (case str_field p ''cap_urn'' of
        None \<Rightarrow> False
      | Some capURN \<Rightarrow>
          if capURN = '''' \<or> session = '''' then False
          else if \<not> actor_is_session state session then False
          else
            let occupant = seated state (RelationsFrom state session)
            in if occupant = '''' then False
               else if mget (Nodes state) capURN = None then False
               else governs_target state (RelationsFrom state occupant) occupant capURN)"

text \<open>The well-formed part of after_urn and before_urn: the target, the property, the value.\<close>

definition urn_prop_value :: "(string \<times> val) list \<Rightarrow> (urn \<times> string \<times> val) option" where
  "urn_prop_value p =
     (case (str_field p ''urn'', str_field p ''prop'', mget p ''value'') of
        (Some u, Some prop, Some v) \<Rightarrow> if u = '''' \<or> prop = '''' then None else Some (u, prop, v)
      | _ \<Rightarrow> None)"

definition stored_value :: "graph_state \<Rightarrow> urn \<Rightarrow> string \<Rightarrow> val option" where
  "stored_value state u prop =
     (case mget (Nodes state) u of
        None \<Rightarrow> None
      | Some nd \<Rightarrow> map_option p_Value (mget (n_Properties nd) prop))"

definition after_urn_holds :: "(string \<times> val) list \<Rightarrow> graph_state \<Rightarrow> bool" where
  "after_urn_holds p state =
     (case urn_prop_value p of
        None \<Rightarrow> False
      | Some (u, prop, v) \<Rightarrow>
          (case stored_value state u prop of None \<Rightarrow> False | Some a \<Rightarrow> propValueEquals a v))"

definition before_urn_holds :: "(string \<times> val) list \<Rightarrow> graph_state \<Rightarrow> bool" where
  "before_urn_holds p state =
     (case urn_prop_value p of
        None \<Rightarrow> False
      | Some (u, prop, v) \<Rightarrow>
          (case stored_value state u prop of None \<Rightarrow> True | Some a \<Rightarrow> \<not> propValueEquals a v))"

lemma extract_objects_mem: "extract_objects vs = Some ms \<Longrightarrow> m \<in> set ms \<Longrightarrow> VObj m \<in> set vs"
  by (induction vs arbitrary: ms rule: extract_objects.induct) auto

lemma size_mget: "mget p k = Some v \<Longrightarrow> size v < size (VObj p)"
  by (induction p) (auto split: if_splits)

lemma size_mem: "x \<in> set vs \<Longrightarrow> size x < size (VArr vs)"
  by (induction vs) auto

lemma extractPredicates_size:
  assumes "extractPredicates p = Some ms" "m \<in> set ms"
  shows "size (VObj m) < size (VObj p)"
proof -
  obtain arr where "mget p ''predicates'' = Some (VArr arr)" "extract_objects arr = Some ms"
    using assms(1) by (auto simp: extractPredicates_def split: option.splits val.splits)
  then show ?thesis
    using size_mget [of p] size_mem [OF extract_objects_mem [OF _ assms(2)]] by fastforce
qed

function evaluateMapWithContext :: "(string \<times> val) list \<Rightarrow> graph_state \<Rightarrow> int \<Rightarrow> urn \<Rightarrow> bool" where
  "evaluateMapWithContext p state currentT session =
     (case str_field p ''kind'' of
        None \<Rightarrow> False
      | Some kind \<Rightarrow>
          if kind = '''' then False
          else if kind = ''fires_at'' \<or> kind = ''closes_at'' \<or> kind = ''expires_at''
          then threshold_holds p currentT
          else if kind = ''window'' then window_holds p currentT
          else if kind = ''on_prop_set'' then on_prop_set_holds p state
          else if kind = ''when_capability'' then when_capability_holds p state session
          else if kind = ''after_urn'' then after_urn_holds p state
          else if kind = ''before_urn'' then before_urn_holds p state
          else if kind = ''all_of'' then
            (case extractPredicates p of
               None \<Rightarrow> False
             | Some arr \<Rightarrow> \<forall>sub\<in>set arr. evaluateMapWithContext sub state currentT session)
          else if kind = ''any_of'' then
            (case extractPredicates p of
               None \<Rightarrow> False
             | Some arr \<Rightarrow> \<exists>sub\<in>set arr. evaluateMapWithContext sub state currentT session)
          else False)"
  by pat_completeness auto

termination
  by (relation "measure (\<lambda>(p, state, currentT, session). size (VObj p))")
     (auto dest: extractPredicates_size)

declare evaluateMapWithContext.simps [simp del]

text \<open>
  A value that is not an object: json.Marshal renders it, and json.Unmarshal into a map either
  fails or, for null, leaves the nil map, which has no kind.
\<close>

definition EvaluateThookPredicateWithContext :: "val \<Rightarrow> graph_state \<Rightarrow> int \<Rightarrow> urn \<Rightarrow> bool" where
  "EvaluateThookPredicateWithContext pred state currentT session =
     (case pred of
        VObj m \<Rightarrow> evaluateMapWithContext m state currentT session
      | _ \<Rightarrow> False)"

definition EvaluateThookPredicate :: "val \<Rightarrow> graph_state \<Rightarrow> int \<Rightarrow> bool" where
  "EvaluateThookPredicate pred state currentT =
     EvaluateThookPredicateWithContext pred state currentT ''''"

definition EvaluateThookPredicateMap :: "(string \<times> val) list \<Rightarrow> graph_state \<Rightarrow> int \<Rightarrow> bool" where
  "EvaluateThookPredicateMap p state currentT = evaluateMapWithContext p state currentT ''''"

section \<open>What the kinds mean\<close>

lemma evaluate_no_kind: "str_field p ''kind'' = None \<Longrightarrow> \<not> evaluateMapWithContext p s t c"
  by (simp add: evaluateMapWithContext.simps)

lemma evaluate_kinds:
  "str_field p ''kind'' = Some k \<Longrightarrow> k \<in> {''fires_at'', ''closes_at'', ''expires_at''} \<Longrightarrow>
   evaluateMapWithContext p s t c = threshold_holds p t"
  "str_field p ''kind'' = Some ''window'' \<Longrightarrow> evaluateMapWithContext p s t c = window_holds p t"
  "str_field p ''kind'' = Some ''on_prop_set'' \<Longrightarrow> evaluateMapWithContext p s t c = on_prop_set_holds p s"
  "str_field p ''kind'' = Some ''when_capability'' \<Longrightarrow>
   evaluateMapWithContext p s t c = when_capability_holds p s c"
  "str_field p ''kind'' = Some ''after_urn'' \<Longrightarrow> evaluateMapWithContext p s t c = after_urn_holds p s"
  "str_field p ''kind'' = Some ''before_urn'' \<Longrightarrow> evaluateMapWithContext p s t c = before_urn_holds p s"
  "str_field p ''kind'' = Some ''all_of'' \<Longrightarrow> evaluateMapWithContext p s t c =
   (case extractPredicates p of None \<Rightarrow> False | Some arr \<Rightarrow> \<forall>m\<in>set arr. evaluateMapWithContext m s t c)"
  "str_field p ''kind'' = Some ''any_of'' \<Longrightarrow> evaluateMapWithContext p s t c =
   (case extractPredicates p of None \<Rightarrow> False | Some arr \<Rightarrow> \<exists>m\<in>set arr. evaluateMapWithContext m s t c)"
  by (auto simp: evaluateMapWithContext.simps [of p s t c])

text \<open>The kinds that do not recurse.\<close>

lemma evaluate_leaf:
  "str_field p ''kind'' \<noteq> Some ''all_of'' \<Longrightarrow> str_field p ''kind'' \<noteq> Some ''any_of'' \<Longrightarrow>
   evaluateMapWithContext p s t c \<longleftrightarrow>
   (case str_field p ''kind'' of
      None \<Rightarrow> False
    | Some k \<Rightarrow>
        if k \<in> {''fires_at'', ''closes_at'', ''expires_at''} then threshold_holds p t
        else if k = ''window'' then window_holds p t
        else if k = ''on_prop_set'' then on_prop_set_holds p s
        else if k = ''when_capability'' then when_capability_holds p s c
        else if k = ''after_urn'' then after_urn_holds p s
        else if k = ''before_urn'' then before_urn_holds p s
        else False)"
  by (cases "str_field p ''kind''") (simp_all add: evaluateMapWithContext.simps [of p s t c])

lemma before_complements_after:
  "before_urn_holds p s \<longleftrightarrow> urn_prop_value p \<noteq> None \<and> \<not> after_urn_holds p s"
  by (auto simp: before_urn_holds_def after_urn_holds_def split: option.splits)

lemma threshold_mono: "threshold_holds p t \<Longrightarrow> t \<le> t' \<Longrightarrow> threshold_holds p t'"
  by (auto simp: threshold_holds_def split: option.splits)

lemma window_holds_iff:
  "window_holds p t \<longleftrightarrow>
   (\<exists>a b x y. mget p ''opens_at'' = Some a \<and> mget p ''closes_at'' = Some b \<and>
      coerceInt a = Some x \<and> coerceInt b = Some y \<and> x \<le> t \<and> t < y)"
  by (auto simp: window_holds_def split: option.splits)

text \<open>
  A predicate without a window anywhere below it is monotone in time: once it holds it keeps
  holding as long as the graph stays the same.
\<close>

function windowless :: "(string \<times> val) list \<Rightarrow> bool" where
  "windowless p =
     (str_field p ''kind'' \<noteq> Some ''window'' \<and>
      (case extractPredicates p of None \<Rightarrow> True | Some arr \<Rightarrow> \<forall>m\<in>set arr. windowless m))"
  by pat_completeness auto

termination
  by (relation "measure (\<lambda>p. size (VObj p))") (auto dest: extractPredicates_size)

declare windowless.simps [simp del]

lemma windowless_parts:
  "windowless p \<Longrightarrow> str_field p ''kind'' \<noteq> Some ''window''"
  "windowless p \<Longrightarrow> extractPredicates p = Some arr \<Longrightarrow> m \<in> set arr \<Longrightarrow> windowless m"
  using windowless.simps [of p] by auto

lemma evaluate_mono:
  "evaluateMapWithContext p s t c \<Longrightarrow> windowless p \<Longrightarrow> t \<le> t' \<Longrightarrow> evaluateMapWithContext p s t' c"
proof (induction p rule: windowless.induct)
  case (1 p)
  note w = windowless_parts [OF "1.prems"(2)]
  have sub: "extractPredicates p = Some arr \<Longrightarrow> m \<in> set arr \<Longrightarrow>
      evaluateMapWithContext m s t c \<Longrightarrow> evaluateMapWithContext m s t' c" for arr m
    using "1.IH" [of arr m] w(2) "1.prems"(3) by blast
  consider (all) "str_field p ''kind'' = Some ''all_of''" | (any) "str_field p ''kind'' = Some ''any_of''"
    | (leaf) "str_field p ''kind'' \<noteq> Some ''all_of''" "str_field p ''kind'' \<noteq> Some ''any_of''" by blast
  then show ?case
  proof cases
    case all
    with "1.prems"(1) sub show ?thesis by (auto simp: evaluate_kinds(7) split: option.splits)
  next
    case any
    with "1.prems"(1) sub show ?thesis by (auto simp: evaluate_kinds(8) split: option.splits)
  next
    case leaf
    show ?thesis
      using "1.prems"(1) w(1) threshold_mono [OF _ "1.prems"(3), of p] unfolding evaluate_leaf [OF leaf]
      by (cases "str_field p ''kind''") (auto split: if_splits)
  qed
qed

section \<open>Comparing numbers by their text\<close>

lemma string_of_nat_times_ten:
  assumes "0 < n"
  shows "string_of_nat (10 * n) = string_of_nat n @ ''0''"
proof -
  have "(char_of (48 :: nat) :: char) = char_of (of_char (CHR ''0'') :: nat)" by simp
  then have "(char_of (48 :: nat) :: char) = CHR ''0''" by (simp only: char_of_char)
  with assms show ?thesis by (subst string_of_nat.simps) simp
qed

lemma string_of_nat_pow: "0 < n \<Longrightarrow> string_of_nat (n * 10 ^ k) = string_of_nat n @ replicate k (CHR ''0'')"
proof (induction k)
  case 0
  then show ?case by simp
next
  case (Suc k)
  have "string_of_nat (n * 10 ^ Suc k) = string_of_nat (10 * (n * 10 ^ k))" by (simp add: ac_simps)
  also have "\<dots> = string_of_nat (n * 10 ^ k) @ ''0''" using Suc.prems by (intro string_of_nat_times_ten) simp
  also have "\<dots> = string_of_nat n @ replicate (Suc k) (CHR ''0'')"
    using Suc by (simp add: replicate_append_same)
  finally show ?case .
qed

lemma string_of_nat_length_pos: "0 < length (string_of_nat n)"
  by (subst string_of_nat.simps) simp

lemma string_of_nat_length: "length (string_of_nat n) \<le> Suc k \<longleftrightarrow> n < 10 ^ Suc k"
proof (induction k arbitrary: n)
  case 0
  show ?case
  proof (cases "n < 10")
    case True
    then show ?thesis by (simp add: string_of_nat.simps [of n])
  next
    case False
    then show ?thesis using string_of_nat_length_pos [of "n div 10"] by (simp add: string_of_nat.simps [of n])
  qed
next
  case (Suc k)
  show ?case
  proof (cases "n < 10")
    case True
    have "(10::nat) \<le> 10 ^ Suc (Suc k)" by simp
    with True have "n < 10 ^ Suc (Suc k)" by linarith
    with True show ?thesis by (simp add: string_of_nat.simps [of n])
  next
    case False
    have "n div 10 < 10 ^ Suc k \<longleftrightarrow> n < 10 ^ Suc (Suc k)" by (auto simp: div_less_iff_less_mult ac_simps)
    with False Suc [of "n div 10"] show ?thesis by (simp add: string_of_nat.simps [of n])
  qed
qed

lemma e_not_digit: "CHR ''e'' \<notin> set (string_of_nat n)"
proof
  assume "CHR ''e'' \<in> set (string_of_nat n)"
  then obtain d :: nat where "d < 10" "CHR ''e'' = char_of (48 + d)"
    using string_of_nat_digits by blast
  then have "of_char (CHR ''e'') = (48 + d) mod (256::nat)" by (simp only: of_char_of)
  with \<open>d < 10\<close> show False by simp
qed

lemma fmt_e_has_e: "CHR ''e'' \<in> set (fmt_e ds dp)"
  by (simp add: fmt_e_def fmt_exp_def)

lemma fmt_f_integer: "length ds \<le> nat dp \<Longrightarrow> 0 < length ds \<Longrightarrow>
    fmt_f ds dp = ds @ replicate (nat dp - length ds) (CHR ''0'')"
  by (auto simp: fmt_f_def)

text \<open>
  An integer and the float64 of the same value m * 10^k render alike exactly below 10^6.
\<close>

lemma fmt_int_float:
  assumes "0 < m"
  shows "fmt_v (VInt (m * 10 ^ k)) = fmt_v (VFloat m (int k)) \<longleftrightarrow> m * 10 ^ k < 10 ^ 6"
proof -
  let ?n = "nat m" let ?ds = "string_of_nat (nat m)" let ?dp = "int (length ?ds) + int k"
  have n: "0 < ?n" "m = int ?n" using assms by simp_all
  have int_text: "fmt_v (VInt (m * 10 ^ k)) = ?ds @ replicate k (CHR ''0'')"
  proof -
    have "nat (m * 10 ^ k) = ?n * 10 ^ k" using assms by (simp add: nat_mult_distrib nat_power_eq)
    moreover have "\<not> m * 10 ^ k < 0" using assms by (simp add: mult_less_0_iff)
    ultimately show ?thesis using string_of_nat_pow [OF n(1)] by (simp add: string_of_int_def)
  qed
  have "?dp - 1 < 6 \<longleftrightarrow> length (string_of_nat (?n * 10 ^ k)) \<le> Suc 5"
    using string_of_nat_pow [OF n(1), of k] by auto
  also have "\<dots> \<longleftrightarrow> ?n * 10 ^ k < 10 ^ 6" by (simp only: string_of_nat_length) simp
  also have "\<dots> \<longleftrightarrow> m * 10 ^ k < 10 ^ 6"
  proof -
    have "int (?n * 10 ^ k) = m * 10 ^ k" using n(2) by simp
    then show ?thesis by (metis of_nat_less_iff of_nat_numeral of_nat_power)
  qed
  finally have small: "?dp - 1 < 6 \<longleftrightarrow> m * 10 ^ k < 10 ^ 6" .
  show ?thesis
  proof (cases "?dp - 1 < 6")
    case True
    have "fmt_v (VFloat m (int k)) = ?ds @ replicate k (CHR ''0'')"
      using True assms fmt_f_integer [of ?ds ?dp] string_of_nat_length_pos [of ?n]
      by (simp add: fmt_g_def Let_def nat_add_distrib)
    with True small int_text show ?thesis by simp
  next
    case False
    then have "fmt_v (VFloat m (int k)) = fmt_e ?ds ?dp" using assms by (simp add: fmt_g_def Let_def)
    moreover have "CHR ''e'' \<notin> set (?ds @ replicate k (CHR ''0''))" by (auto simp: e_not_digit)
    ultimately have "fmt_v (VInt (m * 10 ^ k)) \<noteq> fmt_v (VFloat m (int k))"
      using int_text fmt_e_has_e by metis
    with False small show ?thesis by simp
  qed
qed

end
