(* ===== verification/GoLib.thy ===== *)
theory GoLib
  imports Graph
begin

text \<open>
  The functions of Go's standard library whose results the kernel only passes on: the text
  encoding/json writes and reads, hash sums, formatted times and the readings of the wall clock
  (\<open>clock i\<close> is the i-th reading of time.Now in the life of a runtime). They are one record,
  the argument \<open>lib\<close> of the definitions that call them, and every theorem holds for any value
  of it unless it says otherwise. What the kernel computes from them, such as the hex prefix of a
  hash or the placeholders replaced in a text, is defined.
\<close>

record event_shape =
  es_RewriteType :: string
  es_TypeID :: string
  es_URNPrefix :: string
  es_Port :: string
  es_Field :: string

record golib =
  json_marshal :: "val \<Rightarrow> string option"
  json_marshal_envelope :: "envelope \<Rightarrow> string option"
  json_marshal_entry :: "persisted_rewrite \<Rightarrow> string option"
  parse_map :: "string \<Rightarrow> (string \<times> val) list option"
  parse_envelope :: "string \<Rightarrow> envelope option"
  parse_entry :: "string \<Rightarrow> persisted_rewrite option"
  parse_shape :: "string \<Rightarrow> event_shape option"
  sha1_sum :: "string \<Rightarrow> nat list"
  sha256_sum :: "string \<Rightarrow> nat list"
  rfc3339 :: "time \<Rightarrow> string"
  rfc3339_nano :: "time \<Rightarrow> string"
  clock :: "nat \<Rightarrow> time"

text \<open>encoding/hex: two lower-case digits per byte.\<close>

definition hex_digit :: "nat \<Rightarrow> char" where
  "hex_digit d = char_of (if d < 10 then 48 + d else 87 + d)"

definition hex_encode :: "nat list \<Rightarrow> string" where
  "hex_encode bs = concat (map (\<lambda>b. [hex_digit (b div 16 mod 16), hex_digit (b mod 16)]) bs)"

lemma length_hex_encode: "length (hex_encode bs) = 2 * length bs"
  by (induction bs) (simp_all add: hex_encode_def)

end
