(* ===== verification/Engine.thy ===== *)
theory Engine
  imports HookPredicate GoLib
begin

text \<open>
  internal/reactive/engine.go: watchers, guards, reactors and t_hooks matched against an applied
  rewrite. The engine only reads the state. What it takes from encoding/json is the argument
  \<open>lib\<close>: rendering a value, and reading an envelope or an event shape from text.
\<close>

datatype firing_kind = FiringReactor | FiringTHook | OtherFiring string

record firing =
  f_Proposal :: envelope
  f_SourceHook :: urn
  f_Kind :: firing_kind

definition propStr :: "node \<Rightarrow> string \<Rightarrow> string" where
  "propStr n field =
     (case mget (n_Properties n) field of None \<Rightarrow> '''' | Some p \<Rightarrow> string_or_empty (p_Value p))"

definition propBool :: "node \<Rightarrow> string \<Rightarrow> bool" where
  "propBool n field =
     (case mget (n_Properties n) field of
        None \<Rightarrow> False
      | Some p \<Rightarrow> (case p_Value p of VBool b \<Rightarrow> b | _ \<Rightarrow> False))"

section \<open>Matching\<close>

definition affected :: "graph_state \<Rightarrow> envelope \<Rightarrow> urn \<times> type_id" where
  "affected state env =
     (case e_RewriteType env of
        ADD \<Rightarrow> (e_NodeURN env, e_TypeID env)
      | LINK \<Rightarrow>
          (case mget (Nodes state) (e_SrcURN env) of
             Some n \<Rightarrow> (e_SrcURN env, n_TypeID n) | None \<Rightarrow> (e_SrcURN env, ''''))
      | MUTATE \<Rightarrow>
          (case mget (Nodes state) (e_TargetURN env) of
             Some n \<Rightarrow> (e_TargetURN env, n_TypeID n) | None \<Rightarrow> (e_TargetURN env, ''''))
      | UNLINK \<Rightarrow>
          (case mget (Relations state) (e_RelationURN env) of
             Some rel \<Rightarrow>
               (case mget (Nodes state) (r_SrcURN rel) of
                  Some n \<Rightarrow> (r_SrcURN rel, n_TypeID n) | None \<Rightarrow> ('''', ''''))
           | None \<Rightarrow> ('''', ''''))
      | OtherRewrite _ \<Rightarrow> ('''', ''''))"

definition watcherMatches :: "node \<Rightarrow> envelope \<Rightarrow> urn \<Rightarrow> type_id \<Rightarrow> bool" where
  "watcherMatches watcher env affectedURN affectedTypeID =
     (let mrt = propStr watcher ''match_rewrite_type'';
          mtid = propStr watcher ''match_type_id'';
          prefix = propStr watcher ''match_urn_prefix'';
          mp = propStr watcher ''match_port''
      in if propStr watcher ''status'' \<noteq> ''active'' then False
         else if mrt \<noteq> '''' \<and> mrt \<noteq> ''*'' \<and> mrt \<noteq> rewrite_string (e_RewriteType env) then False
         else if mtid \<noteq> '''' \<and> mtid \<noteq> ''*'' \<and> mtid \<noteq> affectedTypeID then False
         else if prefix \<noteq> '''' \<and> \<not> HasPrefix affectedURN prefix then False
         else if mp \<noteq> '''' \<and> e_SrcPort env \<noteq> mp \<and> e_TgtPort env \<noteq> mp then False
         else True)"

fun any_touches :: "(urn, relation) gomap \<Rightarrow> urn \<Rightarrow> bool" where
  "any_touches [] u = False"
| "any_touches ((_, rel) # rest) u =
     (if r_SrcURN rel = u \<or> r_TgtURN rel = u then True else any_touches rest u)"

definition guard_result :: "graph_state \<Rightarrow> node \<Rightarrow> bool" where
  "guard_result state guard =
     (let predType = propStr guard ''predicate_type'';
          targetURN = propStr guard ''target_urn'';
          field = propStr guard ''field'';
          expected = propStr guard ''expected_value''
      in if predType = ''node_property'' then
           (case mget (Nodes state) targetURN of
              None \<Rightarrow> False
            | Some n \<Rightarrow>
                (case mget (n_Properties n) field of
                   None \<Rightarrow> False | Some p \<Rightarrow> fmt_v (p_Value p) = expected))
         else if predType = ''field_set'' then
           (case mget (Nodes state) targetURN of
              None \<Rightarrow> False | Some n \<Rightarrow> mget (n_Properties n) field \<noteq> None)
         else if predType = ''relation_exists'' then any_touches (Relations state) targetURN
         else if predType = ''node_exists'' then mget (Nodes state) targetURN \<noteq> None
         else if predType = ''custom'' then True
         else False)"

definition evaluateGuard :: "graph_state \<Rightarrow> node \<Rightarrow> bool" where
  "evaluateGuard state guard =
     (let result = guard_result state guard
      in if propBool guard ''negate'' then \<not> result else result)"

definition EvaluatePredicate :: "graph_state \<Rightarrow> node \<Rightarrow> bool" where
  "EvaluatePredicate state nd = evaluateGuard state nd"

fun guards_pass_from :: "graph_state \<Rightarrow> (urn, relation) gomap \<Rightarrow> urn \<Rightarrow> bool" where
  "guards_pass_from state [] watcherURN = True"
| "guards_pass_from state ((_, rel) # rest) watcherURN =
     (if r_TgtURN rel \<noteq> watcherURN \<or> r_TgtPort rel \<noteq> ''guarded-by''
      then guards_pass_from state rest watcherURN
      else case mget (Nodes state) (r_SrcURN rel) of
        None \<Rightarrow> False
      | Some guardNode \<Rightarrow>
          if \<not> evaluateGuard state guardNode then False
          else guards_pass_from state rest watcherURN)"

definition guardsPass :: "graph_state \<Rightarrow> urn \<Rightarrow> bool" where
  "guardsPass state watcherURN = guards_pass_from state (Relations state) watcherURN"

section \<open>Templates\<close>

datatype build_error = NoTemplate string | MarshalFailed string | UnmarshalFailed string

definition buildFromProp ::
  "golib \<Rightarrow> node \<Rightarrow> string \<Rightarrow> urn \<Rightarrow> type_id \<Rightarrow> urn \<Rightarrow> build_error + envelope" where
  "buildFromProp lib nd propName matchedURN matchedTypeID actor =
     (case mget (n_Properties nd) propName of
        None \<Rightarrow> Inl (NoTemplate propName)
      | Some tmplProp \<Rightarrow>
          (case json_marshal lib (p_Value tmplProp) of
             None \<Rightarrow> Inl (MarshalFailed propName)
           | Some raw \<Rightarrow>
               let s1 = ReplaceAll raw ''$matched_urn'' matchedURN;
                   s2 = ReplaceAll s1 ''$matched_type_id'' matchedTypeID;
                   s3 = ReplaceAll s2 ''$actor'' actor
               in (case parse_envelope lib s3 of
                     None \<Rightarrow> Inl (UnmarshalFailed propName)
                   | Some env \<Rightarrow> Inr env)))"

definition buildFromTemplate ::
  "golib \<Rightarrow> node \<Rightarrow> urn \<Rightarrow> type_id \<Rightarrow> urn \<Rightarrow> build_error + envelope" where
  "buildFromTemplate lib reactor matchedURN matchedTypeID actor =
     buildFromProp lib reactor ''template'' matchedURN matchedTypeID actor"

fun react_from ::
  "golib \<Rightarrow> graph_state \<Rightarrow> (urn, relation) gomap \<Rightarrow> urn \<Rightarrow> urn \<Rightarrow> type_id \<Rightarrow> urn \<Rightarrow> envelope list" where
  "react_from lib state [] watcherURN matchedURN matchedTypeID actor = []"
| "react_from lib state ((_, rel) # rest) watcherURN matchedURN matchedTypeID actor =
     (let more = react_from lib state rest watcherURN matchedURN matchedTypeID actor
      in if r_SrcURN rel \<noteq> watcherURN \<or> r_SrcPort rel \<noteq> ''triggers'' then more
         else case mget (Nodes state) (r_TgtURN rel) of
           None \<Rightarrow> more
         | Some reactor \<Rightarrow>
             if propStr reactor ''status'' \<noteq> ''active'' then more
             else if propStr reactor ''action_type'' \<noteq> ''rewrite'' then more
             else (case buildFromTemplate lib reactor matchedURN matchedTypeID actor of
                     Inl _ \<Rightarrow> more
                   | Inr env \<Rightarrow> env # more))"

definition react ::
  "golib \<Rightarrow> graph_state \<Rightarrow> urn \<Rightarrow> urn \<Rightarrow> type_id \<Rightarrow> urn \<Rightarrow> envelope list" where
  "react lib state watcherURN matchedURN matchedTypeID actor =
     react_from lib state (Relations state) watcherURN matchedURN matchedTypeID actor"

section \<open>T-hooks\<close>

definition thookEventShapeMatches :: "golib \<Rightarrow> node \<Rightarrow> envelope \<Rightarrow> type_id \<Rightarrow> bool" where
  "thookEventShapeMatches lib thook env affectedTypeID =
     (case mget (n_Properties thook) ''event_shape'' of
        None \<Rightarrow> True
      | Some prop \<Rightarrow>
          (case json_marshal lib (p_Value prop) of
             None \<Rightarrow> False
           | Some raw \<Rightarrow>
               (case parse_shape lib raw of
                  None \<Rightarrow> False
                | Some shape \<Rightarrow>
                    if es_RewriteType shape \<noteq> '''' \<and> es_RewriteType shape \<noteq> ''*'' \<and>
                       rewrite_string (e_RewriteType env) \<noteq> es_RewriteType shape then False
                    else if es_TypeID shape \<noteq> '''' \<and> es_TypeID shape \<noteq> ''*'' \<and>
                       affectedTypeID \<noteq> es_TypeID shape then False
                    else if es_URNPrefix shape \<noteq> '''' \<and>
                       \<not> HasPrefix (propStr thook ''owner_urn'') (es_URNPrefix shape) then False
                    else if es_Port shape \<noteq> '''' \<and> e_SrcPort env \<noteq> es_Port shape \<and>
                       e_TgtPort env \<noteq> es_Port shape then False
                    else if es_Field shape \<noteq> '''' \<and> es_Field shape \<noteq> ''*'' \<and>
                       e_Field env \<noteq> es_Field shape then False
                    else True)))"

definition thookGuardPasses :: "graph_state \<Rightarrow> node \<Rightarrow> bool" where
  "thookGuardPasses state thook =
     (let guardRef = propStr thook ''guard_ref''
      in if guardRef = '''' then True
         else case mget (Nodes state) guardRef of
           None \<Rightarrow> False
         | Some guardNode \<Rightarrow> evaluateGuard state guardNode)"

definition reactor_firings ::
  "golib \<Rightarrow> graph_state \<Rightarrow> envelope \<Rightarrow> urn \<Rightarrow> type_id \<Rightarrow> node \<Rightarrow> firing list" where
  "reactor_firings lib state env affectedURN affectedTypeID nd =
     (if n_TypeID nd \<noteq> ''watcher'' then []
      else if \<not> watcherMatches nd env affectedURN affectedTypeID then []
      else if \<not> guardsPass state (n_URN nd) then []
      else map (\<lambda>p. \<lparr> f_Proposal = p, f_SourceHook = '''', f_Kind = FiringReactor \<rparr>)
             (react lib state (n_URN nd) affectedURN affectedTypeID (e_Actor env)))"

definition thook_firings ::
  "golib \<Rightarrow> graph_state \<Rightarrow> envelope \<Rightarrow> urn \<Rightarrow> type_id \<Rightarrow> node \<Rightarrow> firing list" where
  "thook_firings lib state env affectedURN affectedTypeID thook =
     (if n_TypeID thook \<noteq> ''t_hook'' then []
      else if propStr thook ''status'' \<noteq> ''active'' then []
      else if propStr thook ''owner_urn'' \<noteq> affectedURN then []
      else if \<not> thookEventShapeMatches lib thook env affectedTypeID then []
      else if \<not> thookGuardPasses state thook then []
      else case buildFromProp lib thook ''react_template'' affectedURN affectedTypeID (e_Actor env) of
        Inl _ \<Rightarrow> []
      | Inr proposal \<Rightarrow>
          [\<lparr> f_Proposal = proposal, f_SourceHook = n_URN thook, f_Kind = FiringTHook \<rparr>])"

definition EvaluateDetailed :: "golib \<Rightarrow> graph_state \<Rightarrow> persisted_rewrite \<Rightarrow> firing list" where
  "EvaluateDetailed lib state rewrite =
     (let env = pr_Envelope rewrite
      in case affected state env of (affectedURN, affectedTypeID) \<Rightarrow>
        concat (map (\<lambda>(_, nd). reactor_firings lib state env affectedURN affectedTypeID nd) (Nodes state)) @
        (if affectedURN \<noteq> ''''
         then concat (map (\<lambda>(_, nd). thook_firings lib state env affectedURN affectedTypeID nd) (Nodes state))
         else []))"

definition Evaluate_engine :: "golib \<Rightarrow> graph_state \<Rightarrow> persisted_rewrite \<Rightarrow> envelope list" where
  "Evaluate_engine lib state rewrite = map f_Proposal (EvaluateDetailed lib state rewrite)"

section \<open>Guards\<close>

lemma any_touches_iff:
  "any_touches rs u \<longleftrightarrow> (\<exists>r\<in>set (map snd rs). r_SrcURN r = u \<or> r_TgtURN r = u)"
  by (induction rs) auto

lemma guards_pass_from_iff:
  "guards_pass_from s rs w \<longleftrightarrow>
   (\<forall>r\<in>set (map snd rs). r_TgtURN r = w \<and> r_TgtPort r = ''guarded-by'' \<longrightarrow>
      (\<exists>g. mget (Nodes s) (r_SrcURN r) = Some g \<and> evaluateGuard s g))"
proof (induction rs)
  case Nil
  then show ?case by simp
next
  case (Cons x rs)
  obtain k r where x: "x = (k, r)" by force
  show ?case
    by (cases "r_TgtURN r = w \<and> r_TgtPort r = ''guarded-by''"; cases "mget (Nodes s) (r_SrcURN r)")
       (auto simp: x Cons.IH)
qed

text \<open>What a guard answers depends on the two maps only.\<close>

lemma evaluateGuard_cong:
  assumes "abs_graph s = abs_graph s'" "wf_map (Relations s)" "wf_map (Relations s')"
  shows "evaluateGuard s g = evaluateGuard s' g"
proof -
  have n: "mget (Nodes s) = mget (Nodes s')" and r: "mget (Relations s) = mget (Relations s')"
    using assms(1) by (simp_all add: abs_graph_def)
  have "set (Relations s) = set (Relations s')"
    using r by (auto simp: mem_mget [OF assms(2)] mem_mget [OF assms(3)])
  then have "any_touches (Relations s) u = any_touches (Relations s') u" for u
    by (simp add: any_touches_iff)
  with n show ?thesis by (simp add: evaluateGuard_def guard_result_def)
qed

section \<open>Firings\<close>

lemma reactor_firings_kind: "f \<in> set (reactor_firings lib s e u t n) \<Longrightarrow> f_Kind f = FiringReactor"
  by (auto simp: reactor_firings_def split: if_splits)

lemma thook_firings_iff:
  "f \<in> set (thook_firings lib s e u t n) \<longleftrightarrow>
   n_TypeID n = ''t_hook'' \<and> propStr n ''status'' = ''active'' \<and> propStr n ''owner_urn'' = u \<and>
   thookEventShapeMatches lib n e t \<and> thookGuardPasses s n \<and>
   (\<exists>p. buildFromProp lib n ''react_template'' u t (e_Actor e) = Inr p \<and>
      f = \<lparr> f_Proposal = p, f_SourceHook = n_URN n, f_Kind = FiringTHook \<rparr>)"
  by (auto simp: thook_firings_def split: sum.splits)

lemma in_concat_nodes: "f \<in> set (concat (map (\<lambda>(_, nd). F nd) ns)) \<longleftrightarrow> (\<exists>k n. (k, n) \<in> set ns \<and> f \<in> set (F n))"
  by (induction ns) auto

lemma EvaluateDetailed_thook:
  assumes "affected s (pr_Envelope pr) = (u, t)"
  shows "f \<in> set (EvaluateDetailed lib s pr) \<and> f_Kind f = FiringTHook \<longleftrightarrow>
    u \<noteq> '''' \<and> (\<exists>k n. (k, n) \<in> set (Nodes s) \<and> f \<in> set (thook_firings lib s (pr_Envelope pr) u t n))"
proof -
  have kind: "f \<in> set (thook_firings lib s (pr_Envelope pr) u t n) \<Longrightarrow> f_Kind f = FiringTHook" for n
    by (auto simp: thook_firings_iff)
  have reactors: "f \<in> set (reactor_firings lib s (pr_Envelope pr) u t n) \<Longrightarrow> f_Kind f \<noteq> FiringTHook" for n
    by (auto dest: reactor_firings_kind)
  show ?thesis
    unfolding EvaluateDetailed_def Let_def assms
    by (simp add: in_concat_nodes del: set_concat) (use kind reactors in blast)
qed

text \<open>
  The engine runs on the state after the rewrite, where an unlinked relation is gone: an UNLINK
  affects no node, so no t_hook of the node it touched can fire.
\<close>

lemma affected_after_UNLINK:
  "e_RewriteType e = UNLINK \<Longrightarrow> EvaluateAt s e t = Inr (s', r) \<Longrightarrow> affected s' e = ('''', '''')"
  by (auto simp: EvaluateAt_UNLINK_iff affected_def)

lemma UNLINK_fires_no_hook:
  assumes "e_RewriteType (pr_Envelope pr) = UNLINK"
    and "mget (Relations s) (e_RelationURN (pr_Envelope pr)) = None"
    and "f \<in> set (EvaluateDetailed lib s pr)"
  shows "f_Kind f = FiringReactor"
proof -
  have "affected s (pr_Envelope pr) = ('''', '''')" using assms by (simp add: affected_def)
  with assms(3) show ?thesis by (auto simp: EvaluateDetailed_def dest: reactor_firings_kind)
qed

end
