(* ===== verification/Sweep.thy ===== *)
theory Sweep
  imports Engine
begin

text \<open>
  internal/tday/tday.go and the pure part of internal/kernel/sweep.go: the calendar day of a
  moment, and the staging of governance proposals for the pending t_hooks whose predicate holds.
\<close>

section \<open>T-days\<close>

text \<open>2025-10-31 23:00 UTC in nanoseconds after Go's zero time, and a day.\<close>

definition T0 :: time where
  "T0 = 63897548400 * 10 ^ 9"

definition day_ns :: int where
  "day_ns = 24 * 60 * 60 * 10 ^ 9"

text \<open>Time.Sub saturates at the bounds of Duration; Duration division truncates towards zero.\<close>

definition time_Sub :: "time \<Rightarrow> time \<Rightarrow> int" where
  "time_Sub t u = max (- (2 ^ 63)) (min (2 ^ 63 - 1) (t - u))"

definition quot :: "int \<Rightarrow> int \<Rightarrow> int" where
  "quot a b = sgn a * sgn b * (\<bar>a\<bar> div \<bar>b\<bar>)"

definition tday_At :: "time \<Rightarrow> int" where
  "tday_At t = quot (time_Sub t T0) day_ns"

definition tday_Now :: "time \<Rightarrow> int" where
  "tday_Now now = quot (time_Sub now T0) day_ns"

definition CurrentSweepTDay :: "time \<Rightarrow> int" where
  "CurrentSweepTDay now = tday_Now now"

lemma tday_At_after_T0: "T0 \<le> t \<Longrightarrow> t - T0 < 2 ^ 63 \<Longrightarrow> tday_At t = (t - T0) div day_ns"
  by (auto simp: tday_At_def quot_def time_Sub_def day_ns_def sgn_if)

lemma tday_At_eq:
  assumes "T0 \<le> t" "t - T0 < 2 ^ 63" "0 \<le> n"
  shows "tday_At t = n \<longleftrightarrow> T0 + n * day_ns \<le> t \<and> t < T0 + (n + 1) * day_ns"
proof -
  let ?x = "t - T0"
  have d: "0 < day_ns" by (simp add: day_ns_def)
  have "?x div day_ns = n \<longleftrightarrow> n * day_ns \<le> ?x \<and> ?x < (n + 1) * day_ns"
  proof
    assume "?x div day_ns = n"
    then have "?x = n * day_ns + ?x mod day_ns" by (metis div_mult_mod_eq)
    moreover have "0 \<le> ?x mod day_ns" "?x mod day_ns < day_ns" using d by simp_all
    ultimately show "n * day_ns \<le> ?x \<and> ?x < (n + 1) * day_ns" by (simp add: distrib_right)
  next
    assume "n * day_ns \<le> ?x \<and> ?x < (n + 1) * day_ns"
    then show "?x div day_ns = n"
      by (intro int_div_pos_eq [of _ _ _ "?x - n * day_ns"]) (simp_all add: algebra_simps)
  qed
  then show ?thesis using tday_At_after_T0 [OF assms(1,2)] by auto
qed

section \<open>Staging\<close>

definition DefaultSweepActor :: urn where
  "DefaultSweepActor = ''urn:moos:kernel:sweep''"

definition firingStateOf :: "node \<Rightarrow> string" where
  "firingStateOf n =
     (case mget (n_Properties n) ''firing_state'' of
        None \<Rightarrow> ''''
      | Some p \<Rightarrow> if p_Value p = VNil then '''' else string_or_empty (p_Value p))"

definition slugFromURN :: "urn \<Rightarrow> string" where
  "slugFromURN u = after_last_colon u"

definition staged_property :: "val \<Rightarrow> string \<Rightarrow> string \<Rightarrow> property" where
  "staged_property v mut scope =
     \<lparr> p_Value = v, p_Mutability = mut, p_AuthorityScope = scope, p_StratumOrigin = 0,
       p_ValidationType = '''' \<rparr>"

definition proposal_properties ::
  "node \<Rightarrow> int \<Rightarrow> string \<Rightarrow> val option \<Rightarrow> (string, property) gomap" where
  "proposal_properties hook currentT nowStr proposedEnvelope =
     (let title = ''Fire t_hook '' @ n_URN hook @ '' at T='' @ string_of_int currentT;
          props =
            [(''title'', staged_property (VStr title) ''immutable'' ''''),
             (''status'', staged_property (VStr ''pending'') ''mutable'' ''principal''),
             (''created_at'', staged_property (VStr nowStr) ''immutable'' ''''),
             (''source_t_hook_urn'', staged_property (VStr (n_URN hook)) ''immutable'' ''''),
             (''fires_at_t'', staged_property (VInt currentT) ''immutable'' '''')];
          props1 = (case proposedEnvelope of
                      None \<Rightarrow> props
                    | Some v \<Rightarrow> mput ''proposed_envelope'' (staged_property v ''immutable'' '''') props)
      in (case mget (n_Properties hook) ''owner_urn'' of
            None \<Rightarrow> props1
          | Some p \<Rightarrow>
              if p_Value p \<noteq> VNil
              then mput ''owner_urn'' (staged_property (p_Value p) ''immutable'' '''') props1
              else props1))"

definition stageHookProposalPair ::
  "node \<Rightarrow> int \<Rightarrow> urn \<Rightarrow> urn \<Rightarrow> string \<Rightarrow> val option \<Rightarrow> envelope \<times> envelope" where
  "stageHookProposalPair hook currentT actor proposalURN nowStr proposedEnvelope =
     ((zero_envelope ADD actor)\<lparr> e_NodeURN := proposalURN, e_TypeID := ''governance_proposal'',
         e_Properties := proposal_properties hook currentT nowStr proposedEnvelope \<rparr>,
      (zero_envelope MUTATE actor)\<lparr> e_TargetURN := n_URN hook, e_Field := ''firing_state'',
         e_NewValue := VStr ''proposed'' \<rparr>)"

definition sweep_proposal_urn :: "node \<Rightarrow> int \<Rightarrow> int \<Rightarrow> int \<Rightarrow> urn" where
  "sweep_proposal_urn n currentT baseLogSeq emitted =
     ''urn:moos:proposal:kernel.'' @ slugFromURN (n_URN n) @ ''-t'' @ string_of_int currentT @
     ''-tick'' @ string_of_int baseLogSeq @ ''-n'' @ string_of_int emitted"

text \<open>The hooks a sweep fires: pending, with a predicate that holds.\<close>

definition sweep_due :: "graph_state \<Rightarrow> int \<Rightarrow> node \<Rightarrow> bool" where
  "sweep_due state currentT n =
     (if firingStateOf n \<noteq> '''' \<and> firingStateOf n \<noteq> ''pending'' then False
      else case mget (n_Properties n) ''predicate'' of
        None \<Rightarrow> False
      | Some predProp \<Rightarrow>
          if p_Value predProp = VNil then False
          else EvaluateThookPredicate (p_Value predProp) state currentT)"

definition sweep_template :: "node \<Rightarrow> val option" where
  "sweep_template n =
     (case mget (n_Properties n) ''react_template'' of
        None \<Rightarrow> None
      | Some p \<Rightarrow> if p_Value p \<noteq> VNil then Some (p_Value p) else None)"

fun sweep_loop ::
  "graph_state \<Rightarrow> int \<Rightarrow> urn \<Rightarrow> int \<Rightarrow> string \<Rightarrow> int \<Rightarrow> urn list \<Rightarrow> envelope list" where
  "sweep_loop state currentT actor baseLogSeq nowStr emitted [] = []"
| "sweep_loop state currentT actor baseLogSeq nowStr emitted (hookURN # rest) =
     (case mget (Nodes state) hookURN of
        None \<Rightarrow> sweep_loop state currentT actor baseLogSeq nowStr emitted rest
      | Some n \<Rightarrow>
          if \<not> sweep_due state currentT n
          then sweep_loop state currentT actor baseLogSeq nowStr emitted rest
          else
            (case stageHookProposalPair n currentT actor
                    (sweep_proposal_urn n currentT baseLogSeq (emitted + 1)) nowStr (sweep_template n) of
               (add, mutate) \<Rightarrow>
                 add # mutate # sweep_loop state currentT actor baseLogSeq nowStr (emitted + 2) rest))"

definition SweepOnce ::
  "golib \<Rightarrow> graph_state \<Rightarrow> int \<Rightarrow> urn \<Rightarrow> int \<Rightarrow> time \<Rightarrow> envelope list" where
  "SweepOnce lib state currentT actor baseLogSeq now =
     sweep_loop state currentT actor baseLogSeq (rfc3339 lib now) 0 (NodesOfType state ''t_hook'')"

section \<open>One sweep\<close>

lemma minus_not_digit: "CHR ''-'' \<notin> set (string_of_nat n)"
proof
  assume "CHR ''-'' \<in> set (string_of_nat n)"
  then obtain d :: nat where "d < 10" "CHR ''-'' = char_of (48 + d)"
    using string_of_nat_digits by blast
  then have "of_char (CHR ''-'') = (48 + d) mod (256::nat)" by (simp only: of_char_of)
  with \<open>d < 10\<close> show False by simp
qed

lemma takeWhile_rev_suffix:
  "c \<notin> set y \<Longrightarrow> takeWhile (\<lambda>x. x \<noteq> c) (rev (p @ c # y)) = rev y"
  by (induction y rule: rev_induct) (auto simp: takeWhile_append)

text \<open>The counter at the end of a proposal URN can be read back from it.\<close>

lemma sweep_proposal_urn_counter:
  assumes "sweep_proposal_urn n t b i = sweep_proposal_urn n' t' b' j" "0 \<le> i" "0 \<le> j"
  shows "i = j"
proof -
  have urn: "\<exists>p. sweep_proposal_urn n t b i = p @ CHR ''-'' # (CHR ''n'' # string_of_nat (nat i))" if "0 \<le> i"
    for n t b i
    using that by (intro exI [of _ "''urn:moos:proposal:kernel.'' @ slugFromURN (n_URN n) @ ''-t'' @ string_of_int t @
      ''-tick'' @ string_of_int b"]) (simp add: sweep_proposal_urn_def string_of_int_def)
  obtain p q where "sweep_proposal_urn n t b i = p @ CHR ''-'' # (CHR ''n'' # string_of_nat (nat i))"
    "sweep_proposal_urn n' t' b' j = q @ CHR ''-'' # (CHR ''n'' # string_of_nat (nat j))"
    using urn assms(2,3) by metis
  moreover have "CHR ''-'' \<notin> set (CHR ''n'' # string_of_nat m)" for m by (simp add: minus_not_digit)
  ultimately have "rev (CHR ''n'' # string_of_nat (nat i)) = rev (CHR ''n'' # string_of_nat (nat j))"
    using assms(1) takeWhile_rev_suffix by metis
  then have "string_of_nat (nat i) = string_of_nat (nat j)" by simp
  then show ?thesis using assms(2,3) string_of_nat_inj by fastforce
qed

lemma sweep_loop_due:
  "mget (Nodes s) u = Some n \<Longrightarrow> sweep_due s t n \<Longrightarrow>
   sweep_loop s t a b now k (u # us) =
     fst (stageHookProposalPair n t a (sweep_proposal_urn n t b (k + 1)) now (sweep_template n)) #
     snd (stageHookProposalPair n t a (sweep_proposal_urn n t b (k + 1)) now (sweep_template n)) #
     sweep_loop s t a b now (k + 2) us"
  by (simp add: case_prod_unfold)

lemma sweep_loop_skip:
  "\<not> (\<exists>n. mget (Nodes s) u = Some n \<and> sweep_due s t n) \<Longrightarrow>
   sweep_loop s t a b now k (u # us) = sweep_loop s t a b now k us"
  by (auto split: option.splits)

text \<open>Every envelope of a sweep is one half of the staging pair of a due hook.\<close>

lemma sweep_loop_mem:
  assumes "e \<in> set (sweep_loop s t a b now k us)"
  shows "\<exists>u n i. u \<in> set us \<and> mget (Nodes s) u = Some n \<and> sweep_due s t n \<and> k < i \<and>
    (e = fst (stageHookProposalPair n t a (sweep_proposal_urn n t b i) now (sweep_template n)) \<or>
     e = snd (stageHookProposalPair n t a (sweep_proposal_urn n t b i) now (sweep_template n)))"
  using assms
proof (induction us arbitrary: k)
  case Nil
  then show ?case by simp
next
  case (Cons u us)
  show ?case
  proof (cases "\<exists>n. mget (Nodes s) u = Some n \<and> sweep_due s t n")
    case False
    then have "sweep_loop s t a b now k (u # us) = sweep_loop s t a b now k us"
      by (rule sweep_loop_skip)
    with Cons show ?thesis by fastforce
  next
    case True
    then obtain n where n: "mget (Nodes s) u = Some n" "sweep_due s t n" by blast
    let ?p = "stageHookProposalPair n t a (sweep_proposal_urn n t b (k + 1)) now (sweep_template n)"
    have "e = fst ?p \<or> e = snd ?p \<or> e \<in> set (sweep_loop s t a b now (k + 2) us)"
      using Cons.prems unfolding sweep_loop_due [OF n] by simp
    moreover have ?thesis if "e = fst ?p \<or> e = snd ?p"
      using n that by (intro exI [of _ u] exI [of _ n] exI [of _ "k + 1"]) simp
    moreover have ?thesis if "e \<in> set (sweep_loop s t a b now (k + 2) us)"
    proof -
      from Cons.IH [OF that] obtain v m i where "v \<in> set us" "k + 2 < i" and
        rest: "mget (Nodes s) v = Some m" "sweep_due s t m"
        "e = fst (stageHookProposalPair m t a (sweep_proposal_urn m t b i) now (sweep_template m)) \<or>
         e = snd (stageHookProposalPair m t a (sweep_proposal_urn m t b i) now (sweep_template m))" by blast
      then have "v \<in> set (u # us)" "k < i" by simp_all
      with rest show ?thesis by blast
    qed
    ultimately show ?thesis by blast
  qed
qed

lemma stage_pair_simps [simp]:
  "e_RewriteType (fst (stageHookProposalPair n t a p w v)) = ADD"
  "e_RewriteType (snd (stageHookProposalPair n t a p w v)) = MUTATE"
  "e_NodeURN (fst (stageHookProposalPair n t a p w v)) = p"
  "e_TypeID (fst (stageHookProposalPair n t a p w v)) = ''governance_proposal''"
  "e_Actor (fst (stageHookProposalPair n t a p w v)) = a"
  "e_Actor (snd (stageHookProposalPair n t a p w v)) = a"
  "e_TargetURN (snd (stageHookProposalPair n t a p w v)) = n_URN n"
  "e_Field (snd (stageHookProposalPair n t a p w v)) = ''firing_state''"
  "e_NewValue (snd (stageHookProposalPair n t a p w v)) = VStr ''proposed''"
  by (simp_all add: stageHookProposalPair_def)

definition added_urns :: "envelope list \<Rightarrow> urn list" where
  "added_urns es = map e_NodeURN (filter (\<lambda>e. e_RewriteType e = ADD) es)"

lemma sweep_loop_distinct: "0 \<le> k \<Longrightarrow> distinct (added_urns (sweep_loop s t a b now k us))"
proof (induction us arbitrary: k)
  case Nil
  then show ?case by (simp add: added_urns_def)
next
  case (Cons u us)
  show ?case
  proof (cases "\<exists>n. mget (Nodes s) u = Some n \<and> sweep_due s t n")
    case False
    then have "sweep_loop s t a b now k (u # us) = sweep_loop s t a b now k us"
      by (rule sweep_loop_skip)
    with Cons show ?thesis by simp
  next
    case True
    then obtain n where n: "mget (Nodes s) u = Some n" "sweep_due s t n" by blast
    let ?p = "stageHookProposalPair n t a (sweep_proposal_urn n t b (k + 1)) now (sweep_template n)"
    let ?rest = "sweep_loop s t a b now (k + 2) us"
    have "sweep_loop s t a b now k (u # us) = fst ?p # snd ?p # ?rest"
      by (rule sweep_loop_due [OF n])
    then have urns: "added_urns (sweep_loop s t a b now k (u # us)) =
        sweep_proposal_urn n t b (k + 1) # added_urns ?rest"
      by (simp add: added_urns_def)
    have "sweep_proposal_urn n t b (k + 1) \<notin> set (added_urns ?rest)"
    proof
      assume "sweep_proposal_urn n t b (k + 1) \<in> set (added_urns ?rest)"
      then obtain e where e: "e \<in> set ?rest" "e_RewriteType e = ADD"
        "e_NodeURN e = sweep_proposal_urn n t b (k + 1)" by (auto simp: added_urns_def)
      from sweep_loop_mem [OF e(1)] e(2) obtain m i where i: "k + 2 < i"
        "e_NodeURN e = sweep_proposal_urn m t b i" by (metis rewrite_type.distinct(3) stage_pair_simps(1-3))
      then have "i = k + 1"
        using e(3) sweep_proposal_urn_counter [of m t b i n t b "k + 1"] Cons.prems by simp
      with i(1) show False by simp
    qed
    with urns Cons.IH [of "k + 2"] Cons.prems show ?thesis by simp
  qed
qed

text \<open>The hooks whose staging MUTATE a sweep emits are the due ones among those it walks.\<close>

definition mutated_urns :: "envelope list \<Rightarrow> urn set" where
  "mutated_urns es = {e_TargetURN e | e. e \<in> set es \<and> e_RewriteType e = MUTATE}"

lemma mutated_urns_simps:
  "mutated_urns [] = {}"
  "e_RewriteType e = MUTATE \<Longrightarrow> mutated_urns (e # es) = insert (e_TargetURN e) (mutated_urns es)"
  "e_RewriteType e \<noteq> MUTATE \<Longrightarrow> mutated_urns (e # es) = mutated_urns es"
  by (auto simp: mutated_urns_def)

lemma mutated_urns_filter:
  "u \<in> mutated_urns es \<longleftrightarrow> filter (\<lambda>e. e_RewriteType e = MUTATE \<and> e_TargetURN e = u) es \<noteq> []"
  unfolding mutated_urns_def filter_empty_conv by blast

lemma sweep_loop_targets:
  "mutated_urns (sweep_loop s t a b now k us) =
   {n_URN n | u n. u \<in> set us \<and> mget (Nodes s) u = Some n \<and> sweep_due s t n}"
proof (induction us arbitrary: k)
  case Nil
  then show ?case by (simp add: mutated_urns_simps)
next
  case (Cons u us)
  show ?case
  proof (cases "\<exists>n. mget (Nodes s) u = Some n \<and> sweep_due s t n")
    case False
    then have "{n_URN n | v n. v \<in> set (u # us) \<and> mget (Nodes s) v = Some n \<and> sweep_due s t n} =
        {n_URN n | v n. v \<in> set us \<and> mget (Nodes s) v = Some n \<and> sweep_due s t n}" by auto
    with Cons.IH [of k] sweep_loop_skip [OF False, of a b now k us] show ?thesis by (simp only:)
  next
    case True
    then obtain n where n: "mget (Nodes s) u = Some n" "sweep_due s t n" by blast
    then have "{n_URN n | v n. v \<in> set (u # us) \<and> mget (Nodes s) v = Some n \<and> sweep_due s t n} =
        insert (n_URN n) {n_URN n | v n. v \<in> set us \<and> mget (Nodes s) v = Some n \<and> sweep_due s t n}" by auto
    with Cons.IH [of "k + 2"] show ?thesis
      unfolding sweep_loop_due [OF n] by (simp add: mutated_urns_simps)
  qed
qed

section \<open>A fired hook\<close>

definition proposed :: "graph_state \<Rightarrow> urn \<Rightarrow> bool" where
  "proposed s u \<longleftrightarrow> (\<exists>n. mget (Nodes s) u = Some n \<and> firingStateOf n = ''proposed'')"

definition staging :: "envelope \<Rightarrow> bool" where
  "staging e \<longleftrightarrow> e_RewriteType e = ADD \<or>
     e_RewriteType e = MUTATE \<and> e_Field e = ''firing_state'' \<and> e_NewValue e = VStr ''proposed''"

lemma proposed_not_due: "mget (Nodes s) u = Some n \<Longrightarrow> proposed s u \<Longrightarrow> \<not> sweep_due s t n"
  by (auto simp: proposed_def sweep_due_def)

lemma sweep_loop_staging: "e \<in> set (sweep_loop s t a b now k us) \<Longrightarrow> staging e"
  by (drule sweep_loop_mem) (auto simp: staging_def)

lemma firingStateOf_mutated: "firingStateOf (mutated_node n f p) =
    (if f = ''firing_state'' then (if p_Value p = VNil then '''' else string_or_empty (p_Value p)) else firingStateOf n)"
  by (simp add: firingStateOf_def)

lemma staging_step:
  assumes "EvaluateAt s e t = Inr (s', r)" "staging e"
  shows "proposed s u \<Longrightarrow> proposed s' u" "e_RewriteType e = MUTATE \<Longrightarrow> proposed s' (e_TargetURN e)"
proof -
  show p: "proposed s' (e_TargetURN e)" if m: "e_RewriteType e = MUTATE"
    using assms by (auto simp: EvaluateAt_MUTATE_iff [OF m] staging_def m proposed_def firingStateOf_mutated
        string_or_empty_def)
  show "proposed s u \<Longrightarrow> proposed s' u"
  proof (cases "e_RewriteType e = ADD")
    case True
    then show "proposed s u \<Longrightarrow> proposed s' u"
      using assms by (auto simp: EvaluateAt_ADD_iff proposed_def)
  next
    case False
    then have m: "e_RewriteType e = MUTATE" using assms(2) by (simp add: staging_def)
    assume u: "proposed s u"
    show "proposed s' u"
    proof (cases "u = e_TargetURN e")
      case True
      with p [OF m] show ?thesis by simp
    next
      case False
      with assms u show ?thesis by (auto simp: EvaluateAt_MUTATE_iff [OF m] proposed_def)
    qed
  qed
qed

lemma staging_chain:
  assumes "eval_chain s (zip es ts) = Some (s', rs)" "length ts = length es" "\<forall>e\<in>set es. staging e"
  shows "(\<forall>u. proposed s u \<longrightarrow> proposed s' u) \<and> (\<forall>u\<in>mutated_urns es. proposed s' u)"
  using assms
proof (induction es arbitrary: s ts rs)
  case Nil
  then show ?case by (simp add: mutated_urns_simps)
next
  case (Cons e es)
  then obtain t ts' where ts: "ts = t # ts'" by (cases ts) auto
  obtain s1 r1 rs' where s1: "EvaluateAt s e t = Inr (s1, r1)" "eval_chain s1 (zip es ts') = Some (s', rs')"
    using Cons.prems(1) by (auto simp: ts split: sum.splits)
  note IH = Cons.IH [OF s1(2)]
  have "staging e" using Cons.prems(3) by simp
  note step = staging_step [OF s1(1) this]
  show ?case
    using IH step Cons.prems(2,3) by (cases "e_RewriteType e = MUTATE") (auto simp: ts mutated_urns_simps)
qed

end
