(* ===== verification/ReactiveProperties.thy ===== *)
theory ReactiveProperties
  imports Sweep Examples
begin

text \<open>
  The properties of internal/reactive and the sweep: predicates over time and values, guards,
  the matching of t_hooks against a rewrite, and what one sweep stages.
\<close>

section \<open>Predicates\<close>

text \<open>Before_urn is the negation of after_urn on every predicate that names a target, a property
  and a value, and a malformed predicate satisfies neither.\<close>

theorem before_is_not_after:
  "evaluateMapWithContext (mput ''kind'' (VStr ''before_urn'') p) s t c \<longleftrightarrow>
   urn_prop_value p \<noteq> None \<and> \<not> evaluateMapWithContext (mput ''kind'' (VStr ''after_urn'') p) s t c"
proof -
  have k: "str_field (mput ''kind'' (VStr x) p) ''kind'' = Some x" for x by (simp add: str_field_def)
  have "urn_prop_value (mput ''kind'' (VStr x) p) = urn_prop_value p" for x
    by (simp add: urn_prop_value_def str_field_def)
  then have a: "after_urn_holds (mput ''kind'' (VStr x) p) s = after_urn_holds p s" for x
    by (simp add: after_urn_holds_def)
  have b: "before_urn_holds (mput ''kind'' (VStr x) p) s = before_urn_holds p s" for x
    using before_complements_after a by (simp add: before_urn_holds_def urn_prop_value_def str_field_def)
  show ?thesis
    unfolding evaluate_kinds(6) [OF k] evaluate_kinds(5) [OF k] a b by (rule before_complements_after)
qed

text \<open>A predicate with no window anywhere in its tree that holds at a T-day holds at every later
  one in the same state; nested predicates are covered to any depth.\<close>

theorem predicate_monotone:
  assumes "evaluateMapWithContext p s t c" "windowless p" "t \<le> t'"
  shows "evaluateMapWithContext p s t' c"
  by (rule evaluate_mono [OF assms])

definition ex_predicate :: "(string \<times> val) list" where
  "ex_predicate = [(''kind'', VStr ''any_of''), (''predicates'', VArr
     [VObj [(''kind'', VStr ''fires_at''), (''t'', VInt 100)], VObj [(''kind'', VStr ''on_prop_set'')]])]"

theorem predicate_monotone_witness:
  "evaluateMapWithContext ex_predicate ex_ab 250 '''' \<and> \<not> evaluateMapWithContext ex_predicate ex_ab 99 ''''"
proof -
  have "evaluateMapWithContext ex_predicate ex_ab 100 '''' \<and> windowless ex_predicate"
    "\<not> evaluateMapWithContext ex_predicate ex_ab 99 ''''"
    by code_simp+
  then show ?thesis using predicate_monotone [of ex_predicate ex_ab 100 "''''" 250] by simp
qed

text \<open>An integer property and the float64 of the same positive value, as JSON delivers it, count
  as equal exactly below one million, where fmt's %v starts to use an exponent.\<close>

theorem int_float_equal:
  assumes "0 < m"
  shows "propValueEquals (VInt (m * 10 ^ k)) (VFloat m (int k)) \<longleftrightarrow> m * 10 ^ k < 10 ^ 6"
  unfolding propValueEquals_def using fmt_int_float [OF assms] by simp

theorem int_float_equal_witness:
  "propValueEquals (VInt 250) (VFloat 25 1) \<and> \<not> propValueEquals (VInt 2000000) (VFloat 2 6)"
  using int_float_equal [of 25 1] int_float_equal [of 2 6] by simp

section \<open>Guards and hooks\<close>

text \<open>A library that decodes nothing.\<close>

definition ex_lib :: golib where
  "ex_lib = \<lparr> json_marshal = (\<lambda>_. None), json_marshal_envelope = (\<lambda>_. None), json_marshal_entry = (\<lambda>_. None),
     parse_map = (\<lambda>_. None), parse_envelope = (\<lambda>_. None), parse_entry = (\<lambda>_. None), parse_shape = (\<lambda>_. None),
     sha1_sum = (\<lambda>_. []), sha256_sum = (\<lambda>_. []), rfc3339 = (\<lambda>_. ''now''), rfc3339_nano = (\<lambda>_. ''now''),
     clock = (\<lambda>_. 1) \<rparr>"


text \<open>Guards fail closed and do not depend on the order of Go's map iteration: a watcher's guards
  pass exactly when every relation that ends in it at port guarded-by starts at an existing node
  whose predicate holds.\<close>

theorem guards_fail_closed:
  assumes "wf_map (Relations s)"
  shows "guardsPass s w \<longleftrightarrow>
    (\<forall>k r. mget (Relations s) k = Some r \<and> r_TgtURN r = w \<and> r_TgtPort r = ''guarded-by'' \<longrightarrow>
       (\<exists>g. mget (Nodes s) (r_SrcURN r) = Some g \<and> evaluateGuard s g))"
  unfolding guardsPass_def guards_pass_from_iff using mem_mget [OF assms] by force

theorem guards_fail_closed_witness:
  "\<not> guardsPass ex_gated ''t''"
proof -
  have f: "map_option (\<lambda>r. (r_SrcURN r, r_TgtURN r, r_TgtPort r)) (mget (Relations ex_gated) ''l'') =
      Some (''g'', ''t'', ''guarded-by'')"
    "map_option (evaluateGuard ex_gated) (mget (Nodes ex_gated) ''g'') = Some False"
    by code_simp+
  then obtain r g where r: "mget (Relations ex_gated) ''l'' = Some r" "r_SrcURN r = ''g''" "r_TgtURN r = ''t''"
    "r_TgtPort r = ''guarded-by''" and g: "mget (Nodes ex_gated) ''g'' = Some g" "\<not> evaluateGuard ex_gated g"
    by auto
  have "wf_map (Relations ex_gated)" using good_state_ex_gated by (simp add: good_state_def wf_state_def)
  from guards_fail_closed [OF this, of "''t''"] r g show ?thesis by (metis option.inject)
qed

text \<open>A t_hook fires on a rewrite exactly when the rewrite affects a node and the hook is active,
  owned by that node, matches the event's shape, passes its guard and has a template that builds;
  the proposal is the one its template builds.\<close>

theorem thook_fires_exactly:
  "f \<in> set (EvaluateDetailed lib s pr) \<and> f_Kind f = FiringTHook \<longleftrightarrow>
   fst (affected s (pr_Envelope pr)) \<noteq> '''' \<and>
   (\<exists>k n p. (k, n) \<in> set (Nodes s) \<and> n_TypeID n = ''t_hook'' \<and> propStr n ''status'' = ''active'' \<and>
      propStr n ''owner_urn'' = fst (affected s (pr_Envelope pr)) \<and>
      thookEventShapeMatches lib n (pr_Envelope pr) (snd (affected s (pr_Envelope pr))) \<and>
      thookGuardPasses s n \<and>
      buildFromProp lib n ''react_template'' (fst (affected s (pr_Envelope pr)))
        (snd (affected s (pr_Envelope pr))) (e_Actor (pr_Envelope pr)) = Inr p \<and>
      f = \<lparr> f_Proposal = p, f_SourceHook = n_URN n, f_Kind = FiringTHook \<rparr>)"
proof -
  obtain u t where ut: "affected s (pr_Envelope pr) = (u, t)" by force
  show ?thesis unfolding EvaluateDetailed_thook [OF ut] thook_firings_iff ut by auto
qed

text \<open>No t_hook ever fires on an UNLINK, whatever its template says: the engine runs on the state
  after the rewrite, where the relation is gone and the affected node can no longer be found.\<close>

theorem UNLINK_never_fires_hooks:
  assumes "e_RewriteType (pr_Envelope pr) = UNLINK" "EvaluateAt s (pr_Envelope pr) t = Inr (s', r)"
  shows "\<forall>f\<in>set (EvaluateDetailed lib s' pr). f_Kind f = FiringReactor"
proof -
  have "mget (Relations s') (e_RelationURN (pr_Envelope pr)) = None"
    using assms(2) by (auto simp: EvaluateAt_UNLINK_iff [OF assms(1)])
  with UNLINK_fires_no_hook [OF assms(1)] show ?thesis by blast
qed

theorem UNLINK_never_fires_hooks_witness:
  "\<exists>s' r. EvaluateAt ex_ab (ex_unlink ''r'') 1 = Inr (s', r) \<and>
     (\<forall>f\<in>set (EvaluateDetailed ex_lib s' (ex_entry (ex_unlink ''r''))). f_Kind f = FiringReactor)"
proof -
  have "mget (Relations ex_ab) ''r'' \<noteq> None" by code_simp
  then obtain s' r where "EvaluateAt ex_ab (ex_unlink ''r'') 1 = Inr (s', r)"
    by (auto simp: EvaluateAt_UNLINK_iff)
  with UNLINK_never_fires_hooks [of "ex_entry (ex_unlink ''r'')" ex_ab 1 s' r ex_lib] show ?thesis
    by (auto simp: ex_entry_def)
qed

section \<open>The sweep\<close>









text \<open>The proposals of one sweep have pairwise different URNs, so no two hooks of a tick compete
  for one proposal node.\<close>

theorem sweep_proposals_distinct:
  "distinct (added_urns (SweepOnce lib s t actor base now))"
  unfolding SweepOnce_def by (rule sweep_loop_distinct) simp

text \<open>From the epoch 2025-10-31 23:00 UTC on, and for as long as a Go Duration can hold the
  distance, the T-day of a moment is n exactly during the n-th day after the epoch.\<close>

theorem tday_is_day:
  assumes "T0 \<le> t" "t - T0 < 2 ^ 63" "0 \<le> n"
  shows "tday_At t = n \<longleftrightarrow> T0 + n * day_ns \<le> t \<and> t < T0 + (n + 1) * day_ns"
  by (rule tday_At_eq [OF assms])

theorem tday_is_day_witness: "tday_At (T0 + 90000 * 10 ^ 9) = 1"
  using tday_is_day [of "T0 + 90000 * 10 ^ 9" 1] by (simp add: T0_def day_ns_def)

end
