(* ===== verification/Store.thy ===== *)
theory Store
  imports GoLib
begin

text \<open>
  The append-only rewrite log of internal/kernel/store.go and its two implementations, MemStore
  and the JSONL file of LogStore, with bufio's buffering and partial writes.
  A store is a state with three operations (\<open>store_ops\<close>); what the kernel relies on is the
  locale \<open>rewrite_store\<close>.
\<close>

record 's store_ops =
  so_Append :: "'s \<Rightarrow> persisted_rewrite list \<Rightarrow> 's \<times> bool"
  so_ReadAll :: "'s \<Rightarrow> persisted_rewrite list option"
  so_SingleWriter :: "'s \<Rightarrow> bool"

section \<open>MemStore\<close>

definition NewMemStore :: "persisted_rewrite list" where
  "NewMemStore = []"

definition MemStore_Append :: "persisted_rewrite list \<Rightarrow> persisted_rewrite list \<Rightarrow> persisted_rewrite list \<times> bool" where
  "MemStore_Append m entries = (m @ entries, True)"

definition MemStore_ReadAll :: "persisted_rewrite list \<Rightarrow> persisted_rewrite list option" where
  "MemStore_ReadAll m = Some m"

definition MemStore_SingleWriter :: "persisted_rewrite list \<Rightarrow> bool" where
  "MemStore_SingleWriter m = True"

definition mem_ops :: "persisted_rewrite list store_ops" where
  "mem_ops = \<lparr> so_Append = MemStore_Append, so_ReadAll = MemStore_ReadAll,
     so_SingleWriter = MemStore_SingleWriter \<rparr>"

section \<open>LogStore\<close>

text \<open>
  \<open>ls_File\<close> is the file's bytes (\<open>None\<close> when there is no file), \<open>ls_Locked\<close> whether the
  store holds the locked handle. \<open>ls_Disk\<close> says what the disk does to the next appends: \<open>None\<close>
  accepts everything, \<open>Some n\<close> fails after n bytes.
\<close>

record logstore =
  ls_File :: "string option"
  ls_Locked :: bool
  ls_Shared :: bool
  ls_Closed :: bool
  ls_Disk :: "nat option list"

abbreviation newline :: char where "newline \<equiv> CHR 0x0A"
abbreviation carriage :: char where "carriage \<equiv> CHR 0x0D"

definition maxLogLineBytes :: nat where
  "maxLogLineBytes = 10 * 1024 * 1024"

definition NewLogStore :: "string option \<Rightarrow> bool \<Rightarrow> nat option list \<Rightarrow> logstore option" where
  "NewLogStore file lock_free disk =
     (if \<not> lock_free then None
      else Some \<lparr> ls_File = Some (case file of None \<Rightarrow> '''' | Some bs \<Rightarrow> bs), ls_Locked = True,
                  ls_Shared = False, ls_Closed = False, ls_Disk = disk \<rparr>)"

definition NewSharedLogStore :: "string option \<Rightarrow> nat option list \<Rightarrow> logstore" where
  "NewSharedLogStore file disk =
     \<lparr> ls_File = Some (case file of None \<Rightarrow> '''' | Some bs \<Rightarrow> bs), ls_Locked = False,
       ls_Shared = True, ls_Closed = False, ls_Disk = disk \<rparr>"

definition LogStore_Close :: "logstore \<Rightarrow> logstore" where
  "LogStore_Close l = l\<lparr> ls_Closed := True, ls_Locked := False \<rparr>"

text \<open>
  bufio.Writer: bytes handed to the file so far, and the buffer. A write that overflows the buffer
  fills and flushes it, and a large write to an empty buffer goes straight to the file.
\<close>

definition buf_size :: nat where
  "buf_size = 4096"

function bufio_write :: "string \<times> string \<Rightarrow> string \<Rightarrow> string \<times> string" where
  "bufio_write (out, buf) p =
     (if length p > buf_size - length buf then
        (if buf = [] then (out @ p, [])
         else bufio_write (out @ buf @ take (buf_size - length buf) p, [])
                (drop (buf_size - length buf) p))
      else (out, buf @ p))"
  by pat_completeness auto
termination
  by (relation "measure (\<lambda>((out, buf), p). if buf = [] then 0 else 1)") auto

declare bufio_write.simps [simp del]

text \<open>The loop of Append: true when every entry was marshalled and written.\<close>

fun append_entries ::
  "golib \<Rightarrow> string \<times> string \<Rightarrow> persisted_rewrite list \<Rightarrow> (string \<times> string) \<times> bool" where
  "append_entries lib w [] = (w, True)"
| "append_entries lib w (entry # rest) =
     (case json_marshal_entry lib entry of
        None \<Rightarrow> (w, False)
      | Some data \<Rightarrow> append_entries lib (bufio_write (bufio_write w data) [newline]) rest)"

text \<open>
  The bytes reach the file in order; the disk may stop short, which the writer reports as an error
  and never recovers from.
\<close>

definition LogStore_Append :: "golib \<Rightarrow> logstore \<Rightarrow> persisted_rewrite list \<Rightarrow> logstore \<times> bool" where
  "LogStore_Append lib l entries =
     (if entries = [] then (l, True)
      else if ls_Closed l then (l, False)
      else case ls_File l of
        None \<Rightarrow> (l, False)
      | Some bs \<Rightarrow>
          (case append_entries lib ('''', '''') entries of
             ((out, buf), marshalled) \<Rightarrow>
               let bytes = (if marshalled then out @ buf else out);
                   disk = (case ls_Disk l of [] \<Rightarrow> None | d # _ \<Rightarrow> d);
                   l' = l\<lparr> ls_Disk := tl (ls_Disk l) \<rparr>
               in (case disk of
                     Some n \<Rightarrow>
                       if n < length bytes then (l'\<lparr> ls_File := Some (bs @ take n bytes) \<rparr>, False)
                       else (l'\<lparr> ls_File := Some (bs @ bytes) \<rparr>, marshalled)
                   | None \<Rightarrow> (l'\<lparr> ls_File := Some (bs @ bytes) \<rparr>, marshalled))))"

text \<open>bufio.ScanLines: newline-terminated lines, a last unterminated one, a trailing CR dropped.\<close>

function scan_lines :: "string \<Rightarrow> string list" where
  "scan_lines bs =
     (if bs = [] then []
      else let line = takeWhile (\<lambda>c. c \<noteq> newline) bs
           in line # scan_lines (drop (Suc (length line)) bs))"
  by pat_completeness auto
termination
  by (relation "measure length") auto

declare scan_lines.simps [simp del]

definition drop_cr :: "string \<Rightarrow> string" where
  "drop_cr line = (if line \<noteq> [] \<and> last line = carriage then butlast line else line)"

definition fill_times :: "persisted_rewrite \<Rightarrow> persisted_rewrite" where
  "fill_times entry =
     (let e1 = (if IsZero (pr_Timestamp entry) then entry\<lparr> pr_Timestamp := pr_AppliedAt entry \<rparr> else entry)
      in if IsZero (pr_AppliedAt e1) then e1\<lparr> pr_AppliedAt := pr_Timestamp e1 \<rparr> else e1)"

text \<open>A line that fills the scanner's buffer without a newline stops the scan with an error.\<close>

fun read_lines :: "golib \<Rightarrow> string list \<Rightarrow> persisted_rewrite list option" where
  "read_lines lib [] = Some []"
| "read_lines lib (line # rest) =
     (if length line \<ge> maxLogLineBytes then None
      else if drop_cr line = [] then read_lines lib rest
      else case parse_entry lib (drop_cr line) of
        None \<Rightarrow> None
      | Some entry \<Rightarrow> map_option (Cons (fill_times entry)) (read_lines lib rest))"

definition LogStore_ReadAll :: "golib \<Rightarrow> logstore \<Rightarrow> persisted_rewrite list option" where
  "LogStore_ReadAll lib l =
     (case ls_File l of
        None \<Rightarrow> Some []
      | Some bs \<Rightarrow> read_lines lib (scan_lines bs))"

definition LogStore_SingleWriter :: "logstore \<Rightarrow> bool" where
  "LogStore_SingleWriter l = (\<not> ls_Shared l)"

definition log_ops :: "golib \<Rightarrow> logstore store_ops" where
  "log_ops lib = \<lparr> so_Append = LogStore_Append lib, so_ReadAll = LogStore_ReadAll lib,
     so_SingleWriter = LogStore_SingleWriter \<rparr>"

section \<open>The interface\<close>

text \<open>
  What the kernel relies on: a successful append of entries the store can represent makes
  ReadAll return the old entries followed by the canonical form of the new ones.
\<close>

locale rewrite_store =
  fixes ops :: "'s store_ops"
    and sound :: "'s \<Rightarrow> bool"
    and storable :: "persisted_rewrite \<Rightarrow> bool"
    and canon :: "persisted_rewrite \<Rightarrow> persisted_rewrite"
  assumes append_sound: "sound s \<Longrightarrow> so_Append ops s es = (s', True) \<Longrightarrow> \<forall>e\<in>set es. storable e \<Longrightarrow> sound s'"
    and read_append: "sound s \<Longrightarrow> so_Append ops s es = (s', True) \<Longrightarrow> \<forall>e\<in>set es. storable e \<Longrightarrow>
      so_ReadAll ops s = Some xs \<Longrightarrow> so_ReadAll ops s' = Some (xs @ map canon es)"
begin

text \<open>A sequence of successful appends is read back in order.\<close>

inductive appended :: "'s \<Rightarrow> persisted_rewrite list \<Rightarrow> 's \<Rightarrow> bool" where
  none: "appended s [] s"
| more: "appended s xs s' \<Longrightarrow> so_Append ops s' es = (s'', True) \<Longrightarrow> \<forall>e\<in>set es. storable e \<Longrightarrow>
    appended s (xs @ es) s''"

lemma read_appended:
  "appended s es s' \<Longrightarrow> sound s \<Longrightarrow> so_ReadAll ops s = Some xs \<Longrightarrow>
   sound s' \<and> so_ReadAll ops s' = Some (xs @ map canon es)"
proof (induction rule: appended.induct)
  case (none s)
  then show ?case by simp
next
  case (more s ys s' es s'')
  then have "sound s'" "so_ReadAll ops s' = Some (xs @ map canon ys)" by auto
  then show ?case
    using append_sound [OF _ more.hyps(2,3)] read_append [OF _ more.hyps(2,3)] by simp
qed

end

interpretation mem: rewrite_store mem_ops "\<lambda>_. True" "\<lambda>_. True" id
  by unfold_locales (auto simp: mem_ops_def MemStore_Append_def MemStore_ReadAll_def)

section \<open>The JSONL file\<close>

definition content :: "string \<times> string \<Rightarrow> string" where
  "content w = fst w @ snd w"

lemma content_write: "content (bufio_write w p) = content w @ p"
proof (induction w p rule: bufio_write.induct)
  case (1 out buf p)
  show ?case
  proof (cases "length p > buf_size - length buf \<and> buf \<noteq> []")
    case True
    with 1 show ?thesis by (subst bufio_write.simps) (simp add: content_def)
  next
    case False
    then show ?thesis by (subst bufio_write.simps) (auto simp: content_def)
  qed
qed

definition lines_of :: "golib \<Rightarrow> persisted_rewrite list \<Rightarrow> string list option" where
  "lines_of lib es = (if \<forall>e\<in>set es. json_marshal_entry lib e \<noteq> None
     then Some (map (\<lambda>e. the (json_marshal_entry lib e)) es) else None)"

definition unlines :: "string list \<Rightarrow> string" where
  "unlines ls = concat (map (\<lambda>l. l @ [newline]) ls)"

lemma append_entries_True:
  "append_entries lib w es = (w', True) \<Longrightarrow>
   (\<forall>e\<in>set es. json_marshal_entry lib e \<noteq> None) \<and>
   content w' = content w @ unlines (map (\<lambda>e. the (json_marshal_entry lib e)) es)"
  by (induction es arbitrary: w) (auto simp: unlines_def content_write split: option.splits)

definition complete :: "string \<Rightarrow> bool" where
  "complete bs \<longleftrightarrow> bs = [] \<or> last bs = newline"

lemma complete_unlines: "complete bs \<Longrightarrow> complete (bs @ unlines ls)"
proof (induction ls arbitrary: bs)
  case Nil
  then show ?case by (simp add: unlines_def)
next
  case (Cons l ls)
  have "complete (bs @ l @ [newline])" by (simp add: complete_def)
  from Cons.IH [OF this] show ?case by (simp add: unlines_def)
qed

lemma scan_lines_Cons:
  "newline \<notin> set l \<Longrightarrow> scan_lines (l @ newline # bs) = l # scan_lines bs"
  by (subst scan_lines.simps) (simp add: takeWhile_append)

lemma scan_lines_last: "newline \<notin> set l \<Longrightarrow> l \<noteq> [] \<Longrightarrow> scan_lines l = [l]"
proof -
  assume l: "newline \<notin> set l" "l \<noteq> []"
  then have tw: "takeWhile (\<lambda>c. c \<noteq> newline) l = l" by (auto simp: takeWhile_eq_all_conv)
  show ?thesis using l(2) by (simp add: scan_lines.simps [of l] scan_lines.simps [of "[]"] tw)
qed

lemma complete_split: "complete bs \<Longrightarrow> bs \<noteq> [] \<Longrightarrow> \<exists>l rest. bs = l @ newline # rest \<and> newline \<notin> set l \<and> complete rest"
proof -
  assume c: "complete bs" "bs \<noteq> []"
  then have "newline \<in> set bs" using last_in_set [of bs] by (simp add: complete_def)
  then obtain l rest where lr: "bs = l @ newline # rest" "newline \<notin> set l"
    using split_list_first [of newline bs] by auto
  with c show ?thesis by (auto simp: complete_def split: if_splits)
qed

lemma scan_lines_append: "complete bs \<Longrightarrow> scan_lines (bs @ cs) = scan_lines bs @ scan_lines cs"
proof (induction "length bs" arbitrary: bs rule: less_induct)
  case less
  show ?case
  proof (cases "bs = []")
    case True
    then show ?thesis by (simp add: scan_lines.simps [of "[]"])
  next
    case False
    then obtain l rest where "bs = l @ newline # rest" "newline \<notin> set l" "complete rest"
      using complete_split less.prems by blast
    with less.hyps [of rest] show ?thesis by (simp add: scan_lines_Cons)
  qed
qed

lemma scan_lines_unlines:
  "\<forall>l\<in>set ls. newline \<notin> set l \<Longrightarrow> scan_lines (unlines ls) = ls"
  by (induction ls) (simp_all add: unlines_def scan_lines_Cons scan_lines.simps [of "[]"])

lemma read_lines_append:
  "read_lines lib (xs @ ys) =
   (case read_lines lib xs of None \<Rightarrow> None
    | Some es \<Rightarrow> map_option (\<lambda>es'. es @ es') (read_lines lib ys))"
  by (cases "read_lines lib ys") (induction xs; auto split: option.splits)+

text \<open>An entry the file can represent, and what reading it back gives.\<close>

definition log_line :: "golib \<Rightarrow> persisted_rewrite \<Rightarrow> string \<Rightarrow> bool" where
  "log_line lib e line \<longleftrightarrow>
     json_marshal_entry lib e = Some line \<and> newline \<notin> set line \<and> drop_cr line = line \<and>
     line \<noteq> [] \<and> length line < maxLogLineBytes \<and> parse_entry lib line \<noteq> None"

definition log_storable :: "golib \<Rightarrow> persisted_rewrite \<Rightarrow> bool" where
  "log_storable lib e \<longleftrightarrow> (\<exists>line. log_line lib e line)"

definition log_canon :: "golib \<Rightarrow> persisted_rewrite \<Rightarrow> persisted_rewrite" where
  "log_canon lib e =
     (case json_marshal_entry lib e of
        None \<Rightarrow> e
      | Some line \<Rightarrow> (case parse_entry lib line of None \<Rightarrow> e | Some d \<Rightarrow> fill_times d))"

definition log_sound :: "logstore \<Rightarrow> bool" where
  "log_sound l \<longleftrightarrow> (\<exists>bs. ls_File l = Some bs \<and> complete bs)"

lemma read_lines_storable:
  "\<forall>e\<in>set es. log_storable lib e \<Longrightarrow>
   read_lines lib (map (\<lambda>e. the (json_marshal_entry lib e)) es) = Some (map (log_canon lib) es)"
  by (induction es) (auto simp: log_storable_def log_line_def log_canon_def)

lemma LogStore_Append_True:
  assumes "LogStore_Append lib l es = (l', True)" "ls_File l = Some bs"
  shows "ls_File l' = Some (bs @ unlines (map (\<lambda>e. the (json_marshal_entry lib e)) es))"
proof (cases "es = []")
  case True
  with assms show ?thesis by (simp add: LogStore_Append_def unlines_def)
next
  case False
  obtain out buf m where ae: "append_entries lib ('''', '''') es = ((out, buf), m)" by (metis prod.collapse)
  have "m = True" "ls_File l' = Some (bs @ out @ buf)"
    using assms False by (auto simp: LogStore_Append_def ae Let_def split: if_splits option.splits)
  with append_entries_True [of lib "('''', '''')" es "(out, buf)"] ae show ?thesis
    by (simp add: content_def)
qed

interpretation log_file: rewrite_store "log_ops lib" log_sound "log_storable lib" "log_canon lib" for lib
proof
  fix s s' :: logstore and es xs
  assume a: "log_sound s" "so_Append (log_ops lib) s es = (s', True)" "\<forall>e\<in>set es. log_storable lib e"
  then obtain bs where bs: "ls_File s = Some bs" "complete bs" by (auto simp: log_sound_def)
  let ?ls = "map (\<lambda>e. the (json_marshal_entry lib e)) es"
  have f: "ls_File s' = Some (bs @ unlines ?ls)"
    using LogStore_Append_True [OF _ bs(1)] a(2) by (simp add: log_ops_def)
  then show "log_sound s'" using bs(2) by (simp add: log_sound_def complete_unlines)
  have "\<forall>l\<in>set ?ls. newline \<notin> set l" using a(3) by (auto simp: log_storable_def log_line_def)
  moreover assume "so_ReadAll (log_ops lib) s = Some xs"
  then have "read_lines lib (scan_lines bs) = Some xs" by (simp add: log_ops_def LogStore_ReadAll_def bs)
  ultimately show "so_ReadAll (log_ops lib) s' = Some (xs @ map (log_canon lib) es)"
    using read_lines_storable [OF a(3)]
    by (simp add: log_ops_def LogStore_ReadAll_def f scan_lines_append [OF bs(2)] scan_lines_unlines
        read_lines_append)
qed

section \<open>Two ways a log stops being readable\<close>

lemma LogStore_Append_one:
  assumes "ls_File l = Some bs" "\<not> ls_Closed l" "json_marshal_entry lib e = Some line"
  shows "LogStore_Append lib l [e] =
    (case ls_Disk l of
       Some n # d \<Rightarrow>
         if n < length (line @ [newline])
         then (l\<lparr> ls_Disk := d, ls_File := Some (bs @ take n (line @ [newline])) \<rparr>, False)
         else (l\<lparr> ls_Disk := d, ls_File := Some (bs @ line @ [newline]) \<rparr>, True)
     | None # d \<Rightarrow> (l\<lparr> ls_Disk := d, ls_File := Some (bs @ line @ [newline]) \<rparr>, True)
     | [] \<Rightarrow> (l\<lparr> ls_Disk := [], ls_File := Some (bs @ line @ [newline]) \<rparr>, True))"
proof -
  obtain out buf where w: "bufio_write (bufio_write ('''', '''') line) [newline] = (out, buf)" by force
  then have c: "out @ buf = line @ [newline]"
    using content_write [of "bufio_write ('''', '''') line" "[newline]"] content_write [of "('''', '''')" line]
    by (simp add: content_def)
  show ?thesis
    unfolding LogStore_Append_def using assms
    by (simp add: w Let_def c split: list.split option.split)
qed

lemma read_lines_bad:
  "length line \<ge> maxLogLineBytes \<or> drop_cr line \<noteq> [] \<and> parse_entry lib (drop_cr line) = None \<Longrightarrow>
   read_lines lib (xs @ line # ys) = None"
  by (auto simp: read_lines_append split: option.splits)

text \<open>An entry the scanner cannot hold is accepted by Append and makes the log unreadable.\<close>

lemma oversized_entry:
  assumes "log_sound l" "\<not> ls_Closed l" "ls_Disk l = []"
    and "json_marshal_entry lib e = Some line" "newline \<notin> set line" "maxLogLineBytes \<le> length line"
  shows "\<exists>l'. LogStore_Append lib l [e] = (l', True) \<and> LogStore_ReadAll lib l' = None"
proof -
  obtain bs where bs: "ls_File l = Some bs" "complete bs" using assms(1) by (auto simp: log_sound_def)
  have "scan_lines (bs @ line @ [newline]) = scan_lines bs @ [line]"
    using scan_lines_append [OF bs(2)] scan_lines_Cons [OF assms(5), of "[]"]
    by (simp add: scan_lines.simps [of "[]"])
  then show ?thesis
    using LogStore_Append_one [OF bs(1) assms(2,4)] assms(3,6) read_lines_bad [of line lib "scan_lines bs" "[]"]
    by (simp add: LogStore_ReadAll_def)
qed

text \<open>
  A write that stops inside a line leaves a fragment to which the next append glues its first
  line: unless the glued text happens to parse, the log can no longer be read.
\<close>

lemma torn_append:
  assumes "log_sound l" "\<not> ls_Closed l" "ls_Disk l = [Some n]" "0 < n" "n \<le> length line1"
    and "json_marshal_entry lib e1 = Some line1" "newline \<notin> set line1"
    and "json_marshal_entry lib e2 = Some line2" "newline \<notin> set line2"
    and "drop_cr (take n line1 @ line2) \<noteq> []" "parse_entry lib (drop_cr (take n line1 @ line2)) = None"
  shows "\<exists>l1 l2. LogStore_Append lib l [e1] = (l1, False) \<and> LogStore_Append lib l1 [e2] = (l2, True) \<and>
    LogStore_ReadAll lib l2 = None"
proof -
  obtain bs where bs: "ls_File l = Some bs" "complete bs" using assms(1) by (auto simp: log_sound_def)
  let ?l1 = "l\<lparr> ls_Disk := [], ls_File := Some (bs @ take n line1) \<rparr>"
  let ?bad = "take n line1 @ line2"
  let ?l2 = "?l1\<lparr> ls_Disk := [], ls_File := Some ((bs @ take n line1) @ line2 @ [newline]) \<rparr>"
  have 1: "LogStore_Append lib l [e1] = (?l1, False)"
    using LogStore_Append_one [OF bs(1) assms(2,6)] assms(3,5) by simp
  have 2: "LogStore_Append lib ?l1 [e2] = (?l2, True)"
    using LogStore_Append_one [of ?l1 "bs @ take n line1" lib e2 line2] assms(2,8) by simp
  have "newline \<notin> set ?bad" using assms(7,9) by (auto dest: in_set_takeD)
  from scan_lines_Cons [OF this, of "[]"]
  have "scan_lines ((bs @ take n line1) @ line2 @ [newline]) = scan_lines bs @ [?bad]"
    using scan_lines_append [OF bs(2), of "?bad @ [newline]"] by (simp add: scan_lines.simps [of "[]"])
  then have "LogStore_ReadAll lib ?l2 = None"
    using read_lines_bad [of ?bad lib "scan_lines bs" "[]"] assms(10,11) by (simp add: LogStore_ReadAll_def)
  with 1 2 show ?thesis by blast
qed

end
