(* ===== verification/LogIntegrity.thy ===== *)
theory LogIntegrity
  imports Replay GoLib "HOL-Library.Multiset"
begin

text \<open>
  internal/kernel/log_integrity.go and the sequence scan of NewRuntime: the report over log
  entries that share a sequence number, computed by a second walk over the log that mirrors
  Replay but records the outcome of every entry.
\<close>

definition EntryApplied :: string where "EntryApplied = ''applied''"
definition EntryLoggedNoFoldEffect :: string where "EntryLoggedNoFoldEffect = ''logged_no_fold_effect''"
definition KindExactReapply :: string where "KindExactReapply = ''exact_reapply''"
definition KindDistinctRewrites :: string where "KindDistinctRewrites = ''distinct_rewrites''"

record collision_entry =
  ce_AppendPosition :: nat
  ce_AppliedAt :: string
  ce_RewriteType :: string
  ce_Actor :: string
  ce_TargetURN :: string
  ce_Fingerprint :: string
  ce_FoldEffect :: string

record collision_group =
  cg_LogSeq :: int
  cg_Count :: nat
  cg_Kind :: string
  cg_Entries :: "collision_entry list"
  cg_DistinctAppliedAt :: nat
  cg_AppliedCount :: nat

record log_integrity =
  li_KernelURN :: string
  li_LogLen :: nat
  li_MaxLogSeq :: int
  li_LogSeqMissing :: nat
  li_DuplicateLogSeqValues :: nat
  li_DuplicateLogSeqExcessEntries :: int
  li_CollisionKinds :: "(string, nat) gomap"
  li_LoggedNoFoldEffect :: nat
  li_SingleWriter :: bool
  li_Groups :: "collision_group list"

definition envelopeFingerprint :: "golib \<Rightarrow> envelope \<Rightarrow> string" where
  "envelopeFingerprint lib env =
     (case json_marshal_envelope lib env of
        None \<Rightarrow> ''unfingerprintable''
      | Some b \<Rightarrow> take 16 (hex_encode (sha256_sum lib b)))"

definition envelopeTarget :: "envelope \<Rightarrow> string" where
  "envelopeTarget env =
     (if e_NodeURN env \<noteq> '''' then e_NodeURN env
      else if e_TargetURN env \<noteq> '''' then e_TargetURN env
      else if e_SrcURN env \<noteq> '''' \<or> e_TgtURN env \<noteq> '''' then e_SrcURN env @ '' -> '' @ e_TgtURN env
      else '''')"

definition formatAppliedAt :: "golib \<Rightarrow> time \<Rightarrow> string" where
  "formatAppliedAt lib t = (if IsZero t then '''' else rfc3339_nano lib t)"

section \<open>The scan for duplicates\<close>

record seq_scan =
  sc_maxSeq :: int
  sc_preSeq :: nat
  sc_zeroTail :: nat
  sc_sawReal :: bool
  sc_seen :: "(int, nat) gomap"
  sc_dupSeqs :: "int list"

definition seen_count :: "(int, nat) gomap \<Rightarrow> int \<Rightarrow> nat" where
  "seen_count seen s = (case mget seen s of None \<Rightarrow> 0 | Some c \<Rightarrow> c)"

definition scan_entry :: "seq_scan \<Rightarrow> persisted_rewrite \<Rightarrow> seq_scan" where
  "scan_entry sc e =
     (if pr_LogSeq e = 0 then
        sc\<lparr> sc_preSeq := sc_preSeq sc + 1,
            sc_zeroTail := (if sc_sawReal sc then sc_zeroTail sc + 1 else sc_zeroTail sc) \<rparr>
      else
        let seen' = mput (pr_LogSeq e) (seen_count (sc_seen sc) (pr_LogSeq e) + 1) (sc_seen sc)
        in sc\<lparr> sc_sawReal := True,
               sc_maxSeq := (if pr_LogSeq e > sc_maxSeq sc then pr_LogSeq e else sc_maxSeq sc),
               sc_seen := seen',
               sc_dupSeqs := (if seen_count seen' (pr_LogSeq e) = 2
                              then sc_dupSeqs sc @ [pr_LogSeq e] else sc_dupSeqs sc) \<rparr>)"

definition scan_log :: "persisted_rewrite list \<Rightarrow> seq_scan" where
  "scan_log entries =
     foldl scan_entry \<lparr> sc_maxSeq = 0, sc_preSeq = 0, sc_zeroTail = 0, sc_sawReal = False, sc_seen = [],
       sc_dupSeqs = [] \<rparr> entries"

section \<open>The report\<close>

definition collision_entry_of ::
  "golib \<Rightarrow> nat \<Rightarrow> persisted_rewrite \<Rightarrow> bool \<Rightarrow> collision_entry" where
  "collision_entry_of lib i pr failed =
     \<lparr> ce_AppendPosition = i + 1,
       ce_AppliedAt = formatAppliedAt lib
         (if IsZero (pr_AppliedAt pr) then pr_Timestamp pr else pr_AppliedAt pr),
       ce_RewriteType = rewrite_string (e_RewriteType (pr_Envelope pr)),
       ce_Actor = e_Actor (pr_Envelope pr),
       ce_TargetURN = envelopeTarget (pr_Envelope pr),
       ce_Fingerprint = envelopeFingerprint lib (pr_Envelope pr),
       ce_FoldEffect = (if failed then EntryLoggedNoFoldEffect else EntryApplied) \<rparr>"

definition new_group :: "int \<Rightarrow> collision_group" where
  "new_group s = \<lparr> cg_LogSeq = s, cg_Count = 0, cg_Kind = '''', cg_Entries = [],
     cg_DistinctAppliedAt = 0, cg_AppliedCount = 0 \<rparr>"

definition record_entry ::
  "(int, collision_group) gomap \<Rightarrow> int \<Rightarrow> collision_entry \<Rightarrow> (int, collision_group) gomap" where
  "record_entry bySeq s ce =
     (let g = (case mget bySeq s of None \<Rightarrow> new_group s | Some g \<Rightarrow> g)
      in mput s (g\<lparr> cg_Entries := cg_Entries g @ [ce] \<rparr>) bySeq)"

fun integrity_walk ::
  "golib \<Rightarrow> int list \<Rightarrow> nat \<Rightarrow> graph_state \<Rightarrow> (int, collision_group) gomap \<Rightarrow> persisted_rewrite list \<Rightarrow>
   graph_state \<times> (int, collision_group) gomap" where
  "integrity_walk lib dup i state bySeq [] = (state, bySeq)"
| "integrity_walk lib dup i state bySeq (pr # rest) =
     (let at = (if IsZero (pr_AppliedAt pr) then pr_Timestamp pr else pr_AppliedAt pr);
          res = EvaluateAt state (pr_Envelope pr) at;
          failed = (case res of Inl _ \<Rightarrow> True | Inr _ \<Rightarrow> False);
          bySeq' = (if pr_LogSeq pr \<in> set dup
                    then record_entry bySeq (pr_LogSeq pr) (collision_entry_of lib i pr failed) else bySeq)
      in case res of
           Inl _ \<Rightarrow> integrity_walk lib dup (Suc i) state bySeq' rest
         | Inr (next, _) \<Rightarrow> integrity_walk lib dup (Suc i) next bySeq' rest)"

definition is_applied :: "collision_entry \<Rightarrow> bool" where
  "is_applied e \<longleftrightarrow> ce_FoldEffect e = EntryApplied"

definition finish_group :: "collision_group \<Rightarrow> collision_group" where
  "finish_group g =
     (let es = cg_Entries g;
          fingerprints = remdups (map ce_Fingerprint es);
          stamps = remdups (filter (\<lambda>a. a \<noteq> '''') (map ce_AppliedAt es))
      in g\<lparr> cg_Count := length es,
            cg_AppliedCount := length (filter is_applied es),
            cg_DistinctAppliedAt := length stamps,
            cg_Kind := (if length fingerprints = 1 then KindExactReapply else KindDistinctRewrites) \<rparr>)"

definition count_kind :: "(string, nat) gomap \<Rightarrow> collision_group \<Rightarrow> (string, nat) gomap" where
  "count_kind m g = mput (cg_Kind g) ((case mget m (cg_Kind g) of None \<Rightarrow> 0 | Some c \<Rightarrow> c) + 1) m"

definition computeLogIntegrity ::
  "golib \<Rightarrow> persisted_rewrite list \<Rightarrow> int list \<Rightarrow> int \<Rightarrow> nat \<Rightarrow> nat \<Rightarrow> bool \<Rightarrow> urn \<Rightarrow> log_integrity" where
  "computeLogIntegrity lib entries dupSeqs maxSeq preSeq distinctRealSeqs singleWriter kernelURN =
     (let bySeq = snd (integrity_walk lib dupSeqs 0 NewGraphState [] entries);
          groups = map (\<lambda>(_, g). finish_group g) bySeq
      in \<lparr> li_KernelURN = kernelURN, li_LogLen = length entries, li_MaxLogSeq = maxSeq,
           li_LogSeqMissing = preSeq, li_DuplicateLogSeqValues = length dupSeqs,
           li_DuplicateLogSeqExcessEntries = int (length entries) - int preSeq - int distinctRealSeqs,
           li_CollisionKinds = foldl count_kind [] groups,
           li_LoggedNoFoldEffect =
             sum_list (map (\<lambda>g. length (filter (\<lambda>e. \<not> is_applied e) (cg_Entries g))) groups),
           li_SingleWriter = singleWriter,
           li_Groups = sort_key cg_LogSeq groups \<rparr>)"

text \<open>What NewRuntime keeps: the bare scalars, or the full report when there are duplicates.\<close>

definition integrity_of :: "golib \<Rightarrow> persisted_rewrite list \<Rightarrow> bool \<Rightarrow> urn \<Rightarrow> log_integrity" where
  "integrity_of lib entries singleWriter kernelURN =
     (let sc = scan_log entries
      in if sc_dupSeqs sc \<noteq> [] then
           computeLogIntegrity lib entries (sc_dupSeqs sc) (sc_maxSeq sc) (sc_preSeq sc)
             (length (sc_seen sc)) singleWriter kernelURN
         else
           \<lparr> li_KernelURN = '''', li_LogLen = length entries, li_MaxLogSeq = sc_maxSeq sc,
             li_LogSeqMissing = sc_preSeq sc, li_DuplicateLogSeqValues = 0,
             li_DuplicateLogSeqExcessEntries = 0, li_CollisionKinds = [], li_LoggedNoFoldEffect = 0,
             li_SingleWriter = singleWriter, li_Groups = [] \<rparr>)"

section \<open>What the scan counts\<close>

abbreviation seqs :: "persisted_rewrite list \<Rightarrow> int list" where
  "seqs es \<equiv> map pr_LogSeq es"

definition scan_inv :: "persisted_rewrite list \<Rightarrow> seq_scan \<Rightarrow> bool" where
  "scan_inv es sc \<longleftrightarrow>
     wf_map (sc_seen sc) \<and> distinct (sc_dupSeqs sc) \<and>
     sc_maxSeq sc = Max (insert 0 (set (seqs es))) \<and>
     sc_preSeq sc = count_list (seqs es) 0 \<and>
     (\<forall>s. s \<noteq> 0 \<longrightarrow> seen_count (sc_seen sc) s = count_list (seqs es) s) \<and>
     set (mkeys (sc_seen sc)) = set (seqs es) - {0} \<and>
     set (sc_dupSeqs sc) = {s. s \<noteq> 0 \<and> count_list (seqs es) s \<ge> 2}"

lemma seen_count_put: "seen_count (mput k v m) s = (if s = k then v else seen_count m s)"
  by (simp add: seen_count_def)

lemma count_list_snoc: "count_list (xs @ [y]) s = count_list xs s + (if s = y then 1 else 0)"
  by (induction xs) auto

lemma Max_insert_snoc:
  assumes "finite S"
  shows "Max (insert (0::int) (insert y S)) = (if y > Max (insert 0 S) then y else Max (insert 0 S))"
proof -
  have "Max (insert 0 (insert y S)) = Max (insert y (insert 0 S))" by (simp only: insert_commute)
  also have "\<dots> = max y (Max (insert 0 S))" using assms by (intro Max_insert) auto
  finally show ?thesis by (simp only: max_def) simp
qed

lemma seqs_snoc: "seqs (es @ [e]) = seqs es @ [pr_LogSeq e]"
  by simp

lemma scan_inv_step:
  assumes inv: "scan_inv es sc"
  shows "scan_inv (es @ [e]) (scan_entry sc e)"
proof -
  let ?s = "pr_LogSeq e" and ?xs = "seqs es" and ?sc = "scan_entry sc e"
  have i: "wf_map (sc_seen sc)" "distinct (sc_dupSeqs sc)" "sc_maxSeq sc = Max (insert 0 (set ?xs))"
    "sc_preSeq sc = count_list ?xs 0"
    "\<And>s. s \<noteq> 0 \<Longrightarrow> seen_count (sc_seen sc) s = count_list ?xs s"
    "set (mkeys (sc_seen sc)) = set ?xs - {0}"
    "set (sc_dupSeqs sc) = {s. s \<noteq> 0 \<and> count_list ?xs s \<ge> 2}"
    using inv by (simp_all add: scan_inv_def)
  have mx: "Max (insert 0 (set (?xs @ [?s]))) = (if ?s > sc_maxSeq sc then ?s else sc_maxSeq sc)"
    using Max_insert_snoc [of "set ?xs" ?s] i(3) by simp
  show ?thesis
  proof (cases "?s = 0")
    case True
    have sc: "sc_seen ?sc = sc_seen sc" "sc_dupSeqs ?sc = sc_dupSeqs sc" "sc_maxSeq ?sc = sc_maxSeq sc"
      "sc_preSeq ?sc = sc_preSeq sc + 1" using True by (simp_all add: scan_entry_def)
    have pos: "0 \<le> sc_maxSeq sc" unfolding i(3) by (rule Max_ge) simp_all
    have mx': "Max (insert 0 (set (?xs @ [?s]))) = sc_maxSeq sc" using mx True pos by simp
    have same: "count_list (?xs @ [?s]) s = count_list ?xs s" if "s \<noteq> 0" for s
      using True that by (simp add: count_list_snoc)
    have dup: "set (sc_dupSeqs sc) = {s. s \<noteq> 0 \<and> 2 \<le> count_list (?xs @ [?s]) s}"
      unfolding i(7) by (rule Collect_cong) (metis same)
    have keys: "set (mkeys (sc_seen sc)) = set (?xs @ [?s]) - {0}" using i(6) True by auto
    have pre: "count_list (?xs @ [?s]) 0 = sc_preSeq sc + 1" using i(4) True by (simp add: count_list_snoc)
    show ?thesis
      unfolding scan_inv_def seqs_snoc sc mx' pre keys dup using i(1,2,5) same by simp
  next
    case False
    define seen' where "seen' = mput ?s (seen_count (sc_seen sc) ?s + 1) (sc_seen sc)"
    have cnt: "seen_count seen' s = count_list (?xs @ [?s]) s" if "s \<noteq> 0" for s
      using i(5) that False by (simp add: seen'_def seen_count_put count_list_snoc)
    have sc: "sc_seen ?sc = seen'" "sc_maxSeq ?sc = (if ?s > sc_maxSeq sc then ?s else sc_maxSeq sc)"
      "sc_preSeq ?sc = sc_preSeq sc"
      "sc_dupSeqs ?sc = (if count_list (?xs @ [?s]) ?s = 2 then sc_dupSeqs sc @ [?s] else sc_dupSeqs sc)"
      using False cnt [OF False] by (simp_all add: scan_entry_def Let_def seen'_def)
    have keys: "wf_map seen'" "set (mkeys seen') = set (?xs @ [?s]) - {0}"
      using i(1,6) False by (auto simp: seen'_def mkeys_put simp del: set_map)
    have dup: "distinct (sc_dupSeqs ?sc)" "set (sc_dupSeqs ?sc) = {s. s \<noteq> 0 \<and> count_list (?xs @ [?s]) s \<ge> 2}"
    proof -
      have "?s \<in> set (sc_dupSeqs sc) \<longleftrightarrow> 2 \<le> count_list ?xs ?s" using False by (simp add: i(7))
      then show "distinct (sc_dupSeqs ?sc)" using i(2) unfolding sc by (simp add: count_list_snoc)
      show "set (sc_dupSeqs ?sc) = {s. s \<noteq> 0 \<and> count_list (?xs @ [?s]) s \<ge> 2}"
        using False by (intro set_eqI, simp add: sc i(7) count_list_snoc, arith)
    qed
    show ?thesis
      unfolding scan_inv_def seqs_snoc sc(1-3) using keys dup cnt mx i(4) False
      by (simp add: count_list_snoc)
  qed
qed

lemma scan_log_inv: "scan_inv es (scan_log es)"
proof (induction es rule: rev_induct)
  case Nil
  show ?case by (simp add: scan_inv_def scan_log_def seen_count_def)
next
  case (snoc e es)
  then show ?case using scan_inv_step by (simp add: scan_log_def)
qed

section \<open>The walk mirrors Replay\<close>

lemma integrity_at: "(if IsZero (pr_AppliedAt pr) then pr_Timestamp pr else pr_AppliedAt pr) = replayAppliedAt pr"
  by (simp add: replayAppliedAt_def IsZero_def)

lemma integrity_walk_state:
  "fst (integrity_walk lib dup i s m es) = fst (fold_log replay_step (\<lambda>_ _. True) i s es)"
proof (induction es arbitrary: i s m)
  case Nil
  then show ?case by simp
next
  case (Cons pr es)
  then show ?case
    by (cases "EvaluateAt s (pr_Envelope pr) (replayAppliedAt pr)")
       (auto simp: integrity_at Let_def replay_step_def split: prod.splits)
qed

lemma fold_log_skip_more:
  "fold_log step skip i s es = (s', None) \<Longrightarrow> fold_log step (\<lambda>_ _. True) i s es = (s', None)"
  by (induction es arbitrary: i s) (auto split: sum.splits if_splits)

lemma integrity_walk_Replay:
  "Replay es = (s, None) \<Longrightarrow> fst (integrity_walk lib dup 0 NewGraphState m es) = s"
  using fold_log_skip_more [of replay_step replay_skip 0 NewGraphState es s]
  by (simp add: integrity_walk_state Replay_None)

section \<open>The arithmetic of the report\<close>

definition group_len :: "(int, collision_group) gomap \<Rightarrow> int \<Rightarrow> nat" where
  "group_len m s = (case mget m s of None \<Rightarrow> 0 | Some g \<Rightarrow> length (cg_Entries g))"

lemma group_len_record: "group_len (record_entry m k ce) s = group_len m s + (if s = k then 1 else 0)"
  by (simp add: group_len_def record_entry_def Let_def new_group_def split: option.splits)

definition walk_inv :: "int list \<Rightarrow> persisted_rewrite list \<Rightarrow> (int, collision_group) gomap \<Rightarrow> bool" where
  "walk_inv dup es m \<longleftrightarrow> wf_map m \<and>
     set (mkeys m) = set dup \<inter> set (seqs es) \<and>
     (\<forall>s\<in>set dup. group_len m s = count_list (seqs es) s)"

lemma walk_inv_step:
  assumes "walk_inv dup es m"
  shows "walk_inv dup (es @ [e])
    (if pr_LogSeq e \<in> set dup then record_entry m (pr_LogSeq e) ce else m)"
proof (cases "pr_LogSeq e \<in> set dup")
  case True
  have "wf_map (record_entry m (pr_LogSeq e) ce)"
    "set (mkeys (record_entry m (pr_LogSeq e) ce)) = insert (pr_LogSeq e) (set (mkeys m))"
    using assms by (simp_all add: walk_inv_def record_entry_def Let_def mkeys_put del: set_map)
  then show ?thesis
    using assms True unfolding walk_inv_def
    by (auto simp: group_len_record count_list_snoc simp del: set_map)
next
  case False
  then have "count_list (seqs (es @ [e])) s = count_list (seqs es) s" if "s \<in> set dup" for s
    using that by (auto simp: count_list_snoc)
  with False assms show ?thesis by (auto simp: walk_inv_def)
qed

lemma integrity_walk_inv:
  "walk_inv dup done_es m \<Longrightarrow> walk_inv dup (done_es @ es) (snd (integrity_walk lib dup i s m es))"
proof (induction es arbitrary: i s m done_es)
  case Nil
  then show ?case by simp
next
  case (Cons e es)
  show ?case
    using Cons.IH [OF walk_inv_step [OF Cons.prems, of e]]
    by (cases "EvaluateAt s (pr_Envelope e) (replayAppliedAt e)") (auto simp: Let_def integrity_at)
qed

lemma sum_groups:
  assumes "wf_map m"
  shows "sum_list (map (\<lambda>(_, g). length (cg_Entries g)) m) = sum (group_len m) (set (mkeys m))"
proof -
  have "map (\<lambda>(_, g). length (cg_Entries g)) m = map (group_len m) (mkeys m)"
    using assms by (auto simp: group_len_def wf_map_def)
  also have "sum_list (map (group_len m) (mkeys m)) = sum (group_len m) (set (mkeys m))"
    using assms by (intro sum_list_distinct_conv_sum_set) (simp add: wf_map_def)
  finally show ?thesis by simp
qed

lemma excess_sum:
  fixes xs :: "int list"
  defines "D \<equiv> {s. s \<noteq> 0 \<and> count_list xs s \<ge> 2}"
  shows "int (length xs) - int (count_list xs 0) - int (card (set xs - {0})) =
    int (sum (count_list xs) D) - int (card D)"
proof -
  let ?R = "set xs - {0}"
  have fin: "finite ?R" by simp
  have sub: "D \<subseteq> ?R"
  proof
    fix s assume "s \<in> D"
    then have "s \<noteq> 0" "count_list xs s \<noteq> 0" by (auto simp: D_def)
    then show "s \<in> ?R" by (simp add: count_list_0_iff)
  qed
  have "length xs = count_list xs 0 + sum (count_list xs) ?R"
  proof -
    have "length xs = sum (count_list xs) (insert 0 (set xs))" by (rule sum_count_set [symmetric]) auto
    also have "insert 0 (set xs) = insert 0 ?R" by auto
    also have "sum (count_list xs) (insert 0 ?R) = count_list xs 0 + sum (count_list xs) ?R"
      by (rule sum.insert) auto
    finally show ?thesis .
  qed
  moreover have "sum (count_list xs) ?R = sum (count_list xs) D + card (?R - D)"
  proof -
    have "sum (count_list xs) ?R = sum (count_list xs) (?R - D) + sum (count_list xs) D"
      using sub by (intro sum.subset_diff) simp_all
    also have "sum (count_list xs) (?R - D) = sum (\<lambda>_. 1) (?R - D)"
    proof (rule sum.cong)
      fix s assume s: "s \<in> ?R - D"
      then have "count_list xs s \<noteq> 0" by (simp add: count_list_0_iff)
      with s show "count_list xs s = 1" by (auto simp: D_def)
    qed simp
    finally show ?thesis by simp
  qed
  moreover have "card ?R = card D + card (?R - D)"
    using sub fin by (metis card_Diff_subset card_mono finite_subset le_add_diff_inverse)
  ultimately show ?thesis by simp
qed

text \<open>The duplicate groups: one per duplicated number, each with all its entries.\<close>

lemma report_groups:
  fixes es lib sw k
  defines "sc \<equiv> scan_log es"
  defines "rep \<equiv> computeLogIntegrity lib es (sc_dupSeqs sc) (sc_maxSeq sc) (sc_preSeq sc) (length (sc_seen sc)) sw k"
  shows "length (li_Groups rep) = length (sc_dupSeqs sc)"
    and "sum_list (map cg_Count (li_Groups rep)) = sum (count_list (seqs es)) (set (sc_dupSeqs sc))"
    and "\<forall>g\<in>set (li_Groups rep). cg_Count g = length (cg_Entries g) \<and> 2 \<le> cg_Count g"
proof -
  note inv = scan_log_inv [of es, folded sc_def, unfolded scan_inv_def]
  let ?m = "snd (integrity_walk lib (sc_dupSeqs sc) 0 NewGraphState [] es)"
  have dup: "set (sc_dupSeqs sc) \<subseteq> set (seqs es)"
  proof
    fix s assume "s \<in> set (sc_dupSeqs sc)"
    then have "count_list (seqs es) s \<noteq> 0" using inv by auto
    then show "s \<in> set (seqs es)" by (metis count_list_0_iff)
  qed
  have "walk_inv (sc_dupSeqs sc) [] []" by (simp add: walk_inv_def group_len_def)
  from integrity_walk_inv [OF this, of es lib 0 NewGraphState]
  have m: "wf_map ?m" "set (mkeys ?m) = set (sc_dupSeqs sc)"
    "\<And>s. s \<in> set (sc_dupSeqs sc) \<Longrightarrow> group_len ?m s = count_list (seqs es) s"
    using dup by (auto simp: walk_inv_def simp del: set_map)
  have groups: "li_Groups rep = sort_key cg_LogSeq (map (\<lambda>(_, g). finish_group g) ?m)"
    by (simp add: rep_def computeLogIntegrity_def Let_def)
  have len: "length ?m = card (set (mkeys ?m))" using m(1) unfolding wf_map_def by (metis distinct_card length_map)
  have "card (set (sc_dupSeqs sc)) = length (sc_dupSeqs sc)" using inv by (metis distinct_card)
  with len show "length (li_Groups rep) = length (sc_dupSeqs sc)" by (simp only: groups m(2) length_sort length_map)
  have "sum_list (map cg_Count (li_Groups rep)) = sum_list (map cg_Count (map (\<lambda>(_, g). finish_group g) ?m))"
    unfolding groups by (metis mset_map mset_sort sum_mset_sum_list)
  also have "\<dots> = sum_list (map (\<lambda>(_, g). length (cg_Entries g)) ?m)"
    by (simp add: comp_def case_prod_unfold finish_group_def Let_def)
  also have "\<dots> = sum (group_len ?m) (set (sc_dupSeqs sc))" by (simp only: sum_groups [OF m(1)] m(2))
  also have "\<dots> = sum (count_list (seqs es)) (set (sc_dupSeqs sc))" by (rule sum.cong) (simp_all add: m(3))
  finally show "sum_list (map cg_Count (li_Groups rep)) = sum (count_list (seqs es)) (set (sc_dupSeqs sc))" .
  show "\<forall>g\<in>set (li_Groups rep). cg_Count g = length (cg_Entries g) \<and> 2 \<le> cg_Count g"
  proof
    fix g assume "g \<in> set (li_Groups rep)"
    then obtain s h where h: "(s, h) \<in> set ?m" "g = finish_group h" unfolding groups by auto
    then have "s \<in> set (sc_dupSeqs sc)" unfolding m(2) [symmetric] by force
    then have "2 \<le> count_list (seqs es) s" "group_len ?m s = count_list (seqs es) s"
      using inv m(3) by auto
    moreover have "group_len ?m s = length (cg_Entries h)"
      using h(1) m(1) by (simp add: group_len_def mem_mget)
    ultimately show "cg_Count g = length (cg_Entries g) \<and> 2 \<le> cg_Count g"
      by (simp add: h(2) finish_group_def Let_def)
  qed
qed

lemma report_excess:
  fixes es lib sw k
  defines "sc \<equiv> scan_log es"
  defines "rep \<equiv> computeLogIntegrity lib es (sc_dupSeqs sc) (sc_maxSeq sc) (sc_preSeq sc) (length (sc_seen sc)) sw k"
  shows "li_DuplicateLogSeqExcessEntries rep =
    int (sum_list (map cg_Count (li_Groups rep))) - int (length (li_Groups rep))"
proof -
  note inv = scan_log_inv [of es, folded sc_def, unfolded scan_inv_def]
  have "length (sc_seen sc) = card (set (seqs es) - {0})"
    using inv by (metis distinct_card length_map wf_map_def)
  moreover have "set (sc_dupSeqs sc) = {s. s \<noteq> 0 \<and> count_list (seqs es) s \<ge> 2}" using inv by blast
  moreover have "length (sc_dupSeqs sc) = card (set (sc_dupSeqs sc))" using inv by (metis distinct_card)
  ultimately show ?thesis
    using excess_sum [of "seqs es"] inv report_groups(1,2) [of lib es sw k, folded sc_def rep_def]
    by (simp add: rep_def computeLogIntegrity_def Let_def)
qed

end

