(* ===== verification/StoreProperties.thy ===== *)
theory StoreProperties
  imports Store LogIntegrity
begin

text \<open>
  The properties of the rewrite log on disk and of the integrity report made from it at start-up.
\<close>

section \<open>The log file\<close>

text \<open>C30: a log file that ends at a line end reads back what was appended: after a successful Append
  of entries that fit a line, ReadAll returns the old entries followed by the new ones in order, as
  their JSON reads, with a missing time filled from the other; the file again ends at a line end.\<close>

theorem log_file_readback:
  assumes "log_sound l" "LogStore_Append lib l es = (l', True)" "\<forall>e\<in>set es. log_storable lib e"
    and "LogStore_ReadAll lib l = Some xs"
  shows "log_sound l' \<and> LogStore_ReadAll lib l' = Some (xs @ map (log_canon lib) es)"
  using log_file.append_sound [of l lib es l'] log_file.read_append [of l lib es l' xs] assms
  by (simp add: log_ops_def)

definition ex_pr :: "int \<Rightarrow> persisted_rewrite" where
  "ex_pr q = \<lparr> pr_Envelope = zero_envelope ADD ''k'', pr_AppliedAt = 4, pr_Timestamp = 4, pr_LogSeq = q \<rparr>"

text \<open>Every entry is written as the same line, which reads as entry 1, and no other line reads.\<close>

definition ex_json :: golib where
  "ex_json = \<lparr> json_marshal = (\<lambda>_. None), json_marshal_envelope = (\<lambda>_. None),
     json_marshal_entry = (\<lambda>_. Some ''one''), parse_map = (\<lambda>_. None), parse_envelope = (\<lambda>_. None),
     parse_entry = (\<lambda>x. if x = ''one'' then Some (ex_pr 1) else None), parse_shape = (\<lambda>_. None),
     sha1_sum = (\<lambda>_. []), sha256_sum = (\<lambda>_. []), rfc3339 = (\<lambda>_. ''''), rfc3339_nano = (\<lambda>_. ''''),
     clock = (\<lambda>_. 1) \<rparr>"

definition ex_log :: "nat option list \<Rightarrow> logstore" where
  "ex_log disk = \<lparr> ls_File = Some '''', ls_Locked = True, ls_Shared = False, ls_Closed = False, ls_Disk = disk \<rparr>"

lemma ex_log_sound [simp]: "log_sound (ex_log d)" "\<not> ls_Closed (ex_log d)" "ls_Disk (ex_log d) = d"
  by (simp_all add: log_sound_def ex_log_def complete_def)

lemma ex_json_line [simp]: "json_marshal_entry ex_json e = Some ''one''"
  by (simp add: ex_json_def)

theorem log_file_readback_witness:
  "\<exists>l'. LogStore_Append ex_json (ex_log []) [ex_pr 1] = (l', True) \<and>
     LogStore_ReadAll ex_json l' = Some [ex_pr 1]"
proof -
  have "LogStore_ReadAll ex_json (ex_log []) = Some []"
    by (simp add: LogStore_ReadAll_def ex_log_def scan_lines.simps)
  moreover obtain l' where l': "LogStore_Append ex_json (ex_log []) [ex_pr 1] = (l', True)"
    using LogStore_Append_one [of "ex_log []" "''''" ex_json "ex_pr 1"] by (simp add: ex_log_def)
  moreover have "log_storable ex_json (ex_pr 1)"
    by (auto simp: log_storable_def log_line_def ex_json_def drop_cr_def maxLogLineBytes_def)
  moreover have "log_canon ex_json (ex_pr 1) = ex_pr 1"
    by (simp add: log_canon_def ex_json_def fill_times_def IsZero_def ex_pr_def)
  ultimately show ?thesis
    using log_file_readback [of "ex_log []" ex_json "[ex_pr 1]" l' "[]"] by simp
qed

text \<open>C31: a failed append is not always without effect. When the disk stops inside the first line,
  Append reports the failure but the fragment stays in the file; the next append glues its line to
  it, reports success, and, unless the glued text happens to be a valid entry, the whole log can
  no longer be read.\<close>

theorem torn_append_poisons:
  assumes "log_sound l" "\<not> ls_Closed l" "ls_Disk l = [Some n]" "0 < n" "n \<le> length line1"
    and "json_marshal_entry lib e1 = Some line1" "newline \<notin> set line1"
    and "json_marshal_entry lib e2 = Some line2" "newline \<notin> set line2"
    and "drop_cr (take n line1 @ line2) \<noteq> []" "parse_entry lib (drop_cr (take n line1 @ line2)) = None"
  shows "\<exists>l1 l2. LogStore_Append lib l [e1] = (l1, False) \<and> LogStore_Append lib l1 [e2] = (l2, True) \<and>
    LogStore_ReadAll lib l2 = None"
  by (rule torn_append [OF assms])

theorem torn_append_poisons_witness:
  "\<exists>l1 l2. LogStore_Append ex_json (ex_log [Some 2]) [ex_pr 1] = (l1, False) \<and>
     LogStore_Append ex_json l1 [ex_pr 2] = (l2, True) \<and> LogStore_ReadAll ex_json l2 = None"
  by (rule torn_append_poisons [of _ 2 "''one''" _ _ _ "''one''"])
     (simp_all add: drop_cr_def, simp add: ex_json_def)

text \<open>An entry whose line does not fit the scanner is accepted and makes the log unreadable:
  lemma \<open>oversized_entry\<close>.\<close>

section \<open>The integrity report\<close>

text \<open>The report counts exactly. Its duplicate groups are one per sequence number that occurs more
  than once, legacy zero numbers apart, and the excess entries it reports are the entries of those
  groups beyond the first of each; the maximum is the largest number in the log.\<close>

theorem integrity_counts:
  "li_DuplicateLogSeqValues (integrity_of lib es sw k) = card {s. s \<noteq> 0 \<and> count_list (seqs es) s \<ge> 2} \<and>
   length (li_Groups (integrity_of lib es sw k)) = li_DuplicateLogSeqValues (integrity_of lib es sw k) \<and>
   li_DuplicateLogSeqExcessEntries (integrity_of lib es sw k) =
     int (sum_list (map cg_Count (li_Groups (integrity_of lib es sw k)))) -
     int (length (li_Groups (integrity_of lib es sw k))) \<and>
   li_MaxLogSeq (integrity_of lib es sw k) = Max (insert 0 (set (seqs es)))"
proof -
  note inv = scan_log_inv [of es, unfolded scan_inv_def]
  have c: "card {s. s \<noteq> 0 \<and> count_list (seqs es) s \<ge> 2} = length (sc_dupSeqs (scan_log es))"
    using inv by (metis distinct_card)
  show ?thesis
  proof (cases "sc_dupSeqs (scan_log es) = []")
    case True
    with inv c show ?thesis by (simp add: integrity_of_def Let_def)
  next
    case False
    have "li_DuplicateLogSeqValues (integrity_of lib es sw k) = length (sc_dupSeqs (scan_log es))"
      "li_MaxLogSeq (integrity_of lib es sw k) = sc_maxSeq (scan_log es)"
      using False by (simp_all add: integrity_of_def Let_def computeLogIntegrity_def)
    with False c inv report_groups(1) [of lib es sw k] report_excess [of lib es sw k] show ?thesis
      by (simp add: integrity_of_def Let_def)
  qed
qed

end
