(* ===== verification/GoJson.thy ===== *)
theory GoJson
  imports Graph
begin

text \<open>
  encoding/json as the kernel uses it to read: a document keeps its keys in order, repeated ones
  included, and is decoded into Go values by one decoder per Go type. A decoder gets the old value
  of its target, because json.Unmarshal leaves a target alone on null, merges objects into structs
  and maps, and lets a repeated key decode twice. A number is its shortest decimal, as in \<open>val\<close>.
  A repeated key of an array decodes into zero elements here.
\<close>

datatype jdoc =
    JNull
  | JBool bool
  | JNum int int
  | JStr string
  | JArr "jdoc list"
  | JObj "(string \<times> jdoc) list"

datatype decode_error = TypeMismatch jdoc

type_synonym 'r dec = "jdoc \<Rightarrow> 'r \<Rightarrow> decode_error + 'r"

section \<open>Keys\<close>

text \<open>
  strings.EqualFold against an ASCII string: two letters fold beyond ASCII case, the long s
  (U+017F, bytes C5 BF) onto s and the Kelvin sign (U+212A, bytes E2 84 AA) onto k.
\<close>

definition ascii_lower :: "char \<Rightarrow> char" where
  "ascii_lower c = (if CHR ''A'' \<le> c \<and> c \<le> CHR ''Z'' then char_of (of_char c + 32 :: nat) else c)"

definition fold_case :: "string \<Rightarrow> string" where
  "fold_case s = map ascii_lower
     (ReplaceAll (ReplaceAll s [CHR 0xC5, CHR 0xBF] ''s'') [CHR 0xE2, CHR 0x84, CHR 0xAA] ''k'')"

definition EqualFold :: "string \<Rightarrow> string \<Rightarrow> bool" where
  "EqualFold s t \<longleftrightarrow> fold_case s = fold_case t"

section \<open>Decoders\<close>

text \<open>Into \<^verbatim>\<open>any\<close>: every number is a float64, the last of two equal keys wins.\<close>

fun dec_any :: "jdoc \<Rightarrow> val" where
  "dec_any JNull = VNil"
| "dec_any (JBool b) = VBool b"
| "dec_any (JNum m e) = VFloat m e"
| "dec_any (JStr s) = VStr s"
| "dec_any (JArr ds) = VArr (map dec_any ds)"
| "dec_any (JObj kvs) = VObj (copy_into (map (\<lambda>kv. (fst kv, dec_any (snd kv))) kvs) [])"

definition dec_val :: "val dec" where
  "dec_val d old = Inr (dec_any d)"

fun dec_string :: "string dec" where
  "dec_string JNull old = Inr old"
| "dec_string (JStr s) old = Inr s"
| "dec_string d old = Inl (TypeMismatch d)"

fun dec_bool :: "bool dec" where
  "dec_bool JNull old = Inr old"
| "dec_bool (JBool b) old = Inr b"
| "dec_bool d old = Inl (TypeMismatch d)"

text \<open>A number with a fraction, or outside int64, is no int.\<close>

fun dec_int :: "int dec" where
  "dec_int JNull old = Inr old"
| "dec_int (JNum m e) old =
     (if 0 \<le> e \<and> wrap64 (m * 10 ^ nat e) = m * 10 ^ nat e then Inr (m * 10 ^ nat e)
      else Inl (TypeMismatch (JNum m e)))"
| "dec_int d old = Inl (TypeMismatch d)"

fun emap :: "('a \<Rightarrow> 'e + 'b) \<Rightarrow> 'a list \<Rightarrow> 'e + 'b list" where
  "emap f [] = Inr []"
| "emap f (x # xs) = ebind (f x) (\<lambda>y. ebind (emap f xs) (\<lambda>ys. Inr (y # ys)))"

fun dec_slice :: "'a \<Rightarrow> 'a dec \<Rightarrow> 'a list option dec" where
  "dec_slice zero f JNull old = Inr None"
| "dec_slice zero f (JArr ds) old = ebind (emap (\<lambda>d. f d zero) ds) (\<lambda>xs. Inr (Some xs))"
| "dec_slice zero f d old = Inl (TypeMismatch d)"

fun dec_entry :: "'a \<Rightarrow> 'a dec \<Rightarrow> string \<times> jdoc \<Rightarrow> (string, 'a) gomap \<Rightarrow> decode_error + (string, 'a) gomap" where
  "dec_entry zero f (k, d) m = ebind (f d zero) (\<lambda>x. Inr (mput k x m))"

fun dec_map :: "'a \<Rightarrow> 'a dec \<Rightarrow> (string, 'a) gomap option dec" where
  "dec_map zero f JNull old = Inr None"
| "dec_map zero f (JObj kvs) old =
     ebind (efold (dec_entry zero f) kvs (case old of None \<Rightarrow> [] | Some m \<Rightarrow> m)) (\<lambda>m. Inr (Some m))"
| "dec_map zero f d old = Inl (TypeMismatch d)"

fun dec_ptr :: "'a \<Rightarrow> 'a dec \<Rightarrow> 'a option dec" where
  "dec_ptr zero f JNull old = Inr None"
| "dec_ptr zero f d old = ebind (f d (case old of None \<Rightarrow> zero | Some x \<Rightarrow> x)) (\<lambda>x. Inr (Some x))"

text \<open>A struct: one decoder per tagged attribute; keys that match no tag are skipped.\<close>

fun field_for :: "(string \<times> 'r dec) list \<Rightarrow> string \<Rightarrow> 'r dec option" where
  "field_for [] k = None"
| "field_for ((name, f) # rest) k = (if EqualFold k name then Some f else field_for rest k)"

fun dec_struct :: "(string \<times> 'r dec) list \<Rightarrow> 'r dec" where
  "dec_struct fs JNull old = Inr old"
| "dec_struct fs (JObj kvs) old =
     efold (\<lambda>(k, d) r. case field_for fs k of None \<Rightarrow> Inr r | Some f \<Rightarrow> f d r) kvs old"
| "dec_struct fs d old = Inl (TypeMismatch d)"

definition on_field :: "('r \<Rightarrow> 'a) \<Rightarrow> (('a \<Rightarrow> 'a) \<Rightarrow> 'r \<Rightarrow> 'r) \<Rightarrow> 'a dec \<Rightarrow> 'r dec" where
  "on_field get upd f d r = ebind (f d (get r)) (\<lambda>x. Inr (upd (\<lambda>_. x) r))"

section \<open>Documents without repeated keys\<close>

lemma emap_length: "emap f xs = Inr ys \<Longrightarrow> length ys = length xs"
  by (induction xs arbitrary: ys) (auto simp: ok_simps)

lemma emap_Inr: "emap f xs = Inr ys \<longleftrightarrow> list_all2 (\<lambda>x y. f x = Inr y) xs ys"
  by (induction xs arbitrary: ys) (auto simp: ok_simps list_all2_Cons1)

text \<open>A map decoded from an object maps every key to its last value.\<close>

lemma dec_map_keys:
  assumes "efold (dec_entry zero f) kvs m0 = Inr m"
  shows "set (mkeys m) = set (map fst kvs) \<union> set (mkeys m0) \<and> (wf_map m0 \<longrightarrow> wf_map m)"
  using assms
proof (induction kvs arbitrary: m0)
  case Nil
  then show ?case by simp
next
  case (Cons a kvs)
  obtain k d where a: "a = (k, d)" by force
  with Cons.prems obtain x where x: "f d zero = Inr x"
    "efold (dec_entry zero f) kvs (mput k x m0) = Inr m"
    by (auto simp: ok_simps)
  from Cons.IH [OF x(2)] a show ?case by (auto simp: mkeys_put simp del: set_map)
qed

lemma dec_map_other:
  assumes "efold (dec_entry zero f) kvs m0 = Inr m" "k \<notin> fst ` set kvs"
  shows "mget m k = mget m0 k"
  using efold_inv [OF assms(1), of "\<lambda>m. mget m k = mget m0 k"] assms(2) by (force simp: ok_simps)

lemma dec_map_distinct:
  assumes "efold (dec_entry zero f) kvs m0 = Inr m"
    and "distinct (map fst kvs)" "(k, d) \<in> set kvs"
  shows "\<exists>x. f d zero = Inr x \<and> mget m k = Some x"
  using assms
proof (induction kvs arbitrary: m0)
  case Nil
  then show ?case by simp
next
  case (Cons a kvs)
  obtain k' d' where a: "a = (k', d')" by force
  with Cons.prems obtain x where x: "f d' zero = Inr x"
    "efold (dec_entry zero f) kvs (mput k' x m0) = Inr m"
    by (auto simp: ok_simps)
  show ?case
  proof (cases "(k, d) \<in> set kvs")
    case True
    with Cons.IH [OF x(2)] Cons.prems(2) show ?thesis by simp
  next
    case False
    with Cons.prems(3) a have "k = k'" "d = d'" by auto
    moreover have "k' \<notin> fst ` set kvs" using Cons.prems(2) a by simp
    ultimately show ?thesis using dec_map_other [OF x(2)] x(1) by simp
  qed
qed

end
