(* ===== verification/Loader.thy ===== *)
theory Loader
  imports Registry GoJson
begin

text \<open>
  internal/operad/loader.go: from the text of ontology.json to the registry. The raw JSON shapes
  with their decoders, the duplicate-key scan of the color section, the closed color vocabulary,
  the source of port colors and the ports generated from the declared pairs. A \<^verbatim>\<open>log.Printf\<close> is an
  entry of the list of log lines the load returns.
\<close>

section \<open>Raw JSON shapes\<close>

record raw_ports =
  rp_Out :: "string list option"
  rp_In :: "string list option"
  rp_Self :: "string list option"

record raw_property_spec =
  rs_Mutability :: string
  rs_AuthorityScope :: string
  rs_Type :: string
  rs_Values :: "val list option"
  rs_Note :: string

record raw_node_type =
  rn_ID :: string
  rn_Stratum :: string
  rn_URNPattern :: string
  rn_Ports :: "raw_ports option"
  rn_Properties :: "(string, raw_property_spec) gomap option"

record raw_additional_pair =
  ra_SrcPort :: string
  ra_TgtPort :: string
  ra_SrcTypes :: "string list option"
  ra_TgtTypes :: "string list option"
  ra_AddedInVersion :: string
  ra_PromotesFragment :: string
  ra_Description :: string

record raw_category =
  rc_ID :: string
  rc_Name :: string
  rc_AllowedRewrites :: "string list option"
  rc_SrcTypes :: "string list option"
  rc_TgtTypes :: "string list option"
  rc_SrcPort :: string
  rc_TgtPort :: string
  rc_AdditionalPortPairs :: "raw_additional_pair list option"
  rc_Authority :: string
  rc_MutateScope :: val
  rc_SyncMode :: string

record raw_colors =
  rk_PortColors :: "string list option"
  rk_Matrix :: "(string, (string, val) gomap option) gomap option"
  rk_PortColorMap :: "(string, string option) gomap option"

record raw_types =
  ry_S2 :: "raw_node_type list option"
  ry_S1 :: "raw_node_type list option"
  ry_Interaction :: "raw_node_type list option"

record ontology =
  o_Version :: string
  o_Types :: raw_types
  o_RewriteCategories :: "raw_category list option"
  o_Colors :: raw_colors

definition zero_ports :: raw_ports where
  "zero_ports = \<lparr> rp_Out = None, rp_In = None, rp_Self = None \<rparr>"

definition zero_property_spec :: raw_property_spec where
  "zero_property_spec = \<lparr> rs_Mutability = '''', rs_AuthorityScope = '''', rs_Type = '''',
     rs_Values = None, rs_Note = '''' \<rparr>"

definition zero_node_type :: raw_node_type where
  "zero_node_type = \<lparr> rn_ID = '''', rn_Stratum = '''', rn_URNPattern = '''', rn_Ports = None,
     rn_Properties = None \<rparr>"

definition zero_additional_pair :: raw_additional_pair where
  "zero_additional_pair = \<lparr> ra_SrcPort = '''', ra_TgtPort = '''', ra_SrcTypes = None,
     ra_TgtTypes = None, ra_AddedInVersion = '''', ra_PromotesFragment = '''', ra_Description = '''' \<rparr>"

definition zero_category :: raw_category where
  "zero_category = \<lparr> rc_ID = '''', rc_Name = '''', rc_AllowedRewrites = None, rc_SrcTypes = None,
     rc_TgtTypes = None, rc_SrcPort = '''', rc_TgtPort = '''', rc_AdditionalPortPairs = None,
     rc_Authority = '''', rc_MutateScope = VNil, rc_SyncMode = '''' \<rparr>"

definition zero_ontology :: ontology where
  "zero_ontology = \<lparr> o_Version = '''', o_Types = \<lparr> ry_S2 = None, ry_S1 = None, ry_Interaction = None \<rparr>,
     o_RewriteCategories = None,
     o_Colors = \<lparr> rk_PortColors = None, rk_Matrix = None, rk_PortColorMap = None \<rparr> \<rparr>"

text \<open>The json tags.\<close>

abbreviation dec_strings :: "string list option dec" where
  "dec_strings \<equiv> dec_slice '''' dec_string"

definition dec_ports :: "raw_ports dec" where
  "dec_ports = dec_struct [
     (''out'', on_field rp_Out rp_Out_update dec_strings),
     (''in'', on_field rp_In rp_In_update dec_strings),
     (''self'', on_field rp_Self rp_Self_update dec_strings)]"

definition dec_property_spec :: "raw_property_spec dec" where
  "dec_property_spec = dec_struct [
     (''mutability'', on_field rs_Mutability rs_Mutability_update dec_string),
     (''authority_scope'', on_field rs_AuthorityScope rs_AuthorityScope_update dec_string),
     (''type'', on_field rs_Type rs_Type_update dec_string),
     (''values'', on_field rs_Values rs_Values_update (dec_slice VNil dec_val)),
     (''note'', on_field rs_Note rs_Note_update dec_string)]"

definition dec_node_type :: "raw_node_type dec" where
  "dec_node_type = dec_struct [
     (''id'', on_field rn_ID rn_ID_update dec_string),
     (''stratum'', on_field rn_Stratum rn_Stratum_update dec_string),
     (''urn_pattern'', on_field rn_URNPattern rn_URNPattern_update dec_string),
     (''ports'', on_field rn_Ports rn_Ports_update (dec_ptr zero_ports dec_ports)),
     (''properties'', on_field rn_Properties rn_Properties_update
        (dec_map zero_property_spec dec_property_spec))]"

definition dec_additional_pair :: "raw_additional_pair dec" where
  "dec_additional_pair = dec_struct [
     (''src_port'', on_field ra_SrcPort ra_SrcPort_update dec_string),
     (''tgt_port'', on_field ra_TgtPort ra_TgtPort_update dec_string),
     (''src_types'', on_field ra_SrcTypes ra_SrcTypes_update dec_strings),
     (''tgt_types'', on_field ra_TgtTypes ra_TgtTypes_update dec_strings),
     (''added_in_version'', on_field ra_AddedInVersion ra_AddedInVersion_update dec_string),
     (''promotes_fragment'', on_field ra_PromotesFragment ra_PromotesFragment_update dec_string),
     (''description'', on_field ra_Description ra_Description_update dec_string)]"

definition dec_category :: "raw_category dec" where
  "dec_category = dec_struct [
     (''id'', on_field rc_ID rc_ID_update dec_string),
     (''name'', on_field rc_Name rc_Name_update dec_string),
     (''allowed_rewrites'', on_field rc_AllowedRewrites rc_AllowedRewrites_update dec_strings),
     (''src_types'', on_field rc_SrcTypes rc_SrcTypes_update dec_strings),
     (''tgt_types'', on_field rc_TgtTypes rc_TgtTypes_update dec_strings),
     (''src_port'', on_field rc_SrcPort rc_SrcPort_update dec_string),
     (''tgt_port'', on_field rc_TgtPort rc_TgtPort_update dec_string),
     (''additional_port_pairs'', on_field rc_AdditionalPortPairs rc_AdditionalPortPairs_update
        (dec_slice zero_additional_pair dec_additional_pair)),
     (''authority'', on_field rc_Authority rc_Authority_update dec_string),
     (''mutate_scope'', on_field rc_MutateScope rc_MutateScope_update dec_val),
     (''sync_mode'', on_field rc_SyncMode rc_SyncMode_update dec_string)]"

definition dec_colors :: "raw_colors dec" where
  "dec_colors = dec_struct [
     (''port_colors'', on_field rk_PortColors rk_PortColors_update dec_strings),
     (''matrix'', on_field rk_Matrix rk_Matrix_update (dec_map None (dec_map VNil dec_val))),
     (''port_color_map'', on_field rk_PortColorMap rk_PortColorMap_update
        (dec_map None (dec_ptr '''' dec_string)))]"

definition dec_types :: "raw_types dec" where
  "dec_types = dec_struct [
     (''s2_infrastructure'', on_field ry_S2 ry_S2_update (dec_slice zero_node_type dec_node_type)),
     (''s1_grammar'', on_field ry_S1 ry_S1_update (dec_slice zero_node_type dec_node_type)),
     (''interaction_nodes'', on_field ry_Interaction ry_Interaction_update (dec_slice zero_node_type dec_node_type))]"

definition dec_ontology :: "ontology dec" where
  "dec_ontology = dec_struct [
     (''version'', on_field o_Version o_Version_update dec_string),
     (''types'', on_field o_Types o_Types_update dec_types),
     (''rewrite_categories'', on_field o_RewriteCategories o_RewriteCategories_update
        (dec_slice zero_category dec_category)),
     (''port_color_compatibility'', on_field o_Colors o_Colors_update dec_colors)]"

section \<open>Errors and log lines\<close>

datatype key_section = ColorMapSection | MatrixSection | MatrixRowSection string

datatype load_error =
    ReadOntology string
  | ParseOntology string
  | DuplicateSectionKey string string string
  | DuplicateKey key_section string string
  | EmptyTypeList string string string
  | MixedTypeList string string string
  | UnknownVocabularyColor string
  | ColorListedTwice string
  | MatrixRowUndeclared string string
  | MatrixRowNull string
  | MatrixColumnUndeclared string string string
  | MatrixCellInvalid string string val
  | PortColorNull string string
  | PortColorEmpty string string
  | PortColorUnknown string string string
  | PortColorUndeclared port_color string string

datatype load_log =
    SelfColored nat
  | LegacyMerge nat nat
  | PortsUncolored "string list"
  | ColorsMismatched "string list"
  | MatrixDisagrees "string list"
  | PortsFromPairs nat nat
  | PortsDriftFound nat nat nat nat


section \<open>Repeated keys in the color section\<close>

fun eachJSONKey :: "jdoc \<Rightarrow> (string \<Rightarrow> jdoc \<Rightarrow> 's \<Rightarrow> load_error + 's) \<Rightarrow> 's \<Rightarrow> load_error + 's" where
  "eachJSONKey (JObj kvs) f s = efold (\<lambda>(key, v). f key v) kvs s"
| "eachJSONKey _ f s = Inr s"

definition unique_key ::
  "key_section \<Rightarrow> string \<Rightarrow> (string \<Rightarrow> jdoc \<Rightarrow> load_error option) \<Rightarrow> string \<Rightarrow> jdoc \<Rightarrow> string list \<Rightarrow>
   load_error + string list" where
  "unique_key sec what each key v seen =
     (if key \<in> set seen then Inl (DuplicateKey sec what key)
      else ebind (echeck (each key v)) (\<lambda>_. Inr (set_add key seen)))"

definition uniqueJSONKeys ::
  "jdoc \<Rightarrow> key_section \<Rightarrow> string \<Rightarrow> (string \<Rightarrow> jdoc \<Rightarrow> load_error option) \<Rightarrow> load_error option" where
  "uniqueJSONKeys raw sec what each =
     (case eachJSONKey raw (unique_key sec what each) [] of Inl err \<Rightarrow> Some err | Inr _ \<Rightarrow> None)"

definition duplicateSectionKey :: "string \<Rightarrow> string \<Rightarrow> string \<Rightarrow> load_error" where
  "duplicateSectionKey sec key first = DuplicateSectionKey sec key first"

definition color_section_step ::
  "string \<Rightarrow> jdoc \<Rightarrow> string \<times> jdoc option \<Rightarrow> load_error + string \<times> jdoc option" where
  "color_section_step key v st =
     (if \<not> EqualFold key ''port_color_compatibility'' then Inr st
      else if fst st \<noteq> '''' then Inl (duplicateSectionKey ''ontology'' key (fst st))
      else Inr (key, Some v))"

definition loaded_name :: "string \<Rightarrow> string" where
  "loaded_name key =
     foldl (\<lambda>nm loaded. if EqualFold key loaded then loaded else nm) ''''
       [''port_colors'', ''matrix'', ''port_color_map'']"

definition section_keys :: "string \<Rightarrow> jdoc \<Rightarrow> load_error option" where
  "section_keys nm v =
     (if nm = ''port_color_map'' then uniqueJSONKeys v ColorMapSection ''port'' (\<lambda>_ _. None)
      else if nm = ''matrix'' then
        uniqueJSONKeys v MatrixSection ''row''
          (\<lambda>row cols. uniqueJSONKeys cols (MatrixRowSection row) ''column'' (\<lambda>_ _. None))
      else None)"

definition section_step ::
  "string \<Rightarrow> jdoc \<Rightarrow> (string, string) gomap \<Rightarrow> load_error + (string, string) gomap" where
  "section_step key v seen =
     (let nm = loaded_name key
      in if nm = '''' then Inr seen
         else case mget seen nm of
           Some prev \<Rightarrow> Inl (duplicateSectionKey ''port_color_compatibility'' key prev)
         | None \<Rightarrow> ebind (echeck (section_keys nm v)) (\<lambda>_. Inr (mput nm key seen)))"

definition checkColorSectionKeys :: "jdoc \<Rightarrow> load_error option" where
  "checkColorSectionKeys data =
     (case eachJSONKey data color_section_step ('''', None) of
        Inl err \<Rightarrow> Some err
      | Inr (_, None) \<Rightarrow> None
      | Inr (_, Some sec) \<Rightarrow>
          (case eachJSONKey sec section_step [] of Inl err \<Rightarrow> Some err | Inr _ \<Rightarrow> None))"

section \<open>Types and rewrite categories\<close>

definition parse_property_spec :: "raw_property_spec \<Rightarrow> property_spec" where
  "parse_property_spec p =
     \<lparr> ps_Mutability = rs_Mutability p, ps_AuthorityScope = rs_AuthorityScope p, ps_Type = rs_Type p,
       ps_Values = elems (rs_Values p), ps_Note = rs_Note p \<rparr>"

definition parseNodeTypeSpec :: "raw_node_type \<Rightarrow> node_type_spec" where
  "parseNodeTypeSpec raw =
     \<lparr> nt_ID = rn_ID raw, nt_Stratum = rn_Stratum raw, nt_URNPattern = rn_URNPattern raw,
       nt_Ports = (case rn_Ports raw of
           None \<Rightarrow> \<lparr> po_Out = None, po_In = None, po_Self = None \<rparr>
         | Some p \<Rightarrow> \<lparr> po_Out = rp_Out p, po_In = rp_In p, po_Self = rp_Self p \<rparr>),
       nt_Properties = copy_into (map (\<lambda>(nm, p). (nm, parse_property_spec p)) (elems (rn_Properties raw))) [] \<rparr>"

fun load_types ::
  "raw_node_type list \<Rightarrow> (type_id, node_type_spec) gomap \<times> type_id list \<Rightarrow>
   (type_id, node_type_spec) gomap \<times> type_id list" where
  "load_types [] st = st"
| "load_types (nt # rest) (types, order) =
     load_types rest (mput (rn_ID nt) (parseNodeTypeSpec nt) types, order @ [rn_ID nt])"

definition all_raw_types :: "ontology \<Rightarrow> raw_node_type list" where
  "all_raw_types raw =
     elems (ry_S2 (o_Types raw)) @ elems (ry_S1 (o_Types raw)) @ elems (ry_Interaction (o_Types raw))"

definition validateTypeList :: "string \<Rightarrow> string \<Rightarrow> string \<Rightarrow> string list \<Rightarrow> load_error option" where
  "validateTypeList wfID pairLabel key types =
     (if types = [] then Some (EmptyTypeList wfID pairLabel key)
      else let hasStar = (''*'' \<in> set types)
        in if hasStar \<and> length types > 1 then Some (MixedTypeList wfID pairLabel key) else None)"

definition parse_pair :: "raw_additional_pair \<Rightarrow> additional_port_pair" where
  "parse_pair app =
     \<lparr> ap_SrcPort = ra_SrcPort app, ap_TgtPort = ra_TgtPort app, ap_SrcTypes = elems (ra_SrcTypes app),
       ap_TgtTypes = elems (ra_TgtTypes app), ap_AddedInVersion = ra_AddedInVersion app,
       ap_PromotesFragment = ra_PromotesFragment app, ap_Description = ra_Description app \<rparr>"

definition primary_label :: "raw_category \<Rightarrow> string" where
  "primary_label w = ''primary pair ('' @ rc_SrcPort w @ '', '' @ rc_TgtPort w @ '')''"

definition pair_label :: "raw_additional_pair \<Rightarrow> string" where
  "pair_label app = ''additional pair ('' @ ra_SrcPort app @ '', '' @ ra_TgtPort app @ '')''"

definition additional_pair_check :: "raw_category \<Rightarrow> raw_additional_pair \<Rightarrow> load_error option" where
  "additional_pair_check w app =
     err_seq (validateTypeList (rc_ID w) (pair_label app) ''src_types'' (elems (ra_SrcTypes app)))
       (validateTypeList (rc_ID w) (pair_label app) ''tgt_types'' (elems (ra_TgtTypes app)))"

definition primary_pair_check :: "raw_category \<Rightarrow> load_error option" where
  "primary_pair_check w =
     (if rc_SrcPort w \<noteq> '''' \<or> rc_TgtPort w \<noteq> '''' then
        err_seq (validateTypeList (rc_ID w) (primary_label w) ''src_types'' (elems (rc_SrcTypes w)))
          (validateTypeList (rc_ID w) (primary_label w) ''tgt_types'' (elems (rc_TgtTypes w)))
      else None)"

definition category_check :: "raw_category \<Rightarrow> load_error option" where
  "category_check w =
     err_seq (primary_pair_check w) (first_err (additional_pair_check w) (elems (rc_AdditionalPortPairs w)))"

definition mutate_scope :: "val \<Rightarrow> string list" where
  "mutate_scope v = (case v of VArr ms \<Rightarrow> List.map_filter as_string ms | _ \<Rightarrow> [])"

definition parse_category :: "raw_category \<Rightarrow> wf_spec" where
  "parse_category w =
     \<lparr> wf_ID = rc_ID w, wf_Name = rc_Name w,
       wf_AllowedRewrites = map rewrite_type_of (elems (rc_AllowedRewrites w)),
       wf_SrcTypes = elems (rc_SrcTypes w), wf_TgtTypes = elems (rc_TgtTypes w),
       wf_SrcPort = rc_SrcPort w, wf_TgtPort = rc_TgtPort w,
       wf_AdditionalPortPairs = map parse_pair (elems (rc_AdditionalPortPairs w)),
       wf_Authority = rc_Authority w, wf_MutateScope = mutate_scope (rc_MutateScope w),
       wf_SyncMode = rc_SyncMode w \<rparr>"

definition load_category ::
  "raw_category \<Rightarrow> (rewrite_category, wf_spec) gomap \<Rightarrow> load_error + (rewrite_category, wf_spec) gomap" where
  "load_category w cats =
     ebind (echeck (category_check w)) (\<lambda>_. Inr (mput (rc_ID w) (parse_category w) cats))"


section \<open>Colors\<close>

abbreviation kernelPortColors :: "port_color list" where
  "kernelPortColors \<equiv> all_colors"

definition knownPortColor :: "port_color \<Rightarrow> bool" where
  "knownPortColor c \<longleftrightarrow> c \<in> set kernelPortColors"

text \<open>A set of colors; nil renders as all eight.\<close>

definition colorList :: "port_color list option \<Rightarrow> string" where
  "colorList cs =
     join '', '' (filter (\<lambda>c. case cs of None \<Rightarrow> True | Some ds \<Rightarrow> c \<in> set ds) kernelPortColors)"

definition declare_color :: "string \<Rightarrow> port_color list \<Rightarrow> load_error + port_color list" where
  "declare_color c declared =
     (if \<not> knownPortColor c then Inl (UnknownVocabularyColor c)
      else if c \<in> set declared then Inl (ColorListedTwice c)
      else Inr (set_add c declared))"

definition declaredPortColors :: "string list option \<Rightarrow> load_error + port_color list" where
  "declaredPortColors raw =
     (case raw of None \<Rightarrow> Inr kernelPortColors | Some names \<Rightarrow> efold declare_color names [])"

fun parseColorCell :: "val \<Rightarrow> color_compat option" where
  "parseColorCell (VBool b) = Some (if b then compatAllowed else compatFalse)"
| "parseColorCell (VStr s) =
     (if s = ''wf15_only'' then Some compatWF15Only
      else if s = ''sink_only'' then Some compatSinkOnly else None)"
| "parseColorCell _ = None"

definition parse_cell ::
  "string \<Rightarrow> (string, val) gomap \<Rightarrow> port_color list \<Rightarrow> string \<Rightarrow> (port_color, color_compat) gomap \<Rightarrow>
   load_error + (port_color, color_compat) gomap" where
  "parse_cell src row declared tgt m =
     (if tgt \<notin> set declared then Inl (MatrixColumnUndeclared src tgt (colorList (Some declared)))
      else let v = (case mget row tgt of None \<Rightarrow> VNil | Some v \<Rightarrow> v)
        in case parseColorCell v of
          None \<Rightarrow> Inl (MatrixCellInvalid src tgt v)
        | Some cell \<Rightarrow> Inr (mput tgt cell m))"

definition parse_row ::
  "(string, (string, val) gomap option) gomap \<Rightarrow> port_color list \<Rightarrow> string \<Rightarrow> port_color_matrix \<Rightarrow>
   load_error + port_color_matrix" where
  "parse_row raw declared src m =
     (if src \<notin> set declared then Inl (MatrixRowUndeclared src (colorList (Some declared)))
      else case (case mget raw src of None \<Rightarrow> None | Some r \<Rightarrow> r) of
          None \<Rightarrow> Inl (MatrixRowNull src)
        | Some row \<Rightarrow>
            ebind (efold (parse_cell src row declared) (sort (mkeys row)) [])
              (\<lambda>cells. Inr (mput src cells m)))"

definition parseColorMatrix ::
  "(string, (string, val) gomap option) gomap \<Rightarrow> port_color list \<Rightarrow> load_error + port_color_matrix" where
  "parseColorMatrix raw declared = efold (parse_row raw declared) (sort (mkeys raw)) []"

definition own_color ::
  "port_color list \<Rightarrow> string \<times> string option \<Rightarrow> (string, port_color) gomap \<Rightarrow>
   load_error + (string, port_color) gomap" where
  "own_color declared entry own =
     (case snd entry of
        None \<Rightarrow> Inl (PortColorNull (fst entry) (colorList (Some declared)))
      | Some colorName \<Rightarrow>
          if colorName = '''' then Inl (PortColorEmpty (fst entry) (colorList (Some declared)))
          else if colorName \<notin> set declared
          then Inl (PortColorUnknown colorName (fst entry) (colorList (Some declared)))
          else Inr (mput (fst entry) colorName own))"

definition declaredPairs :: "wf_spec \<Rightarrow> (string \<times> string) list" where
  "declaredPairs spec =
     (if wf_SrcPort spec \<noteq> '''' \<or> wf_TgtPort spec \<noteq> '''' then [(wf_SrcPort spec, wf_TgtPort spec)] else [])
     @ map (\<lambda>ap. (ap_SrcPort ap, ap_TgtPort ap)) (wf_AdditionalPortPairs spec)"

definition declaredPortEnds :: "registry \<Rightarrow> string list" where
  "declaredPortEnds reg =
     sort (remdups (concat (map (\<lambda>(_, spec). concat (map (\<lambda>(s, t). [s, t]) (declaredPairs spec)))
       (RewriteCategories reg))))"

definition port_color_source ::
  "(string, port_color) gomap \<Rightarrow> string list \<Rightarrow> (string, port_color) gomap \<times> string \<times> load_log list" where
  "port_color_source own ends =
     (let covered = length (filter (\<lambda>port. mget own port \<noteq> None) ends)
      in if length ends > 0 \<and> covered = length ends
         then (copy_into own [], PortColorSourceOntology, [SelfColored (length own)])
         else (copy_into own legacyPortColors, PortColorSourceLegacyMerge,
               if length ends > 0 then [LegacyMerge covered (length ends)] else []))"

definition undeclared_color ::
  "(string, port_color) gomap \<Rightarrow> port_color list \<Rightarrow> string \<Rightarrow> load_error option" where
  "undeclared_color colors declared port =
     (case mget colors port of
        None \<Rightarrow> None
      | Some c \<Rightarrow> err_if (c \<notin> set declared) (PortColorUndeclared c port (colorList (Some declared))))"

definition resolvePortColorSource ::
  "registry \<Rightarrow> (string, port_color) gomap \<Rightarrow> port_color list \<Rightarrow> load_error + registry \<times> load_log list" where
  "resolvePortColorSource reg own declared =
     (let ends = declaredPortEnds reg; (colors, source, logs) = port_color_source own ends
      in case first_err (undeclared_color colors declared) ends of
           Some err \<Rightarrow> Inl err
         | None \<Rightarrow> Inr (reg\<lparr> PortColors := Some colors, PortColorSource := source \<rparr>, logs))"

text \<open>The soft checks of the load: what they log, one text per pair, sorted.\<close>

definition uncoveredPorts :: "registry \<Rightarrow> string list" where
  "uncoveredPorts reg =
     sort (concat (map (\<lambda>(w, spec). concat (map (\<lambda>(s, t).
        map (\<lambda>port. w @ '':'' @ port) (filter (\<lambda>port. mget (elems (PortColors reg)) port = None) [s, t]))
        (declaredPairs spec))) (RewriteCategories reg)))"

definition right_arrow :: string where
  "right_arrow = [CHR 0xE2, CHR 0x86, CHR 0x92]"

definition bool_text :: "bool \<Rightarrow> string" where
  "bool_text b = (if b then ''true'' else ''false'')"

definition mismatch_line :: "registry \<Rightarrow> rewrite_category \<Rightarrow> string \<times> string \<Rightarrow> string list" where
  "mismatch_line reg w pr =
     (case resolvePortColors reg (fst pr) (snd pr) of
        Inl _ \<Rightarrow> []
      | Inr (src, tgt) \<Rightarrow>
          if src \<noteq> tgt then [w @ '' ('' @ fst pr @ '', '' @ snd pr @ '') '' @ src @ ''/'' @ tgt] else [])"

definition disagree_line :: "registry \<Rightarrow> rewrite_category \<Rightarrow> string \<times> string \<Rightarrow> string list" where
  "disagree_line reg w pr =
     (case resolvePortColors reg (fst pr) (snd pr) of
        Inl _ \<Rightarrow> []
      | Inr (src, tgt) \<Rightarrow>
          if PortColorMatrix reg \<noteq> [] \<and> Matrix_Allowed (PortColorMatrix reg) src tgt w \<noteq> (src = tgt)
          then [w @ '' ('' @ fst pr @ '', '' @ snd pr @ '') '' @ src @ right_arrow @ tgt @ '' matrix='' @
                bool_text (src \<noteq> tgt) @ '' equality='' @ bool_text (src = tgt)]
          else [])"

definition pair_lines ::
  "(rewrite_category \<Rightarrow> string \<times> string \<Rightarrow> string list) \<Rightarrow> registry \<Rightarrow> string list" where
  "pair_lines line reg =
     sort (concat (map (\<lambda>(w, spec). concat (map (line w) (declaredPairs spec))) (RewriteCategories reg)))"

definition reportColorGate :: "registry \<Rightarrow> load_log list" where
  "reportColorGate reg =
     (let mismatched = pair_lines (mismatch_line reg) reg; disagree = pair_lines (disagree_line reg) reg
      in (if mismatched \<noteq> [] then [ColorsMismatched mismatched] else []) @
         (if disagree \<noteq> [] then [MatrixDisagrees disagree] else []))"

section \<open>Ports of the node types\<close>

record raw_port_pair =
  pp_src :: string
  pp_tgt :: string
  pp_srcTypes :: "string list"
  pp_tgtTypes :: "string list"

definition rawDeclaredPairs :: "raw_category list \<Rightarrow> raw_port_pair list" where
  "rawDeclaredPairs ws =
     concat (map (\<lambda>w.
       (if rc_SrcPort w \<noteq> '''' \<or> rc_TgtPort w \<noteq> ''''
        then [\<lparr> pp_src = rc_SrcPort w, pp_tgt = rc_TgtPort w, pp_srcTypes = elems (rc_SrcTypes w),
                pp_tgtTypes = elems (rc_TgtTypes w) \<rparr>] else [])
       @ map (\<lambda>ap. \<lparr> pp_src = ra_SrcPort ap, pp_tgt = ra_TgtPort ap, pp_srcTypes = elems (ra_SrcTypes ap),
                pp_tgtTypes = elems (ra_TgtTypes ap) \<rparr>) (elems (rc_AdditionalPortPairs w))) ws)"

definition isPlaceholderPort :: "string \<Rightarrow> bool" where
  "isPlaceholderPort port \<longleftrightarrow>
     length port \<ge> 2 \<and> port ! 0 = CHR ''{'' \<and> port ! (length port - 1) = CHR ''}''"

fun lists_type :: "string list \<Rightarrow> type_id \<Rightarrow> bool" where
  "lists_type [] t = False"
| "lists_type (x # xs) t = (if x = ''*'' \<or> x = t then True else lists_type xs t)"

definition admitsType :: "string list \<Rightarrow> type_id \<Rightarrow> bool" where
  "admitsType ts t = (if length ts = 0 then True else lists_type ts t)"

definition append_port :: "string \<Rightarrow> string list option \<Rightarrow> string list option" where
  "append_port p ps = Some (elems ps @ [p])"

abbreviation no_ports :: port_spec where
  "no_ports \<equiv> \<lparr> po_Out = None, po_In = None, po_Self = None \<rparr>"

definition ports_of :: "(type_id, port_spec) gomap \<Rightarrow> type_id \<Rightarrow> port_spec" where
  "ports_of gen t = (case mget gen t of None \<Rightarrow> no_ports | Some ps \<Rightarrow> ps)"

definition add_pair_ports :: "raw_port_pair \<Rightarrow> type_id \<Rightarrow> port_spec \<Rightarrow> port_spec" where
  "add_pair_ports pr t ps0 =
     (let ps = (if pp_src pr \<noteq> '''' \<and> admitsType (pp_srcTypes pr) t \<and> \<not> containsString (elems (po_Out ps0)) (pp_src pr)
                then ps0\<lparr> po_Out := append_port (pp_src pr) (po_Out ps0) \<rparr> else ps0)
      in if pp_tgt pr \<noteq> '''' \<and> admitsType (pp_tgtTypes pr) t \<and> \<not> containsString (elems (po_In ps)) (pp_tgt pr)
         then ps\<lparr> po_In := append_port (pp_tgt pr) (po_In ps) \<rparr> else ps)"

definition pair_for_types ::
  "type_id list \<Rightarrow> raw_port_pair \<Rightarrow> (type_id, port_spec) gomap \<Rightarrow> (type_id, port_spec) gomap" where
  "pair_for_types typeIDs pr gen =
     (if isPlaceholderPort (pp_src pr) \<or> isPlaceholderPort (pp_tgt pr) then gen
      else fold (\<lambda>t g. mput t (add_pair_ports pr t (ports_of g t)) g) typeIDs gen)"

definition generateTypePorts :: "type_id list \<Rightarrow> raw_category list \<Rightarrow> (type_id, port_spec) gomap" where
  "generateTypePorts typeIDs ws =
     fold (pair_for_types typeIDs) (rawDeclaredPairs ws) (fold (\<lambda>t g. mput t no_ports g) typeIDs [])"

fun set_diff_loop :: "string list \<Rightarrow> string list \<Rightarrow> string list \<Rightarrow> string list" where
  "set_diff_loop [] b out = out"
| "set_diff_loop (x # xs) b out =
     set_diff_loop xs b (if \<not> containsString b x \<and> \<not> containsString out x then out @ [x] else out)"

definition setDiff :: "string list \<Rightarrow> string list \<Rightarrow> string list" where
  "setDiff a b = sort (set_diff_loop a b [])"

definition type_drift :: "port_spec \<Rightarrow> port_spec \<Rightarrow> ports_drift" where
  "type_drift authored gen =
     \<lparr> pd_MissingOut = (case po_Out authored of None \<Rightarrow> [] | Some xs \<Rightarrow> setDiff (elems (po_Out gen)) xs),
       pd_MissingIn = (case po_In authored of None \<Rightarrow> [] | Some xs \<Rightarrow> setDiff (elems (po_In gen)) xs),
       pd_UnpairedOut = (case po_Out authored of None \<Rightarrow> [] | Some xs \<Rightarrow> setDiff xs (elems (po_Out gen))),
       pd_UnpairedIn = (case po_In authored of None \<Rightarrow> [] | Some xs \<Rightarrow> setDiff xs (elems (po_In gen))) \<rparr>"

definition drift_count :: "ports_drift \<Rightarrow> nat" where
  "drift_count d = length (pd_MissingOut d) + length (pd_MissingIn d) + length (pd_UnpairedOut d) + length (pd_UnpairedIn d)"

definition portsDrift ::
  "(type_id, node_type_spec) gomap \<Rightarrow> (type_id, port_spec) gomap \<Rightarrow> (type_id, ports_drift) gomap" where
  "portsDrift nodeTypes gen =
     filter (\<lambda>(_, d). drift_count d > 0)
       (map (\<lambda>(t, spec). (t, type_drift (nt_Ports spec) (ports_of gen t))) nodeTypes)"

text \<open>The list a type is served: an authored empty list that generates nothing stays [].\<close>

definition served_list :: "string list option \<Rightarrow> string list option \<Rightarrow> string list option" where
  "served_list gen authored = (if gen = None \<and> authored \<noteq> None then Some [] else gen)"

definition served_ports :: "(type_id, port_spec) gomap \<Rightarrow> type_id \<Rightarrow> node_type_spec \<Rightarrow> node_type_spec" where
  "served_ports gen t spec =
     spec\<lparr> nt_Ports := (nt_Ports spec)\<lparr>
       po_Out := served_list (po_Out (ports_of gen t)) (po_Out (nt_Ports spec)),
       po_In := served_list (po_In (ports_of gen t)) (po_In (nt_Ports spec)) \<rparr> \<rparr>"

definition resolveTypePorts :: "registry \<Rightarrow> type_id list \<Rightarrow> raw_category list \<Rightarrow> registry \<times> load_log list" where
  "resolveTypePorts reg typeOrder ws =
     (let pairs = length (filter (\<lambda>pr. \<not> isPlaceholderPort (pp_src pr) \<and> \<not> isPlaceholderPort (pp_tgt pr))
                    (rawDeclaredPairs ws))
      in if pairs = 0 then (reg, [])
         else let gen = generateTypePorts typeOrder ws; drift = portsDrift (NodeTypes reg) gen
           in if drift = [] then
                (reg\<lparr> NodeTypes := map (\<lambda>(t, spec). (t, served_ports gen t spec)) (NodeTypes reg),
                      PortsGenerated := True \<rparr>,
                 [PortsFromPairs pairs (length (NodeTypes reg))])
              else
                (reg\<lparr> PortsDrift := drift \<rparr>,
                 [PortsDriftFound (length drift) (length (NodeTypes reg))
                    (sum_list (map (\<lambda>(_, d). length (pd_MissingOut d) + length (pd_MissingIn d)) drift))
                    (sum_list (map (\<lambda>(_, d). length (pd_UnpairedOut d) + length (pd_UnpairedIn d)) drift))]))"

section \<open>Loading\<close>

definition build_registry :: "ontology \<Rightarrow> load_error + registry \<times> load_log list" where
  "build_registry raw =
     (let (types, typeOrder) = load_types (all_raw_types raw) ([], []);
          ws = elems (o_RewriteCategories raw);
          colors = o_Colors raw
      in ebind (efold load_category ws []) (\<lambda>cats.
         ebind (declaredPortColors (rk_PortColors colors)) (\<lambda>declared.
         ebind (case rk_Matrix colors of None \<Rightarrow> Inr [] | Some m \<Rightarrow> parseColorMatrix m declared) (\<lambda>matrix.
         ebind (efold (own_color declared) (elems (rk_PortColorMap colors)) []) (\<lambda>own.
         ebind (resolvePortColorSource
                  (EmptyRegistry\<lparr> Version := o_Version raw, NodeTypes := types, RewriteCategories := cats,
                                  PortColorMatrix := matrix \<rparr>) own declared) (\<lambda>(reg, logs).
           let uncovered = uncoveredPorts reg; (reg', ports) = resolveTypePorts reg typeOrder ws
           in Inr (reg', logs @ (if uncovered \<noteq> [] then [PortsUncolored uncovered] else []) @
                         reportColorGate reg @ ports)))))))"

definition LoadRegistry ::
  "(string \<Rightarrow> string option) \<Rightarrow> (string \<Rightarrow> jdoc option) \<Rightarrow> string \<Rightarrow> load_error + registry \<times> load_log list" where
  "LoadRegistry ReadFile json_parse path =
     (if path = '''' then Inr (EmptyRegistry, [])
      else case ReadFile path of
        None \<Rightarrow> Inl (ReadOntology path)
      | Some data \<Rightarrow>
          (case json_parse data of
             None \<Rightarrow> Inl (ParseOntology path)
           | Some doc \<Rightarrow>
               (case dec_ontology doc zero_ontology of
                  Inl _ \<Rightarrow> Inl (ParseOntology path)
                | Inr raw \<Rightarrow> ebind (echeck (checkColorSectionKeys doc)) (\<lambda>_. build_registry raw))))"

end
