(* ===== verification/LoaderSpec.thy ===== *)
theory LoaderSpec
  imports Loader
begin

text \<open>
  What a successful load guarantees: a closed color section, an own color for every port the
  ontology colors, warnings for exactly the pairs the color gate rejects, and node-type ports that
  are the ports of the declared pairs.
\<close>

section \<open>The color vocabulary\<close>

lemma declaredPortColors_known:
  assumes "declaredPortColors raw = Inr declared"
  shows "set declared \<subseteq> set all_colors"
proof (cases raw)
  case None
  with assms show ?thesis by (simp add: declaredPortColors_def)
next
  case (Some names)
  with assms have "efold declare_color names [] = Inr declared" by (simp add: declaredPortColors_def)
  then show ?thesis
    by (rule efold_inv) (auto simp: declare_color_def knownPortColor_def split: if_splits)
qed

lemma own_colors_declared:
  assumes "efold (own_color declared) es [] = Inr own"
  shows "\<forall>p c. mget own p = Some c \<longrightarrow> c \<in> set declared \<and> c \<noteq> ''''" "wf_map own"
proof -
  show "\<forall>p c. mget own p = Some c \<longrightarrow> c \<in> set declared \<and> c \<noteq> ''''"
    by (rule efold_inv [OF assms]) (fastforce simp: own_color_def split: option.splits if_splits)+
  show "wf_map own"
    by (rule efold_inv [OF assms]) (auto simp: own_color_def split: option.splits if_splits)
qed

text \<open>Each port of the map has the color written for it.\<close>

lemma own_colors_exact:
  assumes "efold (own_color declared) es own0 = Inr own" "distinct (map fst es)" "(p, Some c) \<in> set es"
  shows "mget own p = Some c"
  using assms
proof (induction es arbitrary: own0)
  case Nil
  then show ?case by simp
next
  case (Cons e es)
  from Cons.prems(1) obtain own1 where s: "own_color declared e own0 = Inr own1" "efold (own_color declared) es own1 = Inr own"
    by (auto simp: ok_simps)
  show ?case
  proof (cases "e = (p, Some c)")
    case True
    with s(1) have p: "mget own1 p = Some c" by (auto simp: own_color_def split: if_splits)
    have "p \<notin> fst ` set es" using Cons.prems(2) True by simp
    then show ?thesis
      using efold_inv [OF s(2), of "\<lambda>m. mget m p = Some c"] p
      by (force simp: own_color_def split: option.splits if_splits)
  next
    case False
    with Cons.IH [OF s(2)] Cons.prems show ?thesis by simp
  qed
qed

definition cell_ok :: "color_compat \<Rightarrow> bool" where
  "cell_ok c \<longleftrightarrow> c \<in> {compatAllowed, compatWF15Only, compatSinkOnly, compatFalse}"

definition closed_matrix :: "port_color list \<Rightarrow> port_color_matrix \<Rightarrow> bool" where
  "closed_matrix declared m \<longleftrightarrow>
     (\<forall>src row. mget m src = Some row \<longrightarrow> src \<in> set declared \<and>
        (\<forall>tgt cell. mget row tgt = Some cell \<longrightarrow> tgt \<in> set declared \<and> cell_ok cell))"

lemma parseColorCell_ok: "parseColorCell v = Some c \<Longrightarrow> cell_ok c"
  by (cases v rule: parseColorCell.cases) (auto simp: cell_ok_def split: if_splits)

lemma parse_cells_closed:
  assumes "efold (parse_cell src row declared) ts [] = Inr cells"
  shows "\<forall>tgt cell. mget cells tgt = Some cell \<longrightarrow> tgt \<in> set declared \<and> cell_ok cell"
  by (rule efold_inv [OF assms])
    (auto simp: parse_cell_def Let_def dest: parseColorCell_ok split: if_splits option.splits)

lemma parseColorMatrix_closed:
  assumes "parseColorMatrix raw declared = Inr m"
  shows "closed_matrix declared m"
proof -
  have "efold (parse_row raw declared) (sort (mkeys raw)) [] = Inr m"
    using assms by (simp add: parseColorMatrix_def)
  then show ?thesis
  proof (rule efold_inv)
    show "closed_matrix declared []" by (simp add: closed_matrix_def)
  next
    fix src m m'
    assume m: "closed_matrix declared m" "parse_row raw declared src m = Inr m'"
    then obtain row cells where "src \<in> set declared" "efold (parse_cell src row declared) (sort (mkeys row)) [] = Inr cells"
      "m' = mput src cells m"
      by (auto simp: parse_row_def ok_simps split: if_splits option.splits)
    with m(1) parse_cells_closed show "closed_matrix declared m'"
      by (auto simp: closed_matrix_def)
  qed
qed

section \<open>Where port colors come from\<close>

lemma port_color_source_cases:
  assumes "port_color_source own ends = (colors, src, logs)"
  shows "colors = copy_into own [] \<and> src = PortColorSourceOntology \<and> ends \<noteq> [] \<and> (\<forall>p\<in>set ends. mget own p \<noteq> None) \<or>
     colors = copy_into own legacyPortColors \<and> src = PortColorSourceLegacyMerge" (is ?cases)
    and "PortsUncolored ls \<notin> set logs \<and> ColorsMismatched ls \<notin> set logs" (is ?quiet)
proof -
  let ?c = "length (filter (\<lambda>port. mget own port \<noteq> None) ends)"
  have "?cases \<and> ?quiet"
  proof (cases "length ends > 0 \<and> ?c = length ends")
    case True
    then have all: "\<forall>p\<in>set ends. mget own p \<noteq> None"
      using length_filter_less [of _ ends "\<lambda>port. mget own port \<noteq> None"] by fastforce
    from assms have "colors = copy_into own [] \<and> src = PortColorSourceOntology \<and> logs = [SelfColored (length own)]"
      unfolding port_color_source_def Let_def if_P [OF True] by blast
    with all True show ?thesis by auto
  next
    case False
    from assms have "colors = copy_into own legacyPortColors \<and> src = PortColorSourceLegacyMerge \<and>
        logs = (if length ends > 0 then [LegacyMerge ?c (length ends)] else [])"
      unfolding port_color_source_def Let_def if_not_P [OF False] by blast
    then show ?thesis by auto
  qed
  then show ?cases ?quiet by blast+
qed

lemma resolve_source_Inr:
  "resolvePortColorSource reg own declared = Inr (reg', logs) \<longleftrightarrow>
   (\<exists>colors src. port_color_source own (declaredPortEnds reg) = (colors, src, logs) \<and>
      reg' = reg\<lparr> PortColors := Some colors, PortColorSource := src \<rparr> \<and>
      (\<forall>port\<in>set (declaredPortEnds reg). undeclared_color colors declared port = None))"
  by (auto simp: resolvePortColorSource_def Let_def split: prod.splits option.splits simp flip: first_err_None)

lemma set_declaredPortEnds:
  "set (declaredPortEnds reg) =
     (\<Union>(w, spec)\<in>set (RewriteCategories reg). \<Union>(s, t)\<in>set (declaredPairs spec). {s, t})"
  by (simp add: declaredPortEnds_def split_def)

lemma declaredPortEnds_pair:
  "(w, spec) \<in> set (RewriteCategories reg) \<Longrightarrow> (s, t) \<in> set (declaredPairs spec) \<Longrightarrow>
   s \<in> set (declaredPortEnds reg) \<and> t \<in> set (declaredPortEnds reg)"
  unfolding set_declaredPortEnds by blast


section \<open>What the load warns about\<close>

lemma uncoveredPorts_Nil:
  "uncoveredPorts reg = [] \<longleftrightarrow>
   (\<forall>(w, spec)\<in>set (RewriteCategories reg). \<forall>pr\<in>set (declaredPairs spec).
      mget (elems (PortColors reg)) (fst pr) \<noteq> None \<and> mget (elems (PortColors reg)) (snd pr) \<noteq> None)"
proof -
  have "filter (\<lambda>port. mget m port = None) [s, t] = [] \<longleftrightarrow> mget m s \<noteq> None \<and> mget m t \<noteq> None"
    for m :: "(string, port_color) gomap" and s t
    by auto
  then show ?thesis by (simp add: uncoveredPorts_def split_def flip: set_empty del: filter.simps not_None_eq)
qed

lemma pair_lines_Nil:
  "pair_lines line reg = [] \<longleftrightarrow>
   (\<forall>(w, spec)\<in>set (RewriteCategories reg). \<forall>pr\<in>set (declaredPairs spec). line w pr = [])"
  by (simp add: pair_lines_def split_def flip: set_empty)

definition nonempty_colors :: "registry \<Rightarrow> bool" where
  "nonempty_colors reg \<longleftrightarrow> (\<exists>m. PortColors reg = Some m \<and> (\<forall>p c. mget m p = Some c \<longrightarrow> c \<noteq> ''''))"

lemma port_color_of_nonempty:
  "nonempty_colors reg \<Longrightarrow> port_color_of reg p = mget (elems (PortColors reg)) p"
  by (fastforce simp: nonempty_colors_def port_color_of_def split: option.splits)

lemma mismatch_line_Nil:
  "mismatch_line reg w (s, t) = [] \<longleftrightarrow>
   (\<forall>a b. port_color_of reg s = Some a \<and> port_color_of reg t = Some b \<longrightarrow> a = b)"
proof (cases "resolvePortColors reg s t")
  case (Inl m)
  then have "port_color_of reg s = None \<or> port_color_of reg t = None"
    by (simp flip: resolvePortColors_Inl)
  with Inl show ?thesis by (auto simp: mismatch_line_def)
next
  case (Inr ab)
  obtain a b where ab: "ab = (a, b)" by force
  with Inr have "port_color_of reg s = Some a" "port_color_of reg t = Some b"
    by (simp_all add: resolvePortColors_Inr)
  with Inr ab show ?thesis by (simp add: mismatch_line_def)
qed

text \<open>A declared pair is sound when its ends have one and the same color.\<close>

definition sound_pair :: "registry \<Rightarrow> string \<times> string \<Rightarrow> bool" where
  "sound_pair reg pr \<longleftrightarrow> (\<exists>c. port_color_of reg (fst pr) = Some c \<and> port_color_of reg (snd pr) = Some c)"

lemma silent_iff_sound:
  assumes "nonempty_colors reg"
  shows "uncoveredPorts reg = [] \<and> pair_lines (mismatch_line reg) reg = [] \<longleftrightarrow>
    (\<forall>(w, spec)\<in>set (RewriteCategories reg). \<forall>pr\<in>set (declaredPairs spec). sound_pair reg pr)"
proof -
  have "(mget (elems (PortColors reg)) (fst pr) \<noteq> None \<and> mget (elems (PortColors reg)) (snd pr) \<noteq> None) \<and>
      mismatch_line reg w pr = [] \<longleftrightarrow> sound_pair reg pr" for w pr
    by (cases pr) (auto simp: mismatch_line_Nil sound_pair_def port_color_of_nonempty [OF assms])
  then show ?thesis unfolding uncoveredPorts_Nil pair_lines_Nil split_def by blast
qed

lemma reportColorGate_log:
  "(\<exists>ls. ColorsMismatched ls \<in> set (reportColorGate reg)) \<longleftrightarrow> pair_lines (mismatch_line reg) reg \<noteq> []"
  "PortsUncolored ls \<notin> set (reportColorGate reg)"
  by (auto simp: reportColorGate_def Let_def)

section \<open>Ports generated from the declared pairs\<close>

lemma lists_type_iff [simp]: "lists_type ts t \<longleftrightarrow> ''*'' \<in> set ts \<or> t \<in> set ts"
  by (induction ts) auto

lemma admitsType_iff: "admitsType ts t \<longleftrightarrow> ts = [] \<or> ''*'' \<in> set ts \<or> t \<in> set ts"
  by (simp add: admitsType_def)

definition nameable :: "raw_port_pair \<Rightarrow> bool" where
  "nameable pr \<longleftrightarrow> \<not> isPlaceholderPort (pp_src pr) \<and> \<not> isPlaceholderPort (pp_tgt pr)"

definition out_ports :: "raw_port_pair list \<Rightarrow> type_id \<Rightarrow> string set" where
  "out_ports prs t = {pp_src pr | pr. pr \<in> set prs \<and> nameable pr \<and> pp_src pr \<noteq> '''' \<and> admitsType (pp_srcTypes pr) t}"

definition in_ports :: "raw_port_pair list \<Rightarrow> type_id \<Rightarrow> string set" where
  "in_ports prs t = {pp_tgt pr | pr. pr \<in> set prs \<and> nameable pr \<and> pp_tgt pr \<noteq> '''' \<and> admitsType (pp_tgtTypes pr) t}"

lemma elems_append_port [simp]: "elems (append_port p ps) = elems ps @ [p]"
  by (simp add: append_port_def)

text \<open>What one pair adds to the ports of a type.\<close>

definition ports_sets :: "port_spec \<Rightarrow> string set \<times> string set" where
  "ports_sets ps = (set (elems (po_Out ps)), set (elems (po_In ps)))"

definition pair_out :: "raw_port_pair \<Rightarrow> type_id \<Rightarrow> string set" where
  "pair_out pr t = {p. p = pp_src pr \<and> p \<noteq> '''' \<and> admitsType (pp_srcTypes pr) t}"

definition pair_in :: "raw_port_pair \<Rightarrow> type_id \<Rightarrow> string set" where
  "pair_in pr t = {p. p = pp_tgt pr \<and> p \<noteq> '''' \<and> admitsType (pp_tgtTypes pr) t}"

lemma ports_sets_add:
  "ports_sets (add_pair_ports pr t ps) =
     (fst (ports_sets ps) \<union> pair_out pr t, snd (ports_sets ps) \<union> pair_in pr t)"
  by (auto simp: ports_sets_def add_pair_ports_def Let_def pair_out_def pair_in_def)

lemma fold_add_ports:
  "ports_sets (ports_of (fold (\<lambda>t g. mput t (add_pair_ports pr t (ports_of g t)) g) ts gen) t) =
     (if t \<in> set ts then (fst (ports_sets (ports_of gen t)) \<union> pair_out pr t, snd (ports_sets (ports_of gen t)) \<union> pair_in pr t)
      else ports_sets (ports_of gen t))"
proof (induction ts arbitrary: gen)
  case Nil
  then show ?case by simp
next
  case (Cons x ts)
  have "ports_sets (ports_of (mput x (add_pair_ports pr x (ports_of gen x)) gen) t) =
     (if t = x then (fst (ports_sets (ports_of gen t)) \<union> pair_out pr t, snd (ports_sets (ports_of gen t)) \<union> pair_in pr t)
      else ports_sets (ports_of gen t))"
    by (simp add: ports_of_def ports_sets_add [unfolded ports_of_def])
  then show ?case by (auto simp: Cons.IH)
qed

lemma ports_sets_pair_for_types:
  "t \<in> set ts \<Longrightarrow> ports_sets (ports_of (pair_for_types ts pr gen) t) =
     (fst (ports_sets (ports_of gen t)) \<union> (if nameable pr then pair_out pr t else {}),
      snd (ports_sets (ports_of gen t)) \<union> (if nameable pr then pair_in pr t else {}))"
  by (auto simp: pair_for_types_def nameable_def fold_add_ports)

lemma ports_sets_fold_pairs:
  "t \<in> set ts \<Longrightarrow> ports_sets (ports_of (fold (pair_for_types ts) prs gen) t) =
     (fst (ports_sets (ports_of gen t)) \<union> out_ports prs t, snd (ports_sets (ports_of gen t)) \<union> in_ports prs t)"
proof (induction prs arbitrary: gen)
  case Nil
  then show ?case by (simp add: out_ports_def in_ports_def)
next
  case (Cons pr prs)
  have "out_ports (pr # prs) t = (if nameable pr then pair_out pr t else {}) \<union> out_ports prs t"
    "in_ports (pr # prs) t = (if nameable pr then pair_in pr t else {}) \<union> in_ports prs t"
    by (auto simp: out_ports_def in_ports_def pair_out_def pair_in_def)
  with Cons show ?case by (simp add: ports_sets_pair_for_types Un_assoc)
qed

lemma ports_of_zero: "ports_sets (ports_of (fold (\<lambda>t g. mput t no_ports g) ts gen) t) =
    (if t \<in> set ts then ({}, {}) else ports_sets (ports_of gen t))"
  by (induction ts arbitrary: gen) (auto simp: ports_of_def ports_sets_def)

lemma generateTypePorts_sets:
  "t \<in> set ts \<Longrightarrow> ports_sets (ports_of (generateTypePorts ts ws) t) =
     (out_ports (rawDeclaredPairs ws) t, in_ports (rawDeclaredPairs ws) t)"
  by (simp add: generateTypePorts_def ports_sets_fold_pairs ports_of_zero)

lemma set_set_diff_loop: "set (set_diff_loop a b out) = set out \<union> (set a - set b)"
  by (induction a arbitrary: out) auto

lemma setDiff_Nil: "setDiff a b = [] \<longleftrightarrow> set a \<subseteq> set b"
  by (simp add: setDiff_def set_set_diff_loop flip: set_empty)

lemma no_type_drift:
  "drift_count (type_drift authored gen) = 0 \<longleftrightarrow>
   (\<forall>xs. po_Out authored = Some xs \<longrightarrow> set xs = fst (ports_sets gen)) \<and>
   (\<forall>xs. po_In authored = Some xs \<longrightarrow> set xs = snd (ports_sets gen))"
  by (auto simp: drift_count_def type_drift_def ports_sets_def setDiff_Nil split: option.splits)

lemma portsDrift_Nil:
  "portsDrift types gen = [] \<longleftrightarrow>
   (\<forall>(t, spec)\<in>set types. drift_count (type_drift (nt_Ports spec) (ports_of gen t)) = 0)"
  by (auto simp: portsDrift_def filter_empty_conv)

lemma elems_served_list [simp]: "elems (served_list gen authored) = elems gen"
  by (auto simp: served_list_def)

lemma resolveTypePorts_keeps:
  assumes "resolveTypePorts reg order ws = (reg', logs)"
  shows "RewriteCategories reg' = RewriteCategories reg" "PortColors reg' = PortColors reg"
    "PortColorMatrix reg' = PortColorMatrix reg" "PortColorSource reg' = PortColorSource reg"
    "Version reg' = Version reg" "mkeys (NodeTypes reg') = mkeys (NodeTypes reg)"
    "PortsUncolored ls \<notin> set logs" "ColorsMismatched ls \<notin> set logs"
  using assms by (auto simp: resolveTypePorts_def Let_def split: if_splits)


section \<open>A successful load\<close>

lemma build_registry_Inr:
  assumes "build_registry raw = Inr (reg, logs)"
  obtains cats declared matrix own colors src reg1 logs1 ports where
    "efold load_category (elems (o_RewriteCategories raw)) [] = Inr cats"
    "declaredPortColors (rk_PortColors (o_Colors raw)) = Inr declared"
    "closed_matrix declared matrix"
    "efold (own_color declared) (elems (rk_PortColorMap (o_Colors raw))) [] = Inr own"
    "RewriteCategories reg1 = cats" "PortColorMatrix reg1 = matrix" "PortColors reg1 = Some colors"
    "PortColorSource reg1 = src" "NodeTypes reg1 = fst (load_types (all_raw_types raw) ([], []))"
    "\<not> PortsGenerated reg1" "PortsDrift reg1 = []"
    "port_color_source own (declaredPortEnds reg1) = (colors, src, logs1)"
    "\<forall>port\<in>set (declaredPortEnds reg1). undeclared_color colors declared port = None"
    "resolveTypePorts reg1 (snd (load_types (all_raw_types raw) ([], []))) (elems (o_RewriteCategories raw)) = (reg, ports)"
    "logs = logs1 @ (if uncoveredPorts reg1 \<noteq> [] then [PortsUncolored (uncoveredPorts reg1)] else []) @
       reportColorGate reg1 @ ports"
proof -
  let ?lt = "load_types (all_raw_types raw) ([], [])"
  obtain cats declared matrix own reg1 logs1 where
    s: "efold load_category (elems (o_RewriteCategories raw)) [] = Inr cats"
      "declaredPortColors (rk_PortColors (o_Colors raw)) = Inr declared"
      "(case rk_Matrix (o_Colors raw) of None \<Rightarrow> Inr [] | Some m \<Rightarrow> parseColorMatrix m declared) = Inr matrix"
      "efold (own_color declared) (elems (rk_PortColorMap (o_Colors raw))) [] = Inr own"
      "resolvePortColorSource (EmptyRegistry\<lparr> Version := o_Version raw, NodeTypes := fst ?lt,
         RewriteCategories := cats, PortColorMatrix := matrix \<rparr>) own declared = Inr (reg1, logs1)"
    and r: "reg = fst (resolveTypePorts reg1 (snd ?lt) (elems (o_RewriteCategories raw)))"
      "logs = logs1 @ (if uncoveredPorts reg1 \<noteq> [] then [PortsUncolored (uncoveredPorts reg1)] else []) @
         reportColorGate reg1 @ snd (resolveTypePorts reg1 (snd ?lt) (elems (o_RewriteCategories raw)))"
    using assms unfolding build_registry_def Let_def split_def ebind_Inr sum.inject prod.inject by (metis surjective_pairing)
  obtain ports where ports: "resolveTypePorts reg1 (snd ?lt) (elems (o_RewriteCategories raw)) = (reg, ports)"
    "logs = logs1 @ (if uncoveredPorts reg1 \<noteq> [] then [PortsUncolored (uncoveredPorts reg1)] else []) @
       reportColorGate reg1 @ ports"
    using r by (metis surjective_pairing)
  have m: "closed_matrix declared matrix"
    using s(3) parseColorMatrix_closed by (auto simp: closed_matrix_def split: option.splits)
  obtain colors src where reg1: "reg1 = EmptyRegistry\<lparr> Version := o_Version raw, NodeTypes := fst ?lt,
         RewriteCategories := cats, PortColorMatrix := matrix, PortColors := Some colors, PortColorSource := src \<rparr>"
    and c: "port_color_source own (declaredPortEnds reg1) = (colors, src, logs1)"
      "\<forall>port\<in>set (declaredPortEnds reg1). undeclared_color colors declared port = None"
    using s(5) unfolding resolve_source_Inr by (auto simp: declaredPortEnds_def)
  show thesis
    by (rule that [OF s(1,2) m s(4) _ _ _ _ _ _ _ c ports]) (simp_all add: reg1 EmptyRegistry_def)
qed

lemma loaded_colors_nonempty:
  assumes "port_color_source own ends = (colors, src, logs)" "wf_map own"
    and "\<forall>p c. mget own p = Some c \<longrightarrow> c \<in> set declared \<and> c \<noteq> ''''"
  shows "mget colors p = Some c \<Longrightarrow> c \<noteq> ''''"
  using port_color_source_cases(1) [OF assms(1)] assms(2,3) legacy_color_nonempty [of p c]
  by (fastforce simp: mget_copy_into split: option.splits)

lemma own_color_wins:
  assumes "port_color_source own ends = (colors, src, logs)" "wf_map own" "mget own p = Some c"
  shows "mget colors p = Some c"
  using port_color_source_cases(1) [OF assms(1)] assms(2,3) by (auto simp: mget_copy_into)

lemma load_category_inv:
  assumes "efold load_category ws [] = Inr cats"
  shows "wf_map cats \<and> (\<forall>k spec. mget cats k = Some spec \<longrightarrow>
    (\<exists>w\<in>set ws. k = rc_ID w \<and> spec = parse_category w \<and> category_check w = None))"
proof (rule efold_inv [OF assms])
  show "wf_map ([] :: (rewrite_category, wf_spec) gomap) \<and> (\<forall>k spec. mget [] k = Some spec \<longrightarrow>
    (\<exists>w\<in>set ws. k = rc_ID w \<and> spec = parse_category w \<and> category_check w = None))" by simp
qed (auto simp: load_category_def ok_simps)

text \<open>Every list of admitted types a declared pair carries is usable: not empty, no mixed wildcard.\<close>

definition good_type_list :: "string list \<Rightarrow> bool" where
  "good_type_list ts \<longleftrightarrow> ts \<noteq> [] \<and> (''*'' \<in> set ts \<longrightarrow> ts = [''*''])"

lemma validateTypeList_None: "validateTypeList w l k ts = None \<longleftrightarrow> good_type_list ts"
proof -
  have "\<not> (''*'' \<in> set ts \<and> length ts > 1) \<longleftrightarrow> (''*'' \<in> set ts \<longrightarrow> ts = [''*''])" if "ts \<noteq> []"
    using that by (cases ts; cases "tl ts") auto
  then show ?thesis by (auto simp: validateTypeList_def good_type_list_def Let_def)
qed

lemma category_check_None:
  "category_check w = None \<longleftrightarrow>
   (rc_SrcPort w \<noteq> '''' \<or> rc_TgtPort w \<noteq> '''' \<longrightarrow>
      good_type_list (elems (rc_SrcTypes w)) \<and> good_type_list (elems (rc_TgtTypes w))) \<and>
   (\<forall>ap\<in>set (elems (rc_AdditionalPortPairs w)).
      good_type_list (elems (ra_SrcTypes ap)) \<and> good_type_list (elems (ra_TgtTypes ap)))"
  by (simp add: category_check_def primary_pair_check_def additional_pair_check_def validateTypeList_None)

section \<open>Unique keys\<close>

lemma uniqueJSONKeys_None:
  "uniqueJSONKeys (JObj kvs) sec what each = None \<longleftrightarrow>
   distinct (map fst kvs) \<and> (\<forall>(k, v)\<in>set kvs. each k v = None)"
proof -
  have "(\<exists>out. efold (\<lambda>(key, v). unique_key sec what each key v) kvs seen = Inr out) \<longleftrightarrow>
      distinct (map fst kvs) \<and> set seen \<inter> fst ` set kvs = {} \<and> (\<forall>(k, v)\<in>set kvs. each k v = None)" for seen
  proof (induction kvs arbitrary: seen)
    case Nil
    then show ?case by simp
  next
    case (Cons a kvs)
    obtain k v where a: "a = (k, v)" by force
    have "(\<exists>out. efold (\<lambda>(key, v). unique_key sec what each key v) (a # kvs) seen = Inr out) \<longleftrightarrow>
        k \<notin> set seen \<and> each k v = None \<and>
        (\<exists>out. efold (\<lambda>(key, v). unique_key sec what each key v) kvs (set_add k seen) = Inr out)"
      by (auto simp: a unique_key_def ok_simps)
    then show ?case by (auto simp: a Cons.IH)
  qed
  from this [of "[]"] show ?thesis
    by (auto simp: uniqueJSONKeys_def split: sum.splits)
qed

text \<open>The scan passes at most one section, and at most one value per loaded key in it.\<close>

abbreviation is_color_section :: "string \<times> jdoc \<Rightarrow> bool" where
  "is_color_section kv \<equiv> EqualFold (fst kv) ''port_color_compatibility''"

lemma EqualFold_Nil: "\<not> EqualFold '''' ''port_color_compatibility''"
  by code_simp

lemma color_sections_once:
  assumes "efold (\<lambda>(key, v). color_section_step key v) kvs ('''', None) = Inr st"
  shows "filter is_color_section kvs = [] \<and> snd st = None \<or>
    (\<exists>k v. filter is_color_section kvs = [(k, v)] \<and> snd st = Some v)"
proof -
  let ?f = "\<lambda>(key, v). color_section_step key v"
  have "efold ?f kvs ('''', None) = efold ?f (filter is_color_section kvs) ('''', None)"
    by (rule efold_filter) (auto simp: color_section_step_def)
  with assms have e: "efold ?f (filter is_color_section kvs) ('''', None) = Inr st" by simp
  have all: "\<forall>x\<in>set (filter is_color_section kvs). is_color_section x" by simp
  show ?thesis
  proof (cases "filter is_color_section kvs")
    case Nil
    with e show ?thesis by auto
  next
    case (Cons a rest)
    with all EqualFold_Nil have a: "is_color_section a" "fst a \<noteq> ''''" by auto
    then have 1: "?f a ('''', None) = Inr (fst a, Some (snd a))"
      by (cases a) (simp add: color_section_step_def)
    show ?thesis
    proof (cases rest)
      case Nil
      with e Cons 1 show ?thesis by (cases a) auto
    next
      fix b bs assume b: "rest = b # bs"
      with all Cons have "is_color_section b" by auto
      with a(2) have "?f b (fst a, Some (snd a)) = Inl (duplicateSectionKey ''ontology'' (fst b) (fst a))"
        by (cases b) (simp add: color_section_step_def)
      with e Cons b 1 show ?thesis by simp
    qed
  qed
qed

lemma section_step_seen:
  assumes "efold (\<lambda>(key, v). section_step key v) sec seen = Inr seen'" "mget seen nm \<noteq> None" "nm \<noteq> ''''"
  shows "filter (\<lambda>kv. loaded_name (fst kv) = nm) sec = []"
  using assms
proof (induction sec arbitrary: seen)
  case Nil
  then show ?case by simp
next
  case (Cons a sec)
  obtain k v where a: "a = (k, v)" by force
  with Cons.prems obtain seen1 where s: "section_step k v seen = Inr seen1"
    "efold (\<lambda>(key, v). section_step key v) sec seen1 = Inr seen'"
    by (auto simp: ok_simps)
  have ne: "loaded_name k \<noteq> nm" using s(1) Cons.prems(2,3) by (auto simp: section_step_def Let_def)
  have "mget seen1 nm \<noteq> None"
    using s(1) Cons.prems(2) by (auto simp: section_step_def Let_def ok_simps split: if_splits option.splits)
  from Cons.IH [OF s(2) this Cons.prems(3)] ne a show ?case by simp
qed

lemma section_keys_once:
  assumes "efold (\<lambda>(key, v). section_step key v) sec seen = Inr seen'" "nm \<noteq> ''''"
    and "(k, v) \<in> set sec" "loaded_name k = nm"
  shows "filter (\<lambda>kv. loaded_name (fst kv) = nm) sec = [(k, v)] \<and> section_keys nm v = None"
  using assms(1,3)
proof (induction sec arbitrary: seen)
  case Nil
  then show ?case by simp
next
  case (Cons a sec)
  obtain k' v' where a: "a = (k', v')" by force
  with Cons.prems obtain seen1 where s: "section_step k' v' seen = Inr seen1"
    "efold (\<lambda>(key, v). section_step key v) sec seen1 = Inr seen'"
    by (auto simp: ok_simps)
  show ?case
  proof (cases "loaded_name k' = nm")
    case False
    with Cons.prems(2) a assms(4) have "(k, v) \<in> set sec" by auto
    from Cons.IH [OF s(2) this] False a show ?thesis by simp
  next
    case True
    with s(1) assms(2) have seen1: "seen1 = mput nm k' seen" "section_keys nm v' = None"
      by (auto simp: section_step_def Let_def ok_simps split: option.splits)
    then have rest: "filter (\<lambda>kv. loaded_name (fst kv) = nm) sec = []"
      using section_step_seen [OF s(2) _ assms(2)] by simp
    then have "(k, v) \<notin> set sec" using assms(4) by (auto simp: filter_empty_conv)
    with Cons.prems(2) a True rest seen1(2) show ?thesis by auto
  qed
qed

section \<open>Decoding one attribute of a struct\<close>

lemma dec_struct_field:
  assumes "efold (\<lambda>(k, d) r. case field_for fs k of None \<Rightarrow> Inr r | Some f \<Rightarrow> f d r) kvs r0 = Inr r"
    and "\<And>k d. (k, d) \<in> set kvs \<Longrightarrow> P k \<Longrightarrow> field_for fs k = Some (on_field get upd f)"
    and "\<And>k d g r r'. (k, d) \<in> set kvs \<Longrightarrow> \<not> P k \<Longrightarrow> field_for fs k = Some g \<Longrightarrow> g d r = Inr r' \<Longrightarrow> get r' = get r"
    and "\<And>x r. get (upd (\<lambda>_. x) r) = x"
  shows "efold (\<lambda>(k, d) x. f d x) (filter (\<lambda>kv. P (fst kv)) kvs) (get r0) = Inr (get r)"
  using assms(1-3)
proof (induction kvs arbitrary: r0)
  case Nil
  then show ?case by simp
next
  case (Cons a kvs)
  obtain k d where a: "a = (k, d)" by force
  with Cons.prems(1) obtain r1 where s: "(case field_for fs k of None \<Rightarrow> Inr r0 | Some f \<Rightarrow> f d r0) = Inr r1"
    "efold (\<lambda>(k, d) r. case field_for fs k of None \<Rightarrow> Inr r | Some f \<Rightarrow> f d r) kvs r1 = Inr r"
    by (auto simp: ok_simps)
  have IH: "efold (\<lambda>(k, d) x. f d x) (filter (\<lambda>kv. P (fst kv)) kvs) (get r1) = Inr (get r)"
  proof (rule Cons.IH [OF s(2)])
    fix k d assume "(k, d) \<in> set kvs" "P k"
    then show "field_for fs k = Some (on_field get upd f)" using Cons.prems(2) [of k d] by simp
  next
    fix k d g r r' assume "(k, d) \<in> set kvs" "\<not> P k" "field_for fs k = Some g" "g d r = Inr r'"
    then show "get r' = get r" using Cons.prems(3) [of k d g r r'] by simp
  qed
  show ?case
  proof (cases "P k")
    case True
    with Cons.prems(2) [of k d] a s(1) have "on_field get upd f d r0 = Inr r1" by simp
    then have "f d (get r0) = Inr (get r1)"
      by (auto simp: on_field_def ok_simps assms(4))
    with True IH a show ?thesis by simp
  next
    case False
    with Cons.prems(3) [of k d] a s(1) have "get r1 = get r0" by (auto split: option.splits)
    with False IH a show ?thesis by simp
  qed
qed


section \<open>Types\<close>

lemma load_types_keys:
  "set (mkeys (fst (load_types nts ([], [])))) \<subseteq> set (snd (load_types nts ([], [])))"
proof -
  have "set (mkeys (fst (load_types nts (types, order)))) \<subseteq> set (mkeys types) \<union> rn_ID ` set nts"
    "set order \<union> rn_ID ` set nts \<subseteq> set (snd (load_types nts (types, order)))" for types order
  proof (induction nts arbitrary: types order)
    case (Cons a nts)
    { case 1
      show ?case using Cons.IH(1) [of "mput (rn_ID a) (parseNodeTypeSpec a) types" "order @ [rn_ID a]"]
        by (auto simp: mkeys_put simp del: set_map)
    next
      case 2
      show ?case using Cons.IH(2) [of "order @ [rn_ID a]" "mput (rn_ID a) (parseNodeTypeSpec a) types"] by auto }
  qed simp_all
  from this [of "[]" "[]"] show ?thesis by auto
qed

end
