(* ===== verification/LoaderProperties.thy ===== *)
theory LoaderProperties
  imports LoaderSpec
begin

text \<open>
  The properties of internal/operad/loader.go, with a small ontology document for the witnesses.
\<close>

section \<open>A small ontology\<close>

definition ex_types :: jdoc where
  "ex_types = JArr [JObj [(''id'', JStr ''task''), (''stratum'', JStr ''S2''),
     (''ports'', JObj [(''out'', JArr [JStr ''causes''])])]]"

definition ex_wf :: "(string \<times> jdoc) list \<Rightarrow> jdoc" where
  "ex_wf extra = JObj ([(''id'', JStr ''WF21''), (''allowed_rewrites'', JArr [JStr ''LINK'']),
     (''src_types'', JArr [JStr ''*'']), (''tgt_types'', JArr [JStr ''*'']),
     (''src_port'', JStr ''causes''), (''tgt_port'', JStr ''caused-by'')] @ extra)"

definition ex_map :: "string \<Rightarrow> string \<Rightarrow> (string \<times> jdoc) list" where
  "ex_map c d = [(''causes'', JStr c), (''caused-by'', JStr d)]"

definition ex_section :: "string \<Rightarrow> string \<Rightarrow> (string \<times> jdoc) list" where
  "ex_section c d = [(''port_colors'', JArr [JStr ''auth'', JStr ''storage'']),
     (''matrix'', JObj [(''auth'', JObj [(''auth'', JBool True)])]), (''port_color_map'', JObj (ex_map c d))]"

definition ex_entries :: "string \<Rightarrow> string \<Rightarrow> (string \<times> jdoc) list" where
  "ex_entries c d = [(''version'', JStr ''1''), (''types'', JObj [(''s1_grammar'', ex_types)]),
     (''rewrite_categories'', JArr [ex_wf []]), (''port_color_compatibility'', JObj (ex_section c d))]"

definition ex_doc :: "string \<Rightarrow> string \<Rightarrow> jdoc" where
  "ex_doc c d = JObj (ex_entries c d)"

definition ex_load :: "string \<Rightarrow> string \<Rightarrow> load_error + registry \<times> load_log list" where
  "ex_load c d = LoadRegistry (\<lambda>_. Some ''text'') (\<lambda>_. Some (ex_doc c d)) ''ontology.json''"



lemma LoadRegistry_Inr:
  assumes "LoadRegistry ReadFile json_parse path = Inr (reg, logs)" "path \<noteq> ''''"
  obtains data doc raw where "ReadFile path = Some data" "json_parse data = Some doc"
    "dec_ontology doc zero_ontology = Inr raw" "checkColorSectionKeys doc = None"
    "build_registry raw = Inr (reg, logs)"
  using assms by (auto simp: LoadRegistry_def ok_simps split: option.splits sum.splits)

section \<open>The color section is closed\<close>



section \<open>Warnings\<close>

text \<open>The load warns exactly when it should: it logs an uncolored or a mismatched pair if and only
  if some declared pair has ends without one common color, that is, a pair on which the color gate
  rejects every LINK.\<close>

theorem load_warns_exactly:
  assumes "LoadRegistry ReadFile json_parse path = Inr (reg, logs)" "path \<noteq> ''''"
  shows "(\<exists>ls. PortsUncolored ls \<in> set logs \<or> ColorsMismatched ls \<in> set logs) \<longleftrightarrow>
    (\<exists>w spec pr. mget (RewriteCategories reg) w = Some spec \<and> pr \<in> set (declaredPairs spec) \<and>
       \<not> (\<exists>c. resolvePortColors reg (fst pr) (snd pr) = Inr (c, c)))"
proof -
  obtain raw where "build_registry raw = Inr (reg, logs)" using LoadRegistry_Inr [OF assms] .
  then obtain cats declared matrix own colors src reg1 logs1 ports where
    b: "efold load_category (elems (o_RewriteCategories raw)) [] = Inr cats"
      "efold (own_color declared) (elems (rk_PortColorMap (o_Colors raw))) [] = Inr own"
      "RewriteCategories reg1 = cats" "PortColors reg1 = Some colors"
      "port_color_source own (declaredPortEnds reg1) = (colors, src, logs1)"
      "resolveTypePorts reg1 (snd (load_types (all_raw_types raw) ([], []))) (elems (o_RewriteCategories raw)) = (reg, ports)"
      "logs = logs1 @ (if uncoveredPorts reg1 \<noteq> [] then [PortsUncolored (uncoveredPorts reg1)] else []) @
       reportColorGate reg1 @ ports"
    by (rule build_registry_Inr)
  note k = resolveTypePorts_keeps [OF b(6)]
  note own = own_colors_declared [OF b(2)]
  have ne: "nonempty_colors reg1"
    using loaded_colors_nonempty [OF b(5) own(2,1)] b(4) by (simp add: nonempty_colors_def)
  have same: "port_color_of reg p = port_color_of reg1 p" for p
    using k(2) by (simp add: port_color_of_def)
  have "(\<exists>ls. PortsUncolored ls \<in> set logs \<or> ColorsMismatched ls \<in> set logs) \<longleftrightarrow>
      \<not> (uncoveredPorts reg1 = [] \<and> pair_lines (mismatch_line reg1) reg1 = [])"
    using port_color_source_cases(2) [OF b(5)] k(7,8) reportColorGate_log [where reg = reg1] unfolding b(7) by auto
  also have "\<dots> \<longleftrightarrow> (\<exists>w spec pr. mget cats w = Some spec \<and> pr \<in> set (declaredPairs spec) \<and> \<not> sound_pair reg1 pr)"
    unfolding silent_iff_sound [OF ne] b(3) using load_category_inv [OF b(1)] by (auto simp: ball_mem_mget)
  finally show ?thesis
    using k(1) b(3) by (simp add: sound_pair_def resolvePortColors_Inr same)
qed

theorem load_warns_exactly_witness:
  "\<exists>reg logs ls. ex_load ''auth'' ''storage'' = Inr (reg, logs) \<and>
     (PortsUncolored ls \<in> set logs \<or> ColorsMismatched ls \<in> set logs)"
proof -
  have "case ex_load ''auth'' ''storage'' of Inr (reg, logs) \<Rightarrow>
      (case mget (RewriteCategories reg) ''WF21'' of None \<Rightarrow> False
       | Some spec \<Rightarrow> declaredPairs spec = [(''causes'', ''caused-by'')] \<and>
           resolvePortColors reg ''causes'' ''caused-by'' = Inr (''auth'', ''storage'')) | Inl _ \<Rightarrow> False"
    by code_simp
  then obtain reg logs spec where l: "ex_load ''auth'' ''storage'' = Inr (reg, logs)"
    "mget (RewriteCategories reg) ''WF21'' = Some spec" "declaredPairs spec = [(''causes'', ''caused-by'')]"
    "resolvePortColors reg ''causes'' ''caused-by'' = Inr (''auth'', ''storage'')"
    by (auto split: sum.splits option.splits)
  then have "LoadRegistry (\<lambda>_. Some ''text'') (\<lambda>_. Some (ex_doc ''auth'' ''storage'')) ''ontology.json'' = Inr (reg, logs)"
    by (simp add: ex_load_def)
  from load_warns_exactly [OF this]
  have "\<exists>ls. PortsUncolored ls \<in> set logs \<or> ColorsMismatched ls \<in> set logs"
    using l(2-4) by fastforce
  with l(1) show ?thesis by blast
qed


section \<open>The ontology's own colors\<close>

lemma color_key_fields:
  "EqualFold k ''port_color_compatibility'' \<Longrightarrow>
   \<not> EqualFold k ''version'' \<and> \<not> EqualFold k ''types'' \<and> \<not> EqualFold k ''rewrite_categories''"
proof -
  have "fold_case ''port_color_compatibility'' \<noteq> fold_case ''version''"
    "fold_case ''port_color_compatibility'' \<noteq> fold_case ''types''"
    "fold_case ''port_color_compatibility'' \<noteq> fold_case ''rewrite_categories''"
    by code_simp+
  then show "EqualFold k ''port_color_compatibility'' \<Longrightarrow>
   \<not> EqualFold k ''version'' \<and> \<not> EqualFold k ''types'' \<and> \<not> EqualFold k ''rewrite_categories''"
    by (simp add: EqualFold_def)
qed

lemma map_key_fields:
  "EqualFold k ''port_color_map'' \<Longrightarrow> \<not> EqualFold k ''port_colors'' \<and> \<not> EqualFold k ''matrix''"
proof -
  have "fold_case ''port_color_map'' \<noteq> fold_case ''port_colors''" "fold_case ''port_color_map'' \<noteq> fold_case ''matrix''"
    by code_simp+
  then show "EqualFold k ''port_color_map'' \<Longrightarrow> \<not> EqualFold k ''port_colors'' \<and> \<not> EqualFold k ''matrix''"
    by (simp add: EqualFold_def)
qed

lemma loaded_name_map: "loaded_name k = ''port_color_map'' \<longleftrightarrow> EqualFold k ''port_color_map''"
  using map_key_fields by (auto simp: loaded_name_def)

lemma on_field_other:
  "on_field get upd f d r = Inr r' \<Longrightarrow> (\<And>g r. get2 (upd g r) = get2 r) \<Longrightarrow> get2 r' = get2 r"
  by (auto simp: on_field_def ok_simps)

text \<open>With one color section in the document, the decoded section is that one's.\<close>

lemma dec_ontology_colors:
  assumes "dec_ontology (JObj kvs) zero_ontology = Inr raw" "filter is_color_section kvs = [(k, sec)]"
  shows "dec_colors sec (o_Colors zero_ontology) = Inr (o_Colors raw)"
proof -
  have "efold (\<lambda>(k, d) x. dec_colors d x) (filter (\<lambda>kv. EqualFold (fst kv) ''port_color_compatibility'') kvs)
      (o_Colors zero_ontology) = Inr (o_Colors raw)"
    by (rule dec_struct_field [OF assms(1) [unfolded dec_ontology_def dec_struct.simps]])
      (auto simp: color_key_fields split: if_splits intro: on_field_other)
  with assms(2) show ?thesis by (simp add: ok_simps)
qed

lemma dec_colors_map:
  assumes "dec_colors (JObj sec) zero = Inr c" "filter (\<lambda>kv. loaded_name (fst kv) = ''port_color_map'') sec = [(k, m)]"
  shows "dec_map None (dec_ptr '''' dec_string) m (rk_PortColorMap zero) = Inr (rk_PortColorMap c)"
proof -
  have "efold (\<lambda>(k, d) x. dec_map None (dec_ptr '''' dec_string) d x)
      (filter (\<lambda>kv. EqualFold (fst kv) ''port_color_map'') sec) (rk_PortColorMap zero) = Inr (rk_PortColorMap c)"
    by (rule dec_struct_field [OF assms(1) [unfolded dec_colors_def dec_struct.simps]])
      (auto simp: map_key_fields split: if_splits intro: on_field_other)
  with assms(2) show ?thesis by (simp add: ok_simps loaded_name_map)
qed

text \<open>No color the ontology writes for a port is lost. If a document loads and its color section,
  under whatever spelling of its key, gives a port a color, that color is the port's color in the
  registry: no second section, second map or second entry can have replaced it silently.\<close>

theorem authored_color_wins:
  assumes "LoadRegistry ReadFile json_parse path = Inr (reg, logs)" "path \<noteq> ''''"
    and "ReadFile path = Some data" "json_parse data = Some (JObj kvs)"
    and "(k1, JObj sec) \<in> set kvs" "EqualFold k1 ''port_color_compatibility''"
    and "(k2, JObj m) \<in> set sec" "EqualFold k2 ''port_color_map''"
    and "(port, JStr c) \<in> set m"
  shows "\<exists>colors. PortColors reg = Some colors \<and> mget colors port = Some c"
proof -
  obtain raw where raw: "dec_ontology (JObj kvs) zero_ontology = Inr raw" "checkColorSectionKeys (JObj kvs) = None"
    "build_registry raw = Inr (reg, logs)"
    using LoadRegistry_Inr [OF assms(1,2)] assms(3,4) by (metis option.inject)
  obtain st where st: "efold (\<lambda>(key, v). color_section_step key v) kvs ('''', None) = Inr st"
    using raw(2) by (auto simp: checkColorSectionKeys_def split: sum.splits)
  have "(k1, JObj sec) \<in> set (filter is_color_section kvs)" using assms(5,6) by simp
  with color_sections_once [OF st] have sec: "filter is_color_section kvs = [(k1, JObj sec)]" "snd st = Some (JObj sec)"
    by (auto simp del: set_filter)
  obtain seen where seen: "efold (\<lambda>(key, v). section_step key v) sec [] = Inr seen"
    using raw(2) st sec(2) by (cases st) (auto simp: checkColorSectionKeys_def split: sum.splits)
  from section_keys_once [OF seen _ assms(7), of "''port_color_map''"] assms(8)
  have m: "filter (\<lambda>kv. loaded_name (fst kv) = ''port_color_map'') sec = [(k2, JObj m)]"
    "section_keys ''port_color_map'' (JObj m) = None"
    by (simp_all add: loaded_name_map)
  then have distinct: "distinct (map fst m)" by (simp add: section_keys_def uniqueJSONKeys_None)
  have "dec_map None (dec_ptr '''' dec_string) (JObj m) None = Inr (rk_PortColorMap (o_Colors raw))"
    using dec_colors_map [OF dec_ontology_colors [OF raw(1) sec(1)] m(1)] by (simp add: zero_ontology_def)
  then obtain es where es: "rk_PortColorMap (o_Colors raw) = Some es"
    "efold (dec_entry None (dec_ptr '''' dec_string)) m [] = Inr es"
    unfolding dec_map.simps ebind_Inr by auto (metis that)
  have "mget es port = Some (Some c)" "wf_map es"
    using dec_map_distinct [OF es(2) distinct assms(9)] dec_map_keys [OF es(2)] by (simp_all del: set_map)
  then have entry: "(port, Some c) \<in> set es" "distinct (map fst es)"
    using map_of_SomeD by (fast, simp add: wf_map_def)
  from raw(3) obtain cats declared matrix own colors src reg1 logs1 ports where
    b: "efold (own_color declared) (elems (rk_PortColorMap (o_Colors raw))) [] = Inr own"
      "PortColors reg1 = Some colors" "port_color_source own (declaredPortEnds reg1) = (colors, src, logs1)"
      "resolveTypePorts reg1 (snd (load_types (all_raw_types raw) ([], []))) (elems (o_RewriteCategories raw)) = (reg, ports)"
    by (rule build_registry_Inr)
  have "mget own port = Some c" using own_colors_exact [of declared es "[]" own port c] b(1) es(1) entry by simp
  with own_color_wins [OF b(3) own_colors_declared(2) [OF b(1)]] resolveTypePorts_keeps(2) [OF b(4)] b(2)
  show ?thesis by simp
qed

theorem authored_color_wins_witness:
  "\<exists>reg logs colors. ex_load ''auth'' ''storage'' = Inr (reg, logs) \<and> PortColors reg = Some colors \<and>
     mget colors ''caused-by'' = Some ''storage''"
proof -
  have "case ex_load ''auth'' ''storage'' of Inr _ \<Rightarrow> True | Inl _ \<Rightarrow> False" by code_simp
  then obtain reg logs where l: "ex_load ''auth'' ''storage'' = Inr (reg, logs)" by (auto split: sum.splits)
  then have "LoadRegistry (\<lambda>_. Some ''text'') (\<lambda>_. Some (ex_doc ''auth'' ''storage'')) ''ontology.json'' = Inr (reg, logs)"
    by (simp add: ex_load_def)
  then have "\<exists>colors. PortColors reg = Some colors \<and> mget colors ''caused-by'' = Some ''storage''"
    by (rule authored_color_wins [where data = "''text''" and kvs = "ex_entries ''auth'' ''storage''"
        and sec = "ex_section ''auth'' ''storage''" and m = "ex_map ''auth'' ''storage''"
        and ?k1.0 = "''port_color_compatibility''" and ?k2.0 = "''port_color_map''"])
      (simp_all add: ex_doc_def ex_entries_def ex_section_def ex_map_def EqualFold_def)
  with l show ?thesis by blast
qed

section \<open>Ports of the node types\<close>

text \<open>When the load generates the ports of the node types, every type is served exactly the ports of
  the declared pairs that admit it, placeholder pairs apart, and no authored list is contradicted;
  when it does not, every type keeps its authored block.\<close>

theorem served_ports_exact:
  assumes "build_registry raw = Inr (reg, logs)" "mget (NodeTypes reg) t = Some spec"
  shows "\<exists>authored. mget (fst (load_types (all_raw_types raw) ([], []))) t = Some authored \<and>
    (if PortsGenerated reg
     then set (elems (po_Out (nt_Ports spec))) = out_ports (rawDeclaredPairs (elems (o_RewriteCategories raw))) t \<and>
       set (elems (po_In (nt_Ports spec))) = in_ports (rawDeclaredPairs (elems (o_RewriteCategories raw))) t \<and>
       (\<forall>xs. po_Out (nt_Ports authored) = Some xs \<longrightarrow> set xs = set (elems (po_Out (nt_Ports spec)))) \<and>
       (\<forall>xs. po_In (nt_Ports authored) = Some xs \<longrightarrow> set xs = set (elems (po_In (nt_Ports spec))))
     else spec = authored)"
proof -
  let ?lt = "load_types (all_raw_types raw) ([], [])"
  let ?ws = "elems (o_RewriteCategories raw)"
  from assms(1) obtain cats declared matrix own colors src reg1 logs1 ports where
    b: "NodeTypes reg1 = fst ?lt" "\<not> PortsGenerated reg1"
      "resolveTypePorts reg1 (snd ?lt) ?ws = (reg, ports)"
    by (rule build_registry_Inr)
  let ?gen = "generateTypePorts (snd ?lt) ?ws"
  show ?thesis
  proof (cases "PortsGenerated reg")
    case False
    with b assms(2) show ?thesis by (auto simp: resolveTypePorts_def Let_def split: if_splits)
  next
    case True
    with b(2,3) have reg: "NodeTypes reg = map (\<lambda>(t, spec). (t, served_ports ?gen t spec)) (NodeTypes reg1)"
      "portsDrift (NodeTypes reg1) ?gen = []"
      by (auto simp: resolveTypePorts_def Let_def split: if_splits)
    obtain authored where a: "mget (fst ?lt) t = Some authored" "spec = served_ports ?gen t authored"
      using assms(2) reg(1) b(1) by (auto simp: mget_map_kv)
    have "t \<in> set (snd ?lt)" using load_types_keys [of "all_raw_types raw"] a(1) by (force dest: map_of_SomeD)
    note sets = generateTypePorts_sets [OF this, of ?ws]
    have "drift_count (type_drift (nt_Ports authored) (ports_of ?gen t)) = 0"
      using reg(2) b(1) a(1) by (auto simp: portsDrift_Nil dest: map_of_SomeD)
    with sets have "(\<forall>xs. po_Out (nt_Ports authored) = Some xs \<longrightarrow> set xs = out_ports (rawDeclaredPairs ?ws) t) \<and>
        (\<forall>xs. po_In (nt_Ports authored) = Some xs \<longrightarrow> set xs = in_ports (rawDeclaredPairs ?ws) t)"
      by (simp add: no_type_drift)
    with sets a True show ?thesis by (simp add: served_ports_def ports_sets_def)
  qed
qed


definition ex_raw :: ontology where
  "ex_raw = (case dec_ontology (ex_doc ''auth'' ''auth'') zero_ontology of Inr raw \<Rightarrow> raw | Inl _ \<Rightarrow> zero_ontology)"

theorem served_ports_exact_witness:
  "\<exists>reg logs spec. build_registry ex_raw = Inr (reg, logs) \<and> mget (NodeTypes reg) ''task'' = Some spec \<and>
     set (elems (po_Out (nt_Ports spec))) = out_ports (rawDeclaredPairs (elems (o_RewriteCategories ex_raw))) ''task''"
proof -
  have "case build_registry ex_raw of Inr (reg, _) \<Rightarrow> PortsGenerated reg \<and> \<not> Option.is_none (mget (NodeTypes reg) ''task'')
      | Inl _ \<Rightarrow> False"
    by code_simp
  then obtain reg logs spec where r: "build_registry ex_raw = Inr (reg, logs)" "mget (NodeTypes reg) ''task'' = Some spec"
    "PortsGenerated reg"
    by (auto simp: Option.is_none_def split: sum.splits)
  from served_ports_exact [OF r(1,2)] r show ?thesis by auto
qed

end
