(* ===== verification/Wire.thy ===== *)
theory Wire
  imports GoJson GoLib "HOL-Library.Multiset"
begin

text \<open>
  The JSON of internal/graph: what encoding/json writes for the tagged structs and how an envelope
  is read back. Documents, not text: the spelling of strings and numbers is left to the library.
  Objects of a struct keep the order of its attributes, objects of a map are sorted by key.
\<close>

section \<open>Values\<close>

text \<open>The shortest decimal of an integer.\<close>

function strip_zeros :: "int \<Rightarrow> int \<Rightarrow> int \<times> int" where
  "strip_zeros m e = (if m \<noteq> 0 \<and> m mod 10 = 0 then strip_zeros (m div 10) (e + 1) else (m, e))"
  by pat_completeness auto
termination
  by (relation "measure (\<lambda>(m, e). nat \<bar>m\<bar>)") auto

declare strip_zeros.simps [simp del]

definition json_int :: "int \<Rightarrow> jdoc" where
  "json_int i = (case strip_zeros i 0 of (m, e) \<Rightarrow> JNum m e)"

definition json_object :: "(string \<times> jdoc) list \<Rightarrow> jdoc" where
  "json_object kvs = JObj (sort_key fst kvs)"

fun json_val :: "val \<Rightarrow> jdoc" where
  "json_val VNil = JNull"
| "json_val (VBool b) = JBool b"
| "json_val (VStr s) = JStr s"
| "json_val (VInt i) = json_int i"
| "json_val (VFloat m e) = JNum m e"
| "json_val (VArr vs) = JArr (map json_val vs)"
| "json_val (VObj kvs) = json_object (map (\<lambda>kv. (fst kv, json_val (snd kv))) kvs)"

definition json_of_map :: "('a \<Rightarrow> jdoc) \<Rightarrow> (string, 'a) gomap \<Rightarrow> jdoc" where
  "json_of_map f m = json_object (map (\<lambda>(k, x). (k, f x)) m)"

text \<open>An attribute tagged omitempty.\<close>

definition opt :: "bool \<Rightarrow> string \<Rightarrow> jdoc \<Rightarrow> (string \<times> jdoc) list" where
  "opt c k d = (if c then [(k, d)] else [])"

definition opt_str :: "string \<Rightarrow> string \<Rightarrow> (string \<times> jdoc) list" where
  "opt_str k s = opt (s \<noteq> '''') k (JStr s)"

section \<open>Structs\<close>

definition json_property :: "property \<Rightarrow> jdoc" where
  "json_property p = JObj ([(''value'', json_val (p_Value p)), (''mutability'', JStr (p_Mutability p)),
     (''authority_scope'', JStr (p_AuthorityScope p)), (''stratum_origin'', json_int (p_StratumOrigin p))]
     @ opt_str ''validation_type'' (p_ValidationType p))"

definition json_node :: "golib \<Rightarrow> node \<Rightarrow> jdoc" where
  "json_node lib n = JObj [(''urn'', JStr (n_URN n)), (''type_id'', JStr (n_TypeID n)),
     (''properties'', json_of_map json_property (n_Properties n)),
     (''created_at'', JStr (rfc3339_nano lib (n_CreatedAt n))), (''version'', json_int (n_Version n))]"

definition json_relation :: "golib \<Rightarrow> relation \<Rightarrow> jdoc" where
  "json_relation lib r = JObj ([(''urn'', JStr (r_URN r)), (''rewrite_category'', JStr (r_RewriteCategory r)),
     (''src_urn'', JStr (r_SrcURN r)), (''src_port'', JStr (r_SrcPort r)),
     (''tgt_urn'', JStr (r_TgtURN r)), (''tgt_port'', JStr (r_TgtPort r))]
     @ opt_str ''contract_urn'' (r_ContractURN r) @ [(''created_at'', JStr (rfc3339_nano lib (r_CreatedAt r)))])"

definition json_envelope :: "envelope \<Rightarrow> jdoc" where
  "json_envelope e = JObj (
     (''rewrite_type'', JStr (rewrite_string (e_RewriteType e))) # (''actor'', JStr (e_Actor e)) #
     opt_str ''session_urn'' (e_SessionURN e) @ opt_str ''node_urn'' (e_NodeURN e) @
     opt_str ''type_id'' (e_TypeID e) @
     opt (e_Properties e \<noteq> []) ''properties'' (json_of_map json_property (e_Properties e)) @
     opt_str ''relation_urn'' (e_RelationURN e) @ opt_str ''src_urn'' (e_SrcURN e) @
     opt_str ''src_port'' (e_SrcPort e) @ opt_str ''tgt_urn'' (e_TgtURN e) @
     opt_str ''tgt_port'' (e_TgtPort e) @ opt_str ''rewrite_category'' (e_RewriteCategory e) @
     opt_str ''contract_urn'' (e_ContractURN e) @ opt_str ''target_urn'' (e_TargetURN e) @
     opt_str ''field'' (e_Field e) @ opt (e_NewValue e \<noteq> VNil) ''new_value'' (json_val (e_NewValue e)) @
     opt (e_ExpectedVersion e \<noteq> 0) ''expected_version'' (json_int (e_ExpectedVersion e)) @
     (case e_PropertySpec e of None \<Rightarrow> [] | Some p \<Rightarrow> [(''property_spec'', json_property p)]))"

definition json_eval_result :: "eval_result \<Rightarrow> jdoc" where
  "json_eval_result r = JObj (opt_str ''affected_node_urn'' (AffectedNodeURN r) @
     opt_str ''affected_relation_urn'' (AffectedRelationURN r))"

definition json_persisted :: "golib \<Rightarrow> persisted_rewrite \<Rightarrow> jdoc" where
  "json_persisted lib pr = JObj [(''envelope'', json_envelope (pr_Envelope pr)),
     (''applied_at'', JStr (rfc3339_nano lib (pr_AppliedAt pr))),
     (''timestamp'', JStr (rfc3339_nano lib (pr_Timestamp pr))), (''log_seq'', json_int (pr_LogSeq pr))]"

section \<open>Reading an envelope\<close>

definition zero_property :: property where
  "zero_property = \<lparr> p_Value = VNil, p_Mutability = '''', p_AuthorityScope = '''', p_StratumOrigin = 0,
     p_ValidationType = '''' \<rparr>"

definition property_fields :: "(string \<times> property dec) list" where
  "property_fields = [
     (''value'', on_field p_Value p_Value_update dec_val),
     (''mutability'', on_field p_Mutability p_Mutability_update dec_string),
     (''authority_scope'', on_field p_AuthorityScope p_AuthorityScope_update dec_string),
     (''stratum_origin'', on_field p_StratumOrigin p_StratumOrigin_update dec_int),
     (''validation_type'', on_field p_ValidationType p_ValidationType_update dec_string)]"

definition dec_property :: "property dec" where
  "dec_property = dec_struct property_fields"

text \<open>A nil map of properties and an empty one are the same to the kernel.\<close>

definition dec_properties :: "(string, property) gomap dec" where
  "dec_properties d old = ebind (dec_map zero_property dec_property d (Some old)) (\<lambda>m. Inr (elems m))"

definition dec_rewrite_type :: "rewrite_type dec" where
  "dec_rewrite_type d old = ebind (dec_string d (rewrite_string old)) (\<lambda>s. Inr (rewrite_type_of s))"

definition envelope_fields :: "(string \<times> envelope dec) list" where
  "envelope_fields = [
     (''rewrite_type'', on_field e_RewriteType e_RewriteType_update dec_rewrite_type),
     (''actor'', on_field e_Actor e_Actor_update dec_string),
     (''session_urn'', on_field e_SessionURN e_SessionURN_update dec_string),
     (''node_urn'', on_field e_NodeURN e_NodeURN_update dec_string),
     (''type_id'', on_field e_TypeID e_TypeID_update dec_string),
     (''properties'', on_field e_Properties e_Properties_update dec_properties),
     (''relation_urn'', on_field e_RelationURN e_RelationURN_update dec_string),
     (''src_urn'', on_field e_SrcURN e_SrcURN_update dec_string),
     (''src_port'', on_field e_SrcPort e_SrcPort_update dec_string),
     (''tgt_urn'', on_field e_TgtURN e_TgtURN_update dec_string),
     (''tgt_port'', on_field e_TgtPort e_TgtPort_update dec_string),
     (''rewrite_category'', on_field e_RewriteCategory e_RewriteCategory_update dec_string),
     (''contract_urn'', on_field e_ContractURN e_ContractURN_update dec_string),
     (''target_urn'', on_field e_TargetURN e_TargetURN_update dec_string),
     (''field'', on_field e_Field e_Field_update dec_string),
     (''new_value'', on_field e_NewValue e_NewValue_update dec_val),
     (''expected_version'', on_field e_ExpectedVersion e_ExpectedVersion_update dec_int),
     (''property_spec'', on_field e_PropertySpec e_PropertySpec_update (dec_ptr zero_property dec_property))]"

definition dec_envelope :: "envelope dec" where
  "dec_envelope = dec_struct envelope_fields"

text \<open>The zero value of a declared \<^verbatim>\<open>var env graph.Envelope\<close>.\<close>

definition no_envelope :: envelope where
  "no_envelope = zero_envelope (OtherRewrite '''') ''''"

end
