(* ===== verification/WireSpec.thy ===== *)
theory WireSpec
  imports Wire
begin

text \<open>
  An envelope survives the wire: what json.Unmarshal reads from what json.Marshal writes is the
  envelope itself, with its Go integers as float64 and its maps in key order.
\<close>

section \<open>Keys without case or non-ASCII letters\<close>

definition plain :: "string \<Rightarrow> bool" where
  "plain s \<longleftrightarrow> list_all (\<lambda>c. \<not> (CHR ''A'' \<le> c \<and> c \<le> CHR ''Z'') \<and> c \<noteq> CHR 0xC5 \<and> c \<noteq> CHR 0xE2) s"

lemma ReplaceAll_absent: "c \<notin> set s \<Longrightarrow> ReplaceAll s (c # cs) t = s"
proof (induction s)
  case Nil
  then show ?case by simp
next
  case (Cons a s)
  then show ?case by (subst ReplaceAll.simps) (auto simp: HasPrefix_def)
qed

lemma fold_case_plain: "plain s \<Longrightarrow> fold_case s = s"
proof -
  assume p: "plain s"
  then have "CHR 0xC5 \<notin> set s" "CHR 0xE2 \<notin> set s" unfolding plain_def list_all_iff by blast+
  then have "fold_case s = map ascii_lower s" by (simp add: fold_case_def ReplaceAll_absent)
  also have "\<dots> = s" using p unfolding plain_def list_all_iff ascii_lower_def by (intro map_idI) meson
  finally show ?thesis .
qed

lemma EqualFold_plain: "plain s \<Longrightarrow> plain t \<Longrightarrow> EqualFold s t \<longleftrightarrow> s = t"
  by (simp add: EqualFold_def fold_case_plain)

lemma field_for_plain: "plain k \<Longrightarrow> \<forall>n\<in>set (map fst fs). plain n \<Longrightarrow> field_for fs k = map_of fs k"
  by (induction fs) (auto simp: EqualFold_plain)

lemma dec_struct_plain:
  assumes "\<forall>n\<in>set (map fst fs). plain n" "\<forall>n\<in>set (map fst kvs). plain n"
  shows "dec_struct fs (JObj kvs) r =
    efold (\<lambda>(k, d) r. case map_of fs k of None \<Rightarrow> Inr r | Some f \<Rightarrow> f d r) kvs r"
  using assms(2)
proof (induction kvs arbitrary: r)
  case Nil
  then show ?case by simp
next
  case (Cons a kvs)
  obtain k d where a: "a = (k, d)" by force
  with Cons.prems have "plain k" by simp
  from field_for_plain [OF this assms(1)] Cons a show ?case by (auto intro!: ebind_cong)
qed

section \<open>Values\<close>

definition canon_float :: "int \<Rightarrow> val" where
  "canon_float i = (case strip_zeros i 0 of (m, e) \<Rightarrow> VFloat m e)"

text \<open>Objects have distinct keys, as Go maps do.\<close>

fun wf_val :: "val \<Rightarrow> bool" where
  "wf_val (VArr vs) = list_all wf_val vs"
| "wf_val (VObj kvs) = (wf_map kvs \<and> list_all (\<lambda>kv. wf_val (snd kv)) kvs)"
| "wf_val _ = True"

fun canon_val :: "val \<Rightarrow> val" where
  "canon_val (VInt i) = canon_float i"
| "canon_val (VArr vs) = VArr (map canon_val vs)"
| "canon_val (VObj kvs) = VObj (sort_key fst (map (\<lambda>kv. (fst kv, canon_val (snd kv))) kvs))"
| "canon_val v = v"

lemma strip_zeros_value: "0 \<le> e \<Longrightarrow> strip_zeros m e = (m', e') \<Longrightarrow> e \<le> e' \<and> m' * 10 ^ nat e' = m * 10 ^ nat e"
proof (induction m e rule: strip_zeros.induct)
  case (1 m e)
  show ?case
  proof (cases "m \<noteq> 0 \<and> m mod 10 = 0")
    case True
    then have "strip_zeros (m div 10) (e + 1) = (m', e')"
      using "1.prems"(2) by (simp add: strip_zeros.simps [of m e])
    then have IH: "e + 1 \<le> e'" "m' * 10 ^ nat e' = m div 10 * 10 ^ nat (e + 1)"
      using "1.IH" [OF True] "1.prems"(1) by simp_all
    have "nat (e + 1) = Suc (nat e)" using "1.prems"(1) by simp
    moreover have "m div 10 * 10 = m" using True by auto
    ultimately show ?thesis using IH by simp
  next
    case False
    then show ?thesis using "1.prems"(2) by (subst (asm) strip_zeros.simps) (simp split: if_splits)
  qed
qed

lemma dec_int_json: "wrap64 i = i \<Longrightarrow> dec_int (json_int i) old = Inr i"
  using strip_zeros_value [of 0 i] by (auto simp: json_int_def split: prod.splits)

lemma dec_any_json_int: "dec_any (json_int i) = canon_float i"
  by (simp add: json_int_def canon_float_def split: prod.splits)

lemma distinct_sort_key: "distinct (map fst (sort_key f kvs)) = distinct (map fst kvs)"
  by (metis mset_eq_imp_distinct_iff mset_map mset_sort)

lemma wf_map_sort_key [simp]: "wf_map (sort_key f kvs) = wf_map kvs"
  by (simp add: wf_map_def distinct_sort_key)

lemma insort_map_snd: "insort_key fst (fst a, g (snd a)) (map (\<lambda>kv. (fst kv, g (snd kv))) xs) =
    map (\<lambda>kv. (fst kv, g (snd kv))) (insort_key fst a xs)"
  by (induction xs) auto

lemma sort_map_snd: "sort_key fst (map (\<lambda>kv. (fst kv, g (snd kv))) xs) =
    map (\<lambda>kv. (fst kv, g (snd kv))) (sort_key fst xs)"
  by (induction xs) (auto simp: insort_map_snd)

lemma dec_any_json_val: "wf_val v \<Longrightarrow> dec_any (json_val v) = canon_val v"
proof (induction v)
  case (VObj kvs)
  let ?c = "map (\<lambda>kv. (fst kv, canon_val (snd kv))) kvs"
  have "map (\<lambda>kv. (fst kv, dec_any (snd kv))) (sort_key fst (map (\<lambda>kv. (fst kv, json_val (snd kv))) kvs)) =
      sort_key fst (map (\<lambda>kv. (fst kv, dec_any (json_val (snd kv)))) kvs)"
    by (simp add: sort_map_snd [of dec_any, symmetric] o_def)
  also have "map (\<lambda>kv. (fst kv, dec_any (json_val (snd kv)))) kvs = ?c"
    using VObj by (auto simp: list_all_iff)
  finally have e: "map (\<lambda>kv. (fst kv, dec_any (snd kv))) (sort_key fst (map (\<lambda>kv. (fst kv, json_val (snd kv))) kvs)) =
      sort_key fst ?c" .
  have "wf_map ?c" using VObj.prems by (simp add: wf_map_def o_def)
  then show ?case by (simp add: json_object_def e)
qed (auto simp: dec_any_json_int list_all_iff)


section \<open>Structs\<close>

definition wf_property :: "property \<Rightarrow> bool" where
  "wf_property p \<longleftrightarrow> wf_val (p_Value p) \<and> wrap64 (p_StratumOrigin p) = p_StratumOrigin p"

definition canon_property :: "property \<Rightarrow> property" where
  "canon_property p = p\<lparr> p_Value := canon_val (p_Value p) \<rparr>"

lemma property_names_plain: "\<forall>n\<in>set (map fst property_fields). plain n"
proof -
  have "list_all plain [''value'', ''mutability'', ''authority_scope'', ''stratum_origin'', ''validation_type'']"
    by code_simp
  then show ?thesis by (simp add: property_fields_def)
qed

lemma dec_property_json: "wf_property p \<Longrightarrow> dec_property (json_property p) zero_property = Inr (canon_property p)"
proof -
  assume p: "wf_property p"
  have "\<forall>n\<in>set (map fst ([(''value'', json_val (p_Value p)), (''mutability'', JStr (p_Mutability p)),
     (''authority_scope'', JStr (p_AuthorityScope p)), (''stratum_origin'', json_int (p_StratumOrigin p))]
     @ opt_str ''validation_type'' (p_ValidationType p))). plain n"
    using property_names_plain by (simp add: property_fields_def opt_str_def opt_def)
  from dec_struct_plain [OF property_names_plain this, of zero_property] p show ?thesis
    unfolding dec_property_def json_property_def
    by (cases p) (simp add: property_fields_def on_field_def dec_val_def dec_any_json_val dec_int_json wf_property_def
        opt_str_def opt_def zero_property_def canon_property_def)
qed

definition env_step :: "string \<times> jdoc \<Rightarrow> envelope \<Rightarrow> decode_error + envelope" where
  "env_step = (\<lambda>(k, d) r. case map_of envelope_fields k of None \<Rightarrow> Inr r | Some f \<Rightarrow> f d r)"

lemma env_step_strings:
  "e_SessionURN r = '''' \<Longrightarrow> efold env_step (opt_str ''session_urn'' s @ rest) r = efold env_step rest (r\<lparr> e_SessionURN := s \<rparr>)"
  "e_NodeURN r = '''' \<Longrightarrow> efold env_step (opt_str ''node_urn'' s @ rest) r = efold env_step rest (r\<lparr> e_NodeURN := s \<rparr>)"
  "e_TypeID r = '''' \<Longrightarrow> efold env_step (opt_str ''type_id'' s @ rest) r = efold env_step rest (r\<lparr> e_TypeID := s \<rparr>)"
  "e_RelationURN r = '''' \<Longrightarrow> efold env_step (opt_str ''relation_urn'' s @ rest) r = efold env_step rest (r\<lparr> e_RelationURN := s \<rparr>)"
  "e_SrcURN r = '''' \<Longrightarrow> efold env_step (opt_str ''src_urn'' s @ rest) r = efold env_step rest (r\<lparr> e_SrcURN := s \<rparr>)"
  "e_SrcPort r = '''' \<Longrightarrow> efold env_step (opt_str ''src_port'' s @ rest) r = efold env_step rest (r\<lparr> e_SrcPort := s \<rparr>)"
  "e_TgtURN r = '''' \<Longrightarrow> efold env_step (opt_str ''tgt_urn'' s @ rest) r = efold env_step rest (r\<lparr> e_TgtURN := s \<rparr>)"
  "e_TgtPort r = '''' \<Longrightarrow> efold env_step (opt_str ''tgt_port'' s @ rest) r = efold env_step rest (r\<lparr> e_TgtPort := s \<rparr>)"
  "e_RewriteCategory r = '''' \<Longrightarrow> efold env_step (opt_str ''rewrite_category'' s @ rest) r = efold env_step rest (r\<lparr> e_RewriteCategory := s \<rparr>)"
  "e_ContractURN r = '''' \<Longrightarrow> efold env_step (opt_str ''contract_urn'' s @ rest) r = efold env_step rest (r\<lparr> e_ContractURN := s \<rparr>)"
  "e_TargetURN r = '''' \<Longrightarrow> efold env_step (opt_str ''target_urn'' s @ rest) r = efold env_step rest (r\<lparr> e_TargetURN := s \<rparr>)"
  "e_Field r = '''' \<Longrightarrow> efold env_step (opt_str ''field'' s @ rest) r = efold env_step rest (r\<lparr> e_Field := s \<rparr>)"
  by (cases r; simp add: opt_str_def opt_def env_step_def envelope_fields_def on_field_def)+


lemma dec_entries:
  assumes "\<forall>(k, d)\<in>set kvs. f d zero = Inr (g d)" "distinct (map fst m0 @ map fst kvs)"
  shows "efold (dec_entry zero f) kvs m0 = Inr (m0 @ map (\<lambda>(k, d). (k, g d)) kvs)"
  using assms
proof (induction kvs arbitrary: m0)
  case Nil
  then show ?case by simp
next
  case (Cons a kvs)
  obtain k d where a: "a = (k, d)" by force
  with Cons.prems have "mget m0 k = None" by (auto simp: map_of_eq_None_iff)
  then have "mput k (g d) m0 = m0 @ [(k, g d)]" by (rule mput_append_fresh)
  with Cons a show ?case by simp
qed

lemma sort_map_kv: "sort_key fst (map (\<lambda>(k, x). (k, g x)) xs) = map (\<lambda>(k, x). (k, g x)) (sort_key fst xs)"
  using sort_map_snd [of g xs] by (simp add: split_def)

definition canon_properties :: "(string, property) gomap \<Rightarrow> (string, property) gomap" where
  "canon_properties m = sort_key fst (map (\<lambda>(k, p). (k, canon_property p)) m)"

definition wf_properties :: "(string, property) gomap \<Rightarrow> bool" where
  "wf_properties m \<longleftrightarrow> wf_map m \<and> (\<forall>(k, p)\<in>set m. wf_property p)"

lemma dec_properties_json:
  assumes "wf_properties m"
  shows "dec_properties (json_of_map json_property m) [] = Inr (canon_properties m)"
proof -
  let ?k = "sort_key fst m"
  let ?g = "\<lambda>d. case dec_property d zero_property of Inr p \<Rightarrow> p | Inl _ \<Rightarrow> zero_property"
  have p: "wf_property p" if "(k, p) \<in> set m" for k p
    using assms that by (auto simp: wf_properties_def)
  have "efold (dec_entry zero_property dec_property) (map (\<lambda>(k, p). (k, json_property p)) ?k) [] =
      Inr ([] @ map (\<lambda>(k, d). (k, ?g d)) (map (\<lambda>(k, p). (k, json_property p)) ?k))"
  proof (rule dec_entries)
    have "distinct (map fst ?k)" using assms by (simp add: wf_properties_def wf_map_def distinct_sort_key)
    then show "distinct (map fst [] @ map fst (map (\<lambda>(k, p). (k, json_property p)) ?k))"
      by (simp add: split_def o_def)
  qed (auto simp: dec_property_json p)
  also have "map (\<lambda>(k, d). (k, ?g d)) (map (\<lambda>(k, p). (k, json_property p)) ?k) =
      map (\<lambda>(k, p). (k, canon_property p)) ?k"
    using p by (auto simp: dec_property_json)
  finally show ?thesis
    by (simp add: dec_properties_def json_of_map_def json_object_def sort_map_kv canon_properties_def)
qed

definition wf_envelope :: "envelope \<Rightarrow> bool" where
  "wf_envelope e \<longleftrightarrow> rewrite_type_of (rewrite_string (e_RewriteType e)) = e_RewriteType e \<and>
     wf_properties (e_Properties e) \<and> wf_val (e_NewValue e) \<and>
     wrap64 (e_ExpectedVersion e) = e_ExpectedVersion e \<and>
     (\<forall>p. e_PropertySpec e = Some p \<longrightarrow> wf_property p)"

definition canon_envelope :: "envelope \<Rightarrow> envelope" where
  "canon_envelope e = e\<lparr> e_Properties := canon_properties (e_Properties e),
     e_NewValue := canon_val (e_NewValue e), e_PropertySpec := map_option canon_property (e_PropertySpec e) \<rparr>"

lemma canon_properties_Nil [simp]: "canon_properties [] = []"
  by (simp add: canon_properties_def)

lemma env_step_types:
  "env_step (''rewrite_type'', JStr s) r = Inr (r\<lparr> e_RewriteType := rewrite_type_of s \<rparr>)"
  "env_step (''actor'', JStr s) r = Inr (r\<lparr> e_Actor := s \<rparr>)"
  by (simp_all add: env_step_def envelope_fields_def on_field_def dec_rewrite_type_def)

lemma env_step_properties:
  "wf_properties m \<Longrightarrow> e_Properties r = [] \<Longrightarrow>
   efold env_step (opt (m \<noteq> []) ''properties'' (json_of_map json_property m) @ rest) r =
   efold env_step rest (r\<lparr> e_Properties := canon_properties m \<rparr>)"
  by (cases r) (simp add: opt_def env_step_def envelope_fields_def on_field_def dec_properties_json)

lemma env_step_value:
  "wf_val v \<Longrightarrow> e_NewValue r = VNil \<Longrightarrow>
   efold env_step (opt (v \<noteq> VNil) ''new_value'' (json_val v) @ rest) r = efold env_step rest (r\<lparr> e_NewValue := canon_val v \<rparr>)"
  by (cases r) (auto simp: opt_def env_step_def envelope_fields_def on_field_def dec_val_def dec_any_json_val)

lemma env_step_version:
  "wrap64 i = i \<Longrightarrow> e_ExpectedVersion r = 0 \<Longrightarrow>
   efold env_step (opt (i \<noteq> 0) ''expected_version'' (json_int i) @ rest) r = efold env_step rest (r\<lparr> e_ExpectedVersion := i \<rparr>)"
  by (cases r) (auto simp: opt_def env_step_def envelope_fields_def on_field_def dec_int_json)

lemma env_step_spec:
  "(\<forall>p. q = Some p \<longrightarrow> wf_property p) \<Longrightarrow> e_PropertySpec r = None \<Longrightarrow>
   efold env_step (case q of None \<Rightarrow> [] | Some p \<Rightarrow> [(''property_spec'', json_property p)]) r =
   Inr (r\<lparr> e_PropertySpec := map_option canon_property q \<rparr>)"
proof (cases q)
  case (Some p)
  assume "\<forall>p. q = Some p \<longrightarrow> wf_property p" "e_PropertySpec r = None"
  then have "dec_ptr zero_property dec_property (json_property p) None = Inr (Some (canon_property p))"
    using Some dec_property_json [of p] by (simp add: json_property_def)
  with Some \<open>e_PropertySpec r = None\<close> show ?thesis
    by (cases r) (simp add: env_step_def envelope_fields_def on_field_def)
next
  case None
  assume "e_PropertySpec r = None"
  with None show ?thesis by (cases r) simp
qed

lemma envelope_names_plain: "\<forall>n\<in>set (map fst envelope_fields). plain n"
proof -
  have "list_all plain [''rewrite_type'', ''actor'', ''session_urn'', ''node_urn'', ''type_id'', ''properties'',
     ''relation_urn'', ''src_urn'', ''src_port'', ''tgt_urn'', ''tgt_port'', ''rewrite_category'',
     ''contract_urn'', ''target_urn'', ''field'', ''new_value'', ''expected_version'', ''property_spec'']"
    by code_simp
  then show ?thesis by (simp add: envelope_fields_def)
qed

lemma envelope_keys: "json_envelope e = JObj kvs \<Longrightarrow> set (map fst kvs) \<subseteq> set (map fst envelope_fields)"
proof -
  assume kvs: "json_envelope e = JObj kvs"
  have opt: "fst ` set (opt c k d) \<subseteq> {k}" "fst ` set (opt_str k s) \<subseteq> {k}" for c k d s
    by (auto simp: opt_def opt_str_def)
  have spec: "fst ` set (case q of None \<Rightarrow> [] | Some p \<Rightarrow> [(''property_spec'', json_property p)]) \<subseteq> {''property_spec''}" for q
    by (cases q) auto
  show ?thesis
    unfolding kvs [unfolded json_envelope_def jdoc.inject, symmetric] envelope_fields_def
    unfolding set_map set_append list.set image_insert image_Un image_empty fst_conv
    by (intro insert_subsetI Un_least order.trans [OF opt(1)] order.trans [OF opt(2)] order.trans [OF spec] empty_subsetI) simp_all
qed

lemma dec_envelope_json:
  assumes "wf_envelope e"
  shows "dec_envelope (json_envelope e) no_envelope = Inr (canon_envelope e)"
proof -
  obtain kvs where kvs: "json_envelope e = JObj kvs" by (simp add: json_envelope_def)
  note entries = kvs [unfolded json_envelope_def jdoc.inject, symmetric]
  have "\<forall>n\<in>set (map fst kvs). plain n" using envelope_keys [OF kvs] envelope_names_plain by blast
  from dec_struct_plain [OF envelope_names_plain this, of no_envelope]
  have "dec_envelope (json_envelope e) no_envelope = efold env_step kvs no_envelope"
    by (simp add: dec_envelope_def kvs env_step_def)
  also have "\<dots> = Inr (canon_envelope e)"
    using assms unfolding entries wf_envelope_def
    by (cases e) (simp add: env_step_types env_step_strings env_step_properties env_step_value env_step_version
        env_step_spec no_envelope_def canon_envelope_def)
  finally show ?thesis .
qed

end
