(* ===== verification/Runtime.thy ===== *)
theory Runtime
  imports Liveness Sweep Store LogIntegrity
begin

text \<open>
  internal/kernel/runtime.go: the effect layer. A runtime is a record passed through every
  operation; its environment \<open>E\<close> holds the standard library (\<open>k_lib\<close>), the operations of the
  store behind the Store interface (\<open>k_ops\<close>) and the rows the HDC drift index reports for a
  state (\<open>k_drifted\<close>), which the kernel only turns into claims.
  Apply is split where the code releases its read lock: \<open>apply_check\<close> and \<open>apply_locked\<close>.
\<close>

record drift_row =
  d_URN :: urn
  d_DeclaredType :: type_id
  d_ExpressedType :: type_id
  d_Mantissa :: int
  d_Exponent :: int

record 's kenv =
  k_lib :: golib
  k_ops :: "'s store_ops"
  k_drifted :: "graph_state \<Rightarrow> drift_row list"

record 's runtime =
  rt_state :: graph_state
  rt_log :: "persisted_rewrite list"
  rt_store :: 's
  rt_registry :: "registry option"
  rt_subscribers :: "(string, persisted_rewrite list) gomap"
  rt_logSeq :: int
  rt_preSeqEntries :: nat
  rt_sweepActor :: urn
  rt_kernelURN :: urn
  rt_logIntegrity :: log_integrity
  rt_reads :: nat

definition subscriberBufferSize :: nat where
  "subscriberBufferSize = 64"

definition driftAnnotationSemanticPort :: string where
  "driftAnnotationSemanticPort = ''{semantic}''"

definition driftAnnotationContractURN :: urn where
  "driftAnnotationContractURN = ''urn:moos:contract:hdc-drift-annotation.v1''"

section \<open>Start-up\<close>

definition NewRuntime :: "'s kenv \<Rightarrow> 's \<Rightarrow> registry option \<Rightarrow> kernel_error + 's runtime" where
  "NewRuntime E store registry =
     (case so_ReadAll (k_ops E) store of
        None \<Rightarrow> Inl ReadStoreErr
      | Some entries \<Rightarrow>
          (case Replay entries of
             (_, Some err) \<Rightarrow> Inl (ReplayErr err)
           | (state, None) \<Rightarrow>
               let sc = scan_log entries
               in Inr \<lparr> rt_state = state, rt_log = entries, rt_store = store, rt_registry = registry,
                        rt_subscribers = [], rt_logSeq = sc_maxSeq sc, rt_preSeqEntries = sc_preSeq sc,
                        rt_sweepActor = '''', rt_kernelURN = '''',
                        rt_logIntegrity =
                          integrity_of (k_lib E) entries (so_SingleWriter (k_ops E) store) '''',
                        rt_reads = 0 \<rparr>))"

definition SetKernelURN :: "'s runtime \<Rightarrow> urn \<Rightarrow> 's runtime" where
  "SetKernelURN rt u = rt\<lparr> rt_kernelURN := u \<rparr>"

definition LogIntegrity :: "'s runtime \<Rightarrow> log_integrity" where
  "LogIntegrity rt = (rt_logIntegrity rt)\<lparr> li_KernelURN := rt_kernelURN rt \<rparr>"

section \<open>Reading the clock, stamping, broadcasting\<close>

definition read_clock :: "'s kenv \<Rightarrow> 's runtime \<Rightarrow> time \<times> 's runtime" where
  "read_clock E rt = (clock (k_lib E) (rt_reads rt), rt\<lparr> rt_reads := Suc (rt_reads rt) \<rparr>)"

definition broadcast :: "persisted_rewrite \<Rightarrow> 's runtime \<Rightarrow> 's runtime" where
  "broadcast pr rt = rt\<lparr> rt_subscribers :=
     map (\<lambda>(name, ch). (name, if length ch < subscriberBufferSize then ch @ [pr] else ch))
       (rt_subscribers rt) \<rparr>"

text \<open>
  Stamp one rewrite and append it to the store. The counter advances even when the store refuses.
\<close>

definition persist_one ::
  "'s kenv \<Rightarrow> 's runtime \<Rightarrow> envelope \<Rightarrow> time \<Rightarrow> 's runtime \<times> persisted_rewrite option" where
  "persist_one E rt env now =
     (let seq = wrap64 (rt_logSeq rt + 1);
          persisted = \<lparr> pr_Envelope = env, pr_AppliedAt = now, pr_Timestamp = now, pr_LogSeq = seq \<rparr>
      in case so_Append (k_ops E) (rt_store rt) [persisted] of
           (store', ok) \<Rightarrow>
             (rt\<lparr> rt_logSeq := seq, rt_store := store' \<rparr>, if ok then Some persisted else None))"

definition install :: "graph_state \<Rightarrow> persisted_rewrite list \<Rightarrow> 's runtime \<Rightarrow> 's runtime" where
  "install next prs rt = rt\<lparr> rt_state := next, rt_log := rt_log rt @ prs \<rparr>"

section \<open>Validation and gates\<close>

definition validate :: "registry option \<Rightarrow> envelope \<Rightarrow> operad_error option" where
  "validate reg env =
     (case reg of
        None \<Rightarrow> None
      | Some r \<Rightarrow>
          (case e_RewriteType env of
             ADD \<Rightarrow> ValidateADD r env
           | LINK \<Rightarrow> ValidateLINK r env
           | UNLINK \<Rightarrow> ValidateUNLINK r env
           | _ \<Rightarrow> None))"

definition injectPropertySpec :: "registry option \<Rightarrow> envelope \<Rightarrow> node \<Rightarrow> envelope" where
  "injectPropertySpec reg env nd =
     (if e_PropertySpec env \<noteq> None then env
      else case reg of
        None \<Rightarrow> env
      | Some r \<Rightarrow>
          if mget (n_Properties nd) (e_Field env) \<noteq> None then env
          else case mget (NodeTypes r) (n_TypeID nd) of
            None \<Rightarrow> env
          | Some typeSpec \<Rightarrow>
              (case mget (nt_Properties typeSpec) (e_Field env) of
                 None \<Rightarrow> env
               | Some pspec \<Rightarrow>
                   if ps_Mutability pspec \<noteq> ''mutable'' then env
                   else env\<lparr> e_PropertySpec := Some
                     \<lparr> p_Value = VNil, p_Mutability = ps_Mutability pspec,
                       p_AuthorityScope = ps_AuthorityScope pspec, p_StratumOrigin = 2,
                       p_ValidationType = '''' \<rparr> \<rparr>))"

definition endpoints :: "urn \<Rightarrow> urn \<Rightarrow> urn list" where
  "endpoints src tgt =
     (if src \<noteq> '''' then [src] else []) @ (if tgt \<noteq> '''' \<and> tgt \<noteq> src then [tgt] else [])"

definition gate_targets :: "envelope \<Rightarrow> graph_state \<Rightarrow> urn list" where
  "gate_targets env state =
     (case e_RewriteType env of
        ADD \<Rightarrow> []
      | MUTATE \<Rightarrow> if e_TargetURN env \<noteq> '''' then [e_TargetURN env] else []
      | LINK \<Rightarrow> endpoints (e_SrcURN env) (e_TgtURN env)
      | UNLINK \<Rightarrow>
          (case mget (Relations state) (e_RelationURN env) of
             None \<Rightarrow> [] | Some rel \<Rightarrow> endpoints (r_SrcURN rel) (r_TgtURN rel))
      | OtherRewrite _ \<Rightarrow> [])"

fun gates_from ::
  "graph_state \<Rightarrow> urn list \<Rightarrow> (urn, relation) gomap \<Rightarrow> gate_error option" where
  "gates_from state targets [] = None"
| "gates_from state targets ((_, rel) # rest) =
     (if r_TgtPort rel \<noteq> ''guarded-by'' then gates_from state targets rest
      else if r_TgtURN rel \<notin> set targets then gates_from state targets rest
      else case mget (Nodes state) (r_SrcURN rel) of
        None \<Rightarrow> Some (GateNodeMissing (r_SrcURN rel))
      | Some gateNode \<Rightarrow>
          if n_TypeID gateNode \<noteq> ''gate'' then gates_from state targets rest
          else if \<not> EvaluatePredicate state gateNode
          then Some (GateFailed (r_SrcURN rel) (propStr gateNode ''predicate_type'') (r_TgtURN rel))
          else gates_from state targets rest)"

definition checkGatesAgainstState :: "envelope \<Rightarrow> graph_state \<Rightarrow> gate_error option" where
  "checkGatesAgainstState env state =
     (let targets = gate_targets env state
      in if targets = [] then None else gates_from state targets (Relations state))"

definition checkGatesLocked :: "'s runtime \<Rightarrow> envelope \<Rightarrow> gate_error option" where
  "checkGatesLocked rt env = checkGatesAgainstState env (rt_state rt)"

section \<open>Kernel-internal emissions\<close>

definition hdcActorURN :: "graph_state \<Rightarrow> urn \<Rightarrow> urn" where
  "hdcActorURN state defaultActor =
     (if HasPrefix defaultActor ''urn:moos:kernel:'' then defaultActor
      else
        let kernels = sort [u. (u, nd) \<leftarrow> Nodes state, n_TypeID nd = ''kernel'']
        in if kernels = [] then defaultActor
           else case find (\<lambda>u. HasSuffix u ''.primary'') kernels of
             Some u \<Rightarrow> u
           | None \<Rightarrow> hd kernels)"

definition local_t_of :: "node \<Rightarrow> int" where
  "local_t_of nd =
     (case mget (n_Properties nd) ''local_t'' of
        None \<Rightarrow> 0
      | Some prop \<Rightarrow>
          (case p_Value prop of
             VFloat m e \<Rightarrow> float_to_int m e
           | VInt i \<Rightarrow> i
           | _ \<Rightarrow> 0))"

definition bump_envelope :: "'s runtime \<Rightarrow> urn \<Rightarrow> node \<Rightarrow> envelope" where
  "bump_envelope rt sessionURN nd =
     injectPropertySpec (rt_registry rt)
       ((zero_envelope MUTATE (hdcActorURN (rt_state rt) sessionURN))\<lparr> e_RewriteCategory := WF19,
          e_TargetURN := sessionURN, e_Field := ''local_t'',
          e_NewValue := VInt (wrap64 (local_t_of nd + 1)) \<rparr>) nd"

text \<open>
  The common tail of the internal emissions: fold at a fresh clock reading, persist, install,
  broadcast. The flag says whether the rewrite landed.
\<close>

definition emit :: "'s kenv \<Rightarrow> 's runtime \<Rightarrow> envelope \<Rightarrow> 's runtime \<times> bool" where
  "emit E rt0 env =
     (case read_clock E rt0 of
        (now, rt) \<Rightarrow>
          (case EvaluateAt (rt_state rt) env now of
             Inl _ \<Rightarrow> (rt, False)
           | Inr (next, _) \<Rightarrow>
               (case persist_one E rt env now of
                  (rt', None) \<Rightarrow> (rt', False)
                | (rt', Some persisted) \<Rightarrow> (broadcast persisted (install next [persisted] rt'), True))))"

definition bumpSessionLocalT :: "'s kenv \<Rightarrow> 's runtime \<Rightarrow> urn \<Rightarrow> 's runtime" where
  "bumpSessionLocalT E rt sessionURN =
     (case mget (Nodes (rt_state rt)) sessionURN of
        None \<Rightarrow> rt
      | Some actorNode \<Rightarrow>
          if n_TypeID actorNode \<noteq> ''session'' then rt
          else fst (emit E rt (bump_envelope rt sessionURN actorNode)))"

definition resolveSessionForBump :: "graph_state \<Rightarrow> envelope \<Rightarrow> urn option" where
  "resolveSessionForBump state env =
     (let res = ResolveSessionForEnvelope state env
      in case rs_Kind res of
           ResolveSessionExplicit \<Rightarrow> Some (rs_SessionURN res)
         | ResolveSessionInferred \<Rightarrow> Some (rs_SessionURN res)
         | ResolveSessionActorIsSession \<Rightarrow> Some (rs_SessionURN res)
         | _ \<Rightarrow> None)"

definition applyStagedLocked :: "'s kenv \<Rightarrow> 's runtime \<Rightarrow> envelope \<Rightarrow> 's runtime \<times> bool" where
  "applyStagedLocked E rt env =
     (if validate (rt_registry rt) env \<noteq> None then (rt, False) else emit E rt env)"

definition reactive_mutate_ok :: "'s runtime \<Rightarrow> envelope \<Rightarrow> bool" where
  "reactive_mutate_ok rt env =
     (case (e_RewriteType env, rt_registry rt) of
        (MUTATE, Some r) \<Rightarrow>
          (case mget (Nodes (rt_state rt)) (e_TargetURN env) of
             None \<Rightarrow> True
           | Some nd \<Rightarrow> ValidateMUTATE r env nd = None)
      | _ \<Rightarrow> True)"

definition applyReactiveLocked :: "'s kenv \<Rightarrow> 's runtime \<Rightarrow> envelope \<Rightarrow> 's runtime \<times> bool" where
  "applyReactiveLocked E rt env =
     (if validate (rt_registry rt) env \<noteq> None then (rt, False)
      else if \<not> reactive_mutate_ok rt env then (rt, False)
      else emit E rt env)"

section \<open>Event hooks\<close>

definition firing_state_spec :: property where
  "firing_state_spec =
     \<lparr> p_Value = VNil, p_Mutability = ''mutable'', p_AuthorityScope = ''kernel'', p_StratumOrigin = 2,
       p_ValidationType = '''' \<rparr>"

definition event_proposal_urn :: "node \<Rightarrow> int \<Rightarrow> int \<Rightarrow> nat \<Rightarrow> urn" where
  "event_proposal_urn hook currentT logSeq firingIdx =
     ''urn:moos:proposal:kernel.'' @ slugFromURN (n_URN hook) @ ''-t'' @ string_of_int currentT @
     ''-evt'' @ string_of_int logSeq @ ''-n'' @ string_of_nat firingIdx"

definition proposed_envelope_of :: "golib \<Rightarrow> envelope \<Rightarrow> val option" where
  "proposed_envelope_of lib proposal =
     (case json_marshal_envelope lib proposal of
        None \<Rightarrow> None
      | Some raw \<Rightarrow> map_option VObj (parse_map lib raw))"

definition sweepActorLocked :: "'s runtime \<Rightarrow> urn" where
  "sweepActorLocked rt = (if rt_sweepActor rt = '''' then DefaultSweepActor else rt_sweepActor rt)"

text \<open>The staging MUTATE gets the declared spec, or the built-in one when the hook lacks the field.\<close>

definition staging_mutate :: "'s runtime \<Rightarrow> node \<Rightarrow> envelope \<Rightarrow> envelope" where
  "staging_mutate rt hook env =
     (let env1 = injectPropertySpec (rt_registry rt) env hook
      in if e_PropertySpec env1 = None \<and> mget (n_Properties hook) ''firing_state'' = None
         then env1\<lparr> e_PropertySpec := Some firing_state_spec \<rparr> else env1)"

definition stageEventHookLocked ::
  "'s kenv \<Rightarrow> 's runtime \<Rightarrow> firing \<Rightarrow> persisted_rewrite \<Rightarrow> nat \<Rightarrow> 's runtime" where
  "stageEventHookLocked E rt0 f trigger firingIdx =
     (case mget (Nodes (rt_state rt0)) (f_SourceHook f) of
        None \<Rightarrow> rt0
      | Some hook \<Rightarrow>
          if firingStateOf hook \<noteq> '''' \<and> firingStateOf hook \<noteq> ''pending'' then rt0
          else
            (case read_clock E rt0 of (t1, rt1) \<Rightarrow>
            (case read_clock E rt1 of (t2, rt) \<Rightarrow>
               let currentT = tday_Now t1;
                   nowStr = rfc3339 (k_lib E) t2;
                   proposalURN = event_proposal_urn hook currentT (pr_LogSeq trigger) firingIdx
               in (case proposed_envelope_of (k_lib E) (f_Proposal f) of
                     None \<Rightarrow> rt
                   | Some v \<Rightarrow>
                       (case stageHookProposalPair hook currentT (sweepActorLocked rt) proposalURN nowStr (Some v) of
                          (add, mutate0) \<Rightarrow>
                            let mutate = staging_mutate rt hook mutate0
                            in if checkGatesLocked rt add \<noteq> None then rt
                               else if checkGatesLocked rt mutate \<noteq> None then rt
                               else (case applyStagedLocked E rt add of
                                       (rt', landed) \<Rightarrow>
                                         if \<not> landed then rt' else fst (applyStagedLocked E rt' mutate)))))))"

fun route_firings ::
  "'s kenv \<Rightarrow> 's runtime \<Rightarrow> persisted_rewrite \<Rightarrow> nat \<Rightarrow> firing list \<Rightarrow> 's runtime" where
  "route_firings E rt trigger i [] = rt"
| "route_firings E rt trigger i (f # rest) =
     (let rt' = (case f_Kind f of
                   FiringTHook \<Rightarrow> stageEventHookLocked E rt f trigger i
                 | FiringReactor \<Rightarrow> fst (applyReactiveLocked E rt (f_Proposal f))
                 | OtherFiring _ \<Rightarrow> rt)
      in route_firings E rt' trigger (Suc i) rest)"

text \<open>The engine sees a snapshot of the state; the firings are routed one after the other.\<close>

definition runReactive :: "'s kenv \<Rightarrow> 's runtime \<Rightarrow> persisted_rewrite \<Rightarrow> 's runtime" where
  "runReactive E rt trigger =
     route_firings E rt trigger 0 (EvaluateDetailed (k_lib E) (rt_state rt) trigger)"

section \<open>Drift claims\<close>

definition shortHash :: "golib \<Rightarrow> string \<Rightarrow> string" where
  "shortHash lib s = hex_encode (take 6 (sha1_sum lib s))"

definition decimal_gt_one :: "int \<Rightarrow> int \<Rightarrow> bool" where
  "decimal_gt_one m e = (if e \<ge> 0 then m * 10 ^ nat e > 1 else m > 10 ^ nat (- e))"

definition clamp_confidence :: "int \<Rightarrow> int \<Rightarrow> val" where
  "clamp_confidence m e =
     (if m < 0 then VFloat 0 0 else if decimal_gt_one m e then VFloat 1 0 else VFloat m e)"

definition drift_claim :: "urn \<Rightarrow> urn \<Rightarrow> string \<Rightarrow> drift_row \<Rightarrow> envelope" where
  "drift_claim actor claimURN now row =
     (zero_envelope ADD actor)\<lparr> e_NodeURN := claimURN, e_TypeID := ''claim'',
       e_Properties :=
         [(''text'', staged_property (VStr (''type drift detected for '' @ d_URN row)) ''immutable'' ''''),
          (''created_at'', staged_property (VStr now) ''immutable'' ''''),
          (''source_ki_urn'', staged_property (VStr ''urn:moos:ki:system.hdc-drift'') ''immutable'' ''''),
          (''confidence'', staged_property (clamp_confidence (d_Mantissa row) (d_Exponent row)) ''mutable'' ''kernel''),
          (''subject_urn'', staged_property (VStr (d_URN row)) ''immutable'' ''''),
          (''declared_type'', staged_property (VStr (d_DeclaredType row)) ''immutable'' ''''),
          (''expressed_type'', staged_property (VStr (d_ExpressedType row)) ''immutable'' ''''),
          (''drift_score'', staged_property (VFloat (d_Mantissa row) (d_Exponent row)) ''mutable'' ''kernel'')] \<rparr>"

definition drift_link :: "urn \<Rightarrow> urn \<Rightarrow> urn \<Rightarrow> drift_row \<Rightarrow> envelope" where
  "drift_link actor claimURN relURN row =
     (zero_envelope LINK actor)\<lparr> e_RewriteCategory := WF15, e_RelationURN := relURN,
       e_SrcURN := claimURN, e_SrcPort := driftAnnotationSemanticPort, e_TgtURN := d_URN row,
       e_TgtPort := driftAnnotationSemanticPort, e_ContractURN := driftAnnotationContractURN \<rparr>"

definition annotate_row :: "'s kenv \<Rightarrow> urn \<Rightarrow> string \<Rightarrow> 's runtime \<Rightarrow> drift_row \<Rightarrow> 's runtime" where
  "annotate_row E actor now rt row =
     (if HasPrefix (d_URN row) ''urn:moos:claim:type-drift.'' then rt
      else if d_DeclaredType row = ''claim'' then rt
      else
        let hash = shortHash (k_lib E) (d_URN row);
            claimURN = ''urn:moos:claim:type-drift.'' @ hash;
            relURN = ''urn:moos:rel:type-drift.'' @ hash @ ''.annotation''
        in if mget (Nodes (rt_state rt)) claimURN \<noteq> None then rt
           else
             let rt1 = fst (applyReactiveLocked E rt (drift_claim actor claimURN now row))
             in if mget (Relations (rt_state rt1)) relURN \<noteq> None then rt1
                else fst (applyReactiveLocked E rt1 (drift_link actor claimURN relURN row)))"

definition runHDCIndexAndDriftLocked :: "'s kenv \<Rightarrow> 's runtime \<Rightarrow> envelope \<Rightarrow> 's runtime" where
  "runHDCIndexAndDriftLocked E rt0 trigger =
     (case e_RewriteType trigger of
        OtherRewrite _ \<Rightarrow> rt0
      | _ \<Rightarrow>
          let drifted = k_drifted E (rt_state rt0)
          in if drifted = [] then rt0
             else
               let actor = hdcActorURN (rt_state rt0) (e_Actor trigger)
               in (case read_clock E rt0 of (t, rt) \<Rightarrow>
                     foldl (annotate_row E actor (rfc3339 (k_lib E) t)) rt drifted))"

section \<open>Apply\<close>

definition apply_check :: "'s runtime \<Rightarrow> envelope \<Rightarrow> bool \<Rightarrow> kernel_error option" where
  "apply_check rt env skipLiveness =
     (case (if skipLiveness then None else checkLiveness (rt_registry rt) env (rt_state rt)) of
        Some err \<Rightarrow> Some err
      | None \<Rightarrow> map_option OperadErr (validate (rt_registry rt) env))"

text \<open>The MUTATE block: validate against the current node and inject the declared spec.\<close>

definition prepare_mutate :: "'s runtime \<Rightarrow> envelope \<Rightarrow> operad_error + envelope" where
  "prepare_mutate rt env =
     (case (e_RewriteType env, rt_registry rt) of
        (MUTATE, Some r) \<Rightarrow>
          (case mget (Nodes (rt_state rt)) (e_TargetURN env) of
             None \<Rightarrow> Inr env
           | Some nd \<Rightarrow>
               (case ValidateMUTATE r env nd of
                  Some err \<Rightarrow> Inl err
                | None \<Rightarrow> Inr (injectPropertySpec (rt_registry rt) env nd)))
      | _ \<Rightarrow> Inr env)"

definition link_gates :: "registry option \<Rightarrow> envelope \<Rightarrow> graph_state \<Rightarrow> operad_error option" where
  "link_gates reg env state =
     (case (e_RewriteType env, reg) of
        (LINK, Some r) \<Rightarrow>
          err_seq (ValidateStrataLink r env state) (ValidateCausalAcyclic env state)
      | _ \<Rightarrow> None)"

text \<open>After the commit: bump the session, notify, react, annotate drift.\<close>

definition after_commit ::
  "'s kenv \<Rightarrow> 's runtime \<Rightarrow> urn option \<Rightarrow> persisted_rewrite \<Rightarrow> envelope \<Rightarrow> 's runtime" where
  "after_commit E rt bump persisted env =
     (let rt1 = (case bump of None \<Rightarrow> rt | Some u \<Rightarrow> bumpSessionLocalT E rt u);
          rt2 = broadcast persisted rt1;
          rt3 = runReactive E rt2 persisted
      in runHDCIndexAndDriftLocked E rt3 env)"

definition apply_locked ::
  "'s kenv \<Rightarrow> 's runtime \<Rightarrow> envelope \<Rightarrow> 's runtime \<times> (kernel_error + eval_result)" where
  "apply_locked E rt0 env0 =
     (case prepare_mutate rt0 env0 of
        Inl err \<Rightarrow> (rt0, Inl (OperadErr err))
      | Inr env \<Rightarrow>
          (case link_gates (rt_registry rt0) env (rt_state rt0) of
             Some err \<Rightarrow> (rt0, Inl (OperadErr err))
           | None \<Rightarrow>
               (case checkGatesLocked rt0 env of
                  Some err \<Rightarrow> (rt0, Inl (GateErr err))
                | None \<Rightarrow>
                    (case read_clock E rt0 of
                       (now, rt) \<Rightarrow>
                         (case EvaluateAt (rt_state rt) env now of
                            Inl err \<Rightarrow> (rt, Inl (FoldErr err))
                          | Inr (next, result) \<Rightarrow>
                              (case persist_one E rt env now of
                                 (rt', None) \<Rightarrow> (rt', Inl PersistErr)
                               | (rt', Some persisted) \<Rightarrow>
                                   let bump = resolveSessionForBump (rt_state rt') env
                                   in (after_commit E (install next [persisted] rt') bump persisted env,
                                       Inr result)))))))"

definition applyWithOptions ::
  "'s kenv \<Rightarrow> 's runtime \<Rightarrow> envelope \<Rightarrow> bool \<Rightarrow> 's runtime \<times> (kernel_error + eval_result)" where
  "applyWithOptions E rt env skipLiveness =
     (case apply_check rt env skipLiveness of
        Some err \<Rightarrow> (rt, Inl err)
      | None \<Rightarrow> apply_locked E rt env)"

definition Apply :: "'s kenv \<Rightarrow> 's runtime \<Rightarrow> envelope \<Rightarrow> 's runtime \<times> (kernel_error + eval_result)" where
  "Apply E rt env = applyWithOptions E rt env False"

definition SeedIfAbsent :: "'s kenv \<Rightarrow> 's runtime \<Rightarrow> envelope \<Rightarrow> 's runtime \<times> kernel_error option" where
  "SeedIfAbsent E rt env =
     (case applyWithOptions E rt env True of
        (rt', Inr _) \<Rightarrow> (rt', None)
      | (rt', Inl err) \<Rightarrow>
          (rt', case err of
                  FoldErr (ErrNodeExists _) \<Rightarrow> None
                | FoldErr (ErrRelationExists _) \<Rightarrow> None
                | _ \<Rightarrow> Some err))"

section \<open>Programs\<close>

fun program_preflight :: "'s runtime \<Rightarrow> envelope list \<Rightarrow> kernel_error option" where
  "program_preflight rt [] = None"
| "program_preflight rt (env # rest) =
     (case checkLivenessM11 (rt_registry rt) env (rt_state rt) of
        Some err \<Rightarrow> Some err
      | None \<Rightarrow>
          (case validate (rt_registry rt) env of
             Some err \<Rightarrow> Some (OperadErr err)
           | None \<Rightarrow> program_preflight rt rest))"

definition inject_against :: "registry option \<Rightarrow> graph_state \<Rightarrow> envelope \<Rightarrow> envelope" where
  "inject_against reg ws env =
     (case (e_RewriteType env, reg) of
        (MUTATE, Some _) \<Rightarrow>
          (case mget (Nodes ws) (e_TargetURN env) of
             None \<Rightarrow> env
           | Some nd \<Rightarrow> injectPropertySpec reg env nd)
      | _ \<Rightarrow> env)"

text \<open>The walk over the batch against the evolving working state; it yields the injected batch.\<close>

fun working_loop ::
  "registry option \<Rightarrow> graph_state \<Rightarrow> (envelope \<times> time) list \<Rightarrow> kernel_error + envelope list" where
  "working_loop reg ws [] = Inr []"
| "working_loop reg ws ((env0, t) # rest) =
     (let env = inject_against reg ws env0
      in case checkLivenessM12 reg env ws of
           Some err \<Rightarrow> Inl err
         | None \<Rightarrow>
             (case link_gates reg env ws of
                Some err \<Rightarrow> Inl (OperadErr err)
              | None \<Rightarrow>
                  (case checkGatesAgainstState env ws of
                     Some err \<Rightarrow> Inl (GateErr err)
                   | None \<Rightarrow>
                       (case EvaluateAt ws env t of
                          Inl err \<Rightarrow> Inl (FoldErr err)
                        | Inr (next, _) \<Rightarrow>
                            (case working_loop reg next rest of
                               Inl err \<Rightarrow> Inl err
                             | Inr es \<Rightarrow> Inr (env # es))))))"

fun stamp_all :: "int \<Rightarrow> (envelope \<times> time) list \<Rightarrow> persisted_rewrite list" where
  "stamp_all seq [] = []"
| "stamp_all seq ((env, ts) # rest) =
     \<lparr> pr_Envelope = env, pr_AppliedAt = ts, pr_Timestamp = ts, pr_LogSeq = wrap64 (seq + 1) \<rparr>
     # stamp_all (wrap64 (seq + 1)) rest"

fun advance_seq :: "int \<Rightarrow> nat \<Rightarrow> int" where
  "advance_seq seq 0 = seq"
| "advance_seq seq (Suc n) = advance_seq (wrap64 (seq + 1)) n"

definition sessions_to_bump :: "graph_state \<Rightarrow> envelope list \<Rightarrow> urn list" where
  "sessions_to_bump state es =
     foldl (\<lambda>acc env. case resolveSessionForBump state env of None \<Rightarrow> acc | Some u \<Rightarrow> set_add u acc) [] es"

definition commit_program ::
  "'s kenv \<Rightarrow> 's runtime \<Rightarrow> envelope list \<Rightarrow> time list \<Rightarrow> graph_state \<Rightarrow> eval_result list \<Rightarrow>
   's runtime \<times> (kernel_error + eval_result list)" where
  "commit_program E rt es ts nextState results =
     (let persisted = stamp_all (rt_logSeq rt) (zip es ts);
          rt1 = rt\<lparr> rt_logSeq := advance_seq (rt_logSeq rt) (length es) \<rparr>
      in case so_Append (k_ops E) (rt_store rt1) persisted of
           (store', ok) \<Rightarrow>
             let rt2 = rt1\<lparr> rt_store := store' \<rparr>
             in if \<not> ok then (rt2, Inl PersistErr)
                else
                  let bumps = sessions_to_bump (rt_state rt2) es;
                      rt3 = install nextState persisted rt2;
                      rt4 = foldl (bumpSessionLocalT E) rt3 bumps;
                      rt5 = foldl (\<lambda>r p. broadcast p r) rt4 persisted;
                      rt6 = (if es = [] then rt5 else runHDCIndexAndDriftLocked E rt5 (last es))
                  in (rt6, Inr results))"

definition program_locked ::
  "'s kenv \<Rightarrow> 's runtime \<Rightarrow> envelope list \<Rightarrow> 's runtime \<times> (kernel_error + eval_result list)" where
  "program_locked E rt0 envelopes =
     (case read_clock E rt0 of
        (baseNow, rt) \<Rightarrow>
          let appliedAt = map (\<lambda>i. baseNow + int i) [0..<length envelopes]
          in (case working_loop (rt_registry rt) (Clone (rt_state rt)) (zip envelopes appliedAt) of
                Inl err \<Rightarrow> (rt, Inl err)
              | Inr injected \<Rightarrow>
                  (case EvaluateProgramAt (rt_state rt) injected appliedAt (\<lambda>_. baseNow) of
                     Inl err \<Rightarrow> (rt, Inl (ProgramErr err))
                   | Inr (nextState, results) \<Rightarrow> commit_program E rt injected appliedAt nextState results)))"

definition ApplyProgram ::
  "'s kenv \<Rightarrow> 's runtime \<Rightarrow> envelope list \<Rightarrow> 's runtime \<times> (kernel_error + eval_result list)" where
  "ApplyProgram E rt envelopes =
     (case program_preflight rt envelopes of
        Some err \<Rightarrow> (rt, Inl err)
      | None \<Rightarrow> program_locked E rt envelopes)"

section \<open>The sweep\<close>

definition SetSweepActor :: "'s runtime \<Rightarrow> urn \<Rightarrow> 's runtime" where
  "SetSweepActor rt actor = rt\<lparr> rt_sweepActor := actor \<rparr>"

definition State :: "'s runtime \<Rightarrow> graph_state" where
  "State rt = Clone (rt_state rt)"

definition SweepTick :: "'s kenv \<Rightarrow> 's runtime \<Rightarrow> 's runtime" where
  "SweepTick E rt0 =
     (let actor = sweepActorLocked rt0;
          state = State rt0
      in case read_clock E rt0 of (t1, rt1) \<Rightarrow>
         (case read_clock E rt1 of (t2, rt) \<Rightarrow>
            let envelopes = SweepOnce (k_lib E) state (CurrentSweepTDay t1) actor (rt_logSeq rt0) t2
            in if envelopes = [] then rt else fst (ApplyProgram E rt envelopes)))"

text \<open>
  The sweep goroutine, over the events it waits for: the ticker, the end of the context, and meanwhile what
  other goroutines do to the runtime. The flag tells whether the loop has returned; an interval that is not
  positive disables it.
\<close>

datatype 's sweep_event = Ticked | Cancelled | Meanwhile "'s runtime \<Rightarrow> 's runtime"

fun sweep_rounds :: "'s kenv \<Rightarrow> 's sweep_event list \<Rightarrow> 's runtime \<Rightarrow> 's runtime \<times> bool" where
  "sweep_rounds E [] rt = (rt, False)"
| "sweep_rounds E (Cancelled # evs) rt = (rt, True)"
| "sweep_rounds E (Ticked # evs) rt = sweep_rounds E evs (SweepTick E rt)"
| "sweep_rounds E (Meanwhile f # evs) rt = sweep_rounds E evs (f rt)"

definition RunTimedSweep :: "'s kenv \<Rightarrow> int \<Rightarrow> 's sweep_event list \<Rightarrow> 's runtime \<Rightarrow> 's runtime \<times> bool" where
  "RunTimedSweep E interval evs rt = (if interval \<le> 0 then (rt, True) else sweep_rounds E evs rt)"

section \<open>Read access and subscriptions\<close>

definition Node :: "'s runtime \<Rightarrow> urn \<Rightarrow> node option" where
  "Node rt u = mget (Nodes (rt_state rt)) u"

definition rt_Nodes :: "'s runtime \<Rightarrow> node list" where
  "rt_Nodes rt = map snd (Nodes (rt_state rt))"

definition Relation :: "'s runtime \<Rightarrow> urn \<Rightarrow> relation option" where
  "Relation rt u = mget (Relations (rt_state rt)) u"

definition rt_Relations :: "'s runtime \<Rightarrow> relation list" where
  "rt_Relations rt = map snd (Relations (rt_state rt))"

definition RelationsSrc :: "'s runtime \<Rightarrow> urn \<Rightarrow> relation list" where
  "RelationsSrc rt u = [r. (_, r) \<leftarrow> Relations (rt_state rt), r_SrcURN r = u]"

definition RelationsTgt :: "'s runtime \<Rightarrow> urn \<Rightarrow> relation list" where
  "RelationsTgt rt u = [r. (_, r) \<leftarrow> Relations (rt_state rt), r_TgtURN r = u]"

definition Log :: "'s runtime \<Rightarrow> persisted_rewrite list" where
  "Log rt = rt_log rt"

definition LogLen :: "'s runtime \<Rightarrow> nat" where
  "LogLen rt = length (rt_log rt)"

definition MaxLogSeq :: "'s runtime \<Rightarrow> int" where
  "MaxLogSeq rt = rt_logSeq rt"

definition LogStats :: "'s runtime \<Rightarrow> nat \<times> int" where
  "LogStats rt = (length (rt_log rt), rt_logSeq rt)"

definition LogSeqMissing :: "'s runtime \<Rightarrow> nat" where
  "LogSeqMissing rt = rt_preSeqEntries rt"

definition Subscribe :: "'s runtime \<Rightarrow> string \<Rightarrow> 's runtime" where
  "Subscribe rt name = rt\<lparr> rt_subscribers := mput name [] (rt_subscribers rt) \<rparr>"

definition Unsubscribe :: "'s runtime \<Rightarrow> string \<Rightarrow> 's runtime" where
  "Unsubscribe rt name = rt\<lparr> rt_subscribers := mdel name (rt_subscribers rt) \<rparr>"

text \<open>A subscriber takes the oldest rewrite off its channel.\<close>

definition Receive :: "'s runtime \<Rightarrow> string \<Rightarrow> 's runtime \<times> persisted_rewrite option" where
  "Receive rt name =
     (case mget (rt_subscribers rt) name of
        Some (pr # rest) \<Rightarrow> (rt\<lparr> rt_subscribers := mput name rest (rt_subscribers rt) \<rparr>, Some pr)
      | _ \<Rightarrow> (rt, None))"

end
