(* ===== verification/RuntimeSpec.thy ===== *)
theory RuntimeSpec
  imports Runtime
begin

text \<open>
  What the runtime promises: its state is the replay of its log, its log only grows, its sequence
  numbers only rise. Every operation \<open>grown\<close>s a runtime; the relation is reflexive and
  transitive, so the handlers inherit it from \<open>emit\<close> and the two commits. The step relation
  covers any interleaving of the operations at the points where the code takes its write lock.
\<close>

section \<open>Growth\<close>

definition rt_ok :: "'s runtime \<Rightarrow> bool" where
  "rt_ok rt \<longleftrightarrow> Replay (rt_log rt) = (rt_state rt, None)"

definition seq_room :: "int \<Rightarrow> nat \<Rightarrow> bool" where
  "seq_room s n \<longleftrightarrow> 0 \<le> s \<and> s + int n < 2 ^ 63"

definition fresh_seqs :: "int \<Rightarrow> int \<Rightarrow> persisted_rewrite list \<Rightarrow> bool" where
  "fresh_seqs lo hi new \<longleftrightarrow> sorted_wrt (<) (seqs new) \<and> (\<forall>s\<in>set (seqs new). lo < s \<and> s \<le> hi)"

text \<open>
  The store changes by appends only, and the log takes exactly what the store accepted; the number
  counts the entries handed to the store.
\<close>

inductive store_steps ::
  "'s store_ops \<Rightarrow> nat \<Rightarrow> 's \<times> persisted_rewrite list \<Rightarrow> 's \<times> persisted_rewrite list \<Rightarrow> bool" for ops where
  start: "store_steps ops 0 x x"
| accepted: "store_steps ops (n + length es) x (st', log @ es)"
  if "store_steps ops n x (st, log)" "so_Append ops st es = (st', True)"
| refused: "store_steps ops (n + length es) x (st', log)"
  if "store_steps ops n x (st, log)" "so_Append ops st es = (st', False)"

lemma store_steps_trans:
  assumes "store_steps ops n y z" "store_steps ops m x y"
  shows "store_steps ops (m + n) x z"
  using assms
proof (induction rule: store_steps.induct)
  case (start x)
  then show ?case by simp
next
  case (accepted n y st log es st')
  then show ?case using store_steps.accepted [of ops "m + n" x st log es st'] by (simp add: ac_simps)
next
  case (refused n y st log es st')
  then show ?case using store_steps.refused [of ops "m + n" x st log es st'] by (simp add: ac_simps)
qed

lemma store_steps_one:
  "so_Append ops st es = (st', ok) \<Longrightarrow> store_steps ops (length es) (st, log) (st', if ok then log @ es else log)"
  using store_steps.accepted [OF store_steps.start, of ops st es st' log]
    store_steps.refused [OF store_steps.start, of ops st es st' log]
  by (cases ok) simp_all

text \<open>A growth hands \<open>n\<close> entries to the store, each under a number of its own.\<close>

definition grows :: "'s kenv \<Rightarrow> nat \<Rightarrow> 's runtime \<Rightarrow> 's runtime \<Rightarrow> bool" where
  "grows E n rt rt' \<longleftrightarrow>
     (rt_ok rt \<longrightarrow> rt_ok rt') \<and> rt_registry rt' = rt_registry rt \<and>
     store_steps (k_ops E) n (rt_store rt, rt_log rt) (rt_store rt', rt_log rt') \<and>
     (\<exists>new. rt_log rt' = rt_log rt @ new \<and>
        (seq_room (rt_logSeq rt) n \<longrightarrow>
           rt_logSeq rt' = rt_logSeq rt + int n \<and> fresh_seqs (rt_logSeq rt) (rt_logSeq rt') new))"

definition grown :: "'s kenv \<Rightarrow> 's runtime \<Rightarrow> 's runtime \<Rightarrow> bool" where
  "grown E rt rt' \<longleftrightarrow> (\<exists>n. grows E n rt rt')"

lemma good_state_Replay: "Replay es = (s, None) \<Longrightarrow> good_state s"
  using replay.inv_fold_log [of NewGraphState replay_skip 0 es] by (simp add: Replay_None)

lemma rt_ok_good: "rt_ok rt \<Longrightarrow> good_state (rt_state rt)"
  by (auto simp: rt_ok_def dest: good_state_Replay)

lemma grows_same:
  "rt_state rt' = rt_state rt \<Longrightarrow> rt_log rt' = rt_log rt \<Longrightarrow> rt_registry rt' = rt_registry rt \<Longrightarrow>
   rt_logSeq rt' = rt_logSeq rt \<Longrightarrow> rt_store rt' = rt_store rt \<Longrightarrow> grows E 0 rt rt'"
  by (simp add: grows_def rt_ok_def fresh_seqs_def store_steps.start)

lemma grown_same:
  "rt_state rt' = rt_state rt \<Longrightarrow> rt_log rt' = rt_log rt \<Longrightarrow> rt_registry rt' = rt_registry rt \<Longrightarrow>
   rt_logSeq rt' = rt_logSeq rt \<Longrightarrow> rt_store rt' = rt_store rt \<Longrightarrow> grown E rt rt'"
  unfolding grown_def by (blast intro: grows_same)

lemma grown_refl [simp, intro]: "grown E rt rt"
  by (rule grown_same) simp_all

lemma fresh_seqs_append:
  "fresh_seqs a b xs \<Longrightarrow> fresh_seqs b c ys \<Longrightarrow> a \<le> b \<Longrightarrow> b \<le> c \<Longrightarrow> fresh_seqs a c (xs @ ys)"
  unfolding fresh_seqs_def by (fastforce simp: sorted_wrt_append)

lemma grows_trans:
  assumes "grows E m a b" "grows E n b c"
  shows "grows E (m + n) a c"
proof -
  obtain xs where xs: "rt_log b = rt_log a @ xs" "seq_room (rt_logSeq a) m \<longrightarrow>
      rt_logSeq b = rt_logSeq a + int m \<and> fresh_seqs (rt_logSeq a) (rt_logSeq b) xs"
    using assms(1) by (auto simp: grows_def)
  obtain ys where ys: "rt_log c = rt_log b @ ys" "seq_room (rt_logSeq b) n \<longrightarrow>
      rt_logSeq c = rt_logSeq b + int n \<and> fresh_seqs (rt_logSeq b) (rt_logSeq c) ys"
    using assms(2) by (auto simp: grows_def)
  have "rt_logSeq c = rt_logSeq a + int (m + n) \<and> fresh_seqs (rt_logSeq a) (rt_logSeq c) (xs @ ys)"
    if "seq_room (rt_logSeq a) (m + n)"
  proof -
    have "seq_room (rt_logSeq a) m" using that by (simp add: seq_room_def)
    with xs(2) have b: "rt_logSeq b = rt_logSeq a + int m" "fresh_seqs (rt_logSeq a) (rt_logSeq b) xs" by auto
    then have "seq_room (rt_logSeq b) n" using that by (simp add: seq_room_def)
    with ys(2) have c: "rt_logSeq c = rt_logSeq b + int n" "fresh_seqs (rt_logSeq b) (rt_logSeq c) ys" by auto
    have "fresh_seqs (rt_logSeq a) (rt_logSeq c) (xs @ ys)"
      by (rule fresh_seqs_append [OF b(2) c(2)]) (simp_all add: b(1) c(1))
    moreover have "rt_logSeq c = rt_logSeq a + int (m + n)" by (simp add: b(1) c(1))
    ultimately show ?thesis by blast
  qed
  note room = this
  show ?thesis
    unfolding grows_def
  proof (intro conjI exI [of _ "xs @ ys"] impI)
    show "rt_ok a \<Longrightarrow> rt_ok c" "rt_registry c = rt_registry a" using assms by (simp_all add: grows_def)
    show "rt_log c = rt_log a @ xs @ ys" by (simp add: xs(1) ys(1))
    show "store_steps (k_ops E) (m + n) (rt_store a, rt_log a) (rt_store c, rt_log c)"
      using assms store_steps_trans unfolding grows_def by blast
  qed (use room in blast)+
qed

lemma grown_trans [trans]: "grown E a b \<Longrightarrow> grown E b c \<Longrightarrow> grown E a c"
  unfolding grown_def using grows_trans by blast

section \<open>The building blocks grow the runtime\<close>

lemma read_clock_simps [simp]:
  "rt_state (snd (read_clock E rt)) = rt_state rt" "rt_log (snd (read_clock E rt)) = rt_log rt"
  "rt_registry (snd (read_clock E rt)) = rt_registry rt" "rt_logSeq (snd (read_clock E rt)) = rt_logSeq rt"
  "rt_subscribers (snd (read_clock E rt)) = rt_subscribers rt"
  "rt_store (snd (read_clock E rt)) = rt_store rt"
  by (simp_all add: read_clock_def)

lemma grown_read_clock: "grown E rt (snd (read_clock E rt))"
  by (rule grown_same) simp_all

lemma broadcast_simps [simp]:
  "rt_state (broadcast pr rt) = rt_state rt" "rt_log (broadcast pr rt) = rt_log rt"
  "rt_registry (broadcast pr rt) = rt_registry rt" "rt_logSeq (broadcast pr rt) = rt_logSeq rt"
  "rt_store (broadcast pr rt) = rt_store rt"
  by (simp_all add: broadcast_def)

lemma grown_broadcast: "grown E rt (broadcast pr rt)"
  by (rule grown_same) simp_all

lemma install_simps [simp]:
  "rt_state (install next prs rt) = next" "rt_log (install next prs rt) = rt_log rt @ prs"
  "rt_registry (install next prs rt) = rt_registry rt" "rt_logSeq (install next prs rt) = rt_logSeq rt"
  "rt_store (install next prs rt) = rt_store rt" "rt_subscribers (install next prs rt) = rt_subscribers rt"
  by (simp_all add: install_def)

lemma persist_one_simps:
  assumes "persist_one E rt env now = (rt', res)"
  shows "rt_state rt' = rt_state rt" "rt_log rt' = rt_log rt" "rt_registry rt' = rt_registry rt"
    "rt_logSeq rt' = wrap64 (rt_logSeq rt + 1)" "rt_subscribers rt' = rt_subscribers rt"
    "res = Some pr \<Longrightarrow> pr = \<lparr> pr_Envelope = env, pr_AppliedAt = now, pr_Timestamp = now,
       pr_LogSeq = wrap64 (rt_logSeq rt + 1) \<rparr>"
    "so_Append (k_ops E) (rt_store rt) [\<lparr> pr_Envelope = env, pr_AppliedAt = now, pr_Timestamp = now,
       pr_LogSeq = wrap64 (rt_logSeq rt + 1) \<rparr>] = (rt_store rt', res \<noteq> None)"
  using assms by (auto simp: persist_one_def Let_def split: prod.splits if_splits)

lemma seq_room_wrap: "seq_room s (Suc n) \<Longrightarrow> wrap64 (s + 1) = s + 1"
  by (simp add: seq_room_def)

lemma grows_persist:
  assumes "persist_one E rt env now = (rt', None)"
  shows "grows E 1 rt rt'"
  using persist_one_simps [OF assms] seq_room_wrap [of "rt_logSeq rt" 0]
    store_steps_one [OF persist_one_simps(7) [OF assms], of "rt_log rt"]
  by (simp add: grows_def rt_ok_def fresh_seqs_def)

text \<open>Replaying a stamped rewrite re-applies it at its own time.\<close>

lemma replay_step_stamped:
  "EvaluateAt s env now = Inr (s', r) \<Longrightarrow>
   replay_step s \<lparr> pr_Envelope = env, pr_AppliedAt = now, pr_Timestamp = now, pr_LogSeq = q \<rparr> = Inr s'"
  by (auto simp: replay_step_def replayAppliedAt_def IsZero_def)

lemma grows_commit:
  assumes "persist_one E rt env now = (rt', Some pr)" "EvaluateAt (rt_state rt) env now = Inr (nx, r)"
  shows "grows E 1 rt (install nx [pr] rt')"
proof -
  note p = persist_one_simps [OF assms(1)]
  have pr: "pr_LogSeq pr = wrap64 (rt_logSeq rt + 1)" "replay_step (rt_state rt) pr = Inr nx"
    unfolding p(6) [OF refl] using replay_step_stamped [OF assms(2)] by simp_all
  have ok: "rt_ok (install nx [pr] rt')" if "rt_ok rt"
    using that p(2) Replay_snoc [OF _ pr(2)] by (simp add: rt_ok_def)
  have room: "rt_logSeq rt' = rt_logSeq rt + 1" "fresh_seqs (rt_logSeq rt) (rt_logSeq rt') [pr]"
    if "seq_room (rt_logSeq rt) 1"
    using p(4) pr(1) that seq_room_wrap [of "rt_logSeq rt" 0] by (simp_all add: fresh_seqs_def)
  have "store_steps (k_ops E) 1 (rt_store rt, rt_log rt) (rt_store rt', rt_log rt @ [pr])"
    using store_steps_one [OF p(7), of "rt_log rt"] unfolding p(6) [OF refl] by simp
  with ok room p(2,3) show ?thesis
    unfolding grows_def by (intro conjI exI [of _ "[pr]"] impI) simp_all
qed

lemma grown_emit: "grown E rt (fst (emit E rt env))"
proof -
  obtain now rt1 where c: "read_clock E rt = (now, rt1)" by force
  then have 1: "grown E rt rt1" "rt_state rt1 = rt_state rt" using grown_read_clock [of E rt]
    by (metis snd_conv, metis read_clock_simps(1) snd_conv)
  show ?thesis
  proof (cases "EvaluateAt (rt_state rt1) env now")
    case (Inl err)
    with c 1 show ?thesis by (simp add: emit_def)
  next
    case (Inr nr)
    obtain nx r where nr: "nr = (nx, r)" by force
    obtain rt2 res where p: "persist_one E rt1 env now = (rt2, res)" by force
    show ?thesis
    proof (cases res)
      case None
      with p grows_persist [of E rt1 env now rt2] have "grown E rt1 rt2" by (auto simp: grown_def)
      with 1 c Inr nr p None show ?thesis by (simp add: emit_def) (rule grown_trans)
    next
      case (Some pr)
      have "grown E rt1 (install nx [pr] rt2)"
        using grows_commit [OF p [unfolded Some] Inr [unfolded nr]] by (auto simp: grown_def)
      then have "grown E rt (broadcast pr (install nx [pr] rt2))"
        using 1(1) grown_broadcast grown_trans by blast
      with c Inr nr p Some show ?thesis by (simp add: emit_def)
    qed
  qed
qed

section \<open>Relations the emissions keep\<close>

text \<open>
  Everything a commit triggers is a sequence of clock readings and emissions. A relation between
  runtimes that is reflexive and transitive and holds of those two holds of every handler.
\<close>

locale emission_closed =
  fixes R :: "'s kenv \<Rightarrow> 's runtime \<Rightarrow> 's runtime \<Rightarrow> bool"
  assumes refl: "R E rt rt"
    and trans: "R E a b \<Longrightarrow> R E b c \<Longrightarrow> R E a c"
    and clock_read: "R E rt (snd (read_clock E rt))"
    and emitted: "R E rt (fst (emit E rt env))"
begin

lemma folded: "(\<And>r x. R E r (f r x)) \<Longrightarrow> R E r (foldl f r xs)"
proof (induction xs arbitrary: r)
  case Nil
  then show ?case by (simp add: refl)
next
  case (Cons x xs)
  have "R E (f r x) (foldl f (f r x) xs)" by (rule Cons.IH) (rule Cons.prems)
  with trans [OF Cons.prems] show ?case by simp
qed

lemma staged: "R E rt (fst (applyStagedLocked E rt env))"
  by (simp add: applyStagedLocked_def emitted refl)

lemma reacted: "R E rt (fst (applyReactiveLocked E rt env))"
  by (simp add: applyReactiveLocked_def emitted refl)

lemma bumped: "R E rt (bumpSessionLocalT E rt u)"
  by (simp add: bumpSessionLocalT_def emitted refl split: option.split)

lemma hook_staged: "R E rt (stageEventHookLocked E rt f trigger i)"
proof (cases "mget (Nodes (rt_state rt)) (f_SourceHook f)")
  case None
  then show ?thesis by (simp add: stageEventHookLocked_def refl)
next
  case (Some hook)
  obtain t1 rt1 where 1: "read_clock E rt = (t1, rt1)" by force
  obtain t2 rt2 where 2: "read_clock E rt1 = (t2, rt2)" by force
  have g: "R E rt rt2" using clock_read [of E rt] clock_read [of E rt1] 1 2
    by (metis trans snd_conv)
  have add: "applyStagedLocked E rt2 a = (r, b) \<Longrightarrow> R E rt r" for a r b
    using trans [OF g staged [of E rt2 a]] by simp
  then have both: "applyStagedLocked E rt2 a = (r, b) \<Longrightarrow> R E rt (fst (applyStagedLocked E r m))" for a r b m
    using staged trans by blast
  show ?thesis
    unfolding stageEventHookLocked_def
    by (auto simp: Some 1 2 g refl Let_def intro: add both split: option.split prod.split)
qed

lemma routed: "R E rt (route_firings E rt trigger i fs)"
proof (induction fs arbitrary: rt i)
  case Nil
  then show ?case by (simp add: refl)
next
  case (Cons f fs)
  have "R E rt (case f_Kind f of
      FiringTHook \<Rightarrow> stageEventHookLocked E rt f trigger i
    | FiringReactor \<Rightarrow> fst (applyReactiveLocked E rt (f_Proposal f)) | OtherFiring _ \<Rightarrow> rt)"
    by (simp add: hook_staged reacted refl split: firing_kind.split)
  from trans [OF this Cons.IH] show ?case by (simp add: Let_def)
qed

lemma ran_reactive: "R E rt (runReactive E rt trigger)"
  by (simp add: runReactive_def routed)

lemma annotated: "R E rt (annotate_row E actor now rt row)"
  unfolding annotate_row_def Let_def
  by (auto intro: trans [OF reacted reacted] reacted refl)

lemma drifted: "R E rt (runHDCIndexAndDriftLocked E rt trigger)"
proof -
  obtain t rt1 where 1: "read_clock E rt = (t, rt1)" by force
  then have g: "R E rt rt1" using clock_read [of E rt] by simp
  have "R E rt (foldl (annotate_row E a n) rt1 rows)" for a n rows
    using g folded [OF annotated] by (rule trans)
  then show ?thesis
    by (simp add: runHDCIndexAndDriftLocked_def 1 refl Let_def split: rewrite_type.split)
qed

end

interpretation growth: emission_closed grown
  by unfold_locales (auto intro: grown_read_clock grown_emit grown_trans)

lemmas grown_foldl = growth.folded
lemmas grown_applyReactive = growth.reacted
lemmas grown_bump = growth.bumped
lemmas grown_runReactive = growth.ran_reactive
lemmas grown_drift = growth.drifted

lemma grown_after_commit: "grown E rt (after_commit E rt bump pr env)"
proof -
  let ?b = "case bump of None \<Rightarrow> rt | Some u \<Rightarrow> bumpSessionLocalT E rt u"
  have "grown E rt ?b" by (simp add: grown_bump split: option.split)
  also have "grown E ?b (broadcast pr ?b)" by (rule grown_broadcast)
  also have "grown E \<dots> (runReactive E (broadcast pr ?b) pr)" by (rule grown_runReactive)
  also have "grown E \<dots> (runHDCIndexAndDriftLocked E (runReactive E (broadcast pr ?b) pr) env)"
    by (rule grown_drift)
  finally show ?thesis by (simp add: after_commit_def Let_def)
qed

section \<open>Apply\<close>

text \<open>The outcomes of the locked half of Apply.\<close>

lemma apply_locked_cases:
  obtains (rejected) err rt1 where "apply_locked E rt env = (rt1, Inl err)" "grown E rt rt1"
      "rt_state rt1 = rt_state rt" "rt_log rt1 = rt_log rt" "rt_subscribers rt1 = rt_subscribers rt"
  | (landed) env' now nx r pr rt1 where "prepare_mutate rt env = Inr env'"
      "link_gates (rt_registry rt) env' (rt_state rt) = None" "checkGatesLocked rt env' = None"
      "now = clock (k_lib E) (rt_reads rt)" "EvaluateAt (rt_state rt) env' now = Inr (nx, r)"
      "persist_one E (snd (read_clock E rt)) env' now = (rt1, Some pr)"
      "apply_locked E rt env =
         (after_commit E (install nx [pr] rt1) (resolveSessionForBump (rt_state rt) env') pr env', Inr r)"
proof -
  have id: "grown E rt rt" by simp
  obtain now rt0 where c: "read_clock E rt = (now, rt0)" by force
  have now: "now = clock (k_lib E) (rt_reads rt)" using c by (simp add: read_clock_def)
  have rt0: "rt_state rt0 = rt_state rt" "rt_log rt0 = rt_log rt" "rt_subscribers rt0 = rt_subscribers rt"
    "grown E rt rt0"
    using read_clock_simps [of E rt] grown_read_clock [of E rt] c by simp_all
  show ?thesis
  proof (cases "prepare_mutate rt env")
    case (Inl err)
    then show ?thesis using rejected [of rt] by (simp add: apply_locked_def)
  next
    case (Inr env')
    show ?thesis
    proof (cases "link_gates (rt_registry rt) env' (rt_state rt)")
      case (Some err)
      with Inr show ?thesis using rejected [of rt] by (simp add: apply_locked_def)
    next
      case None
      show ?thesis
      proof (cases "checkGatesLocked rt env'")
        case (Some err)
        with Inr None show ?thesis using rejected [of rt] by (simp add: apply_locked_def)
      next
        case gates: None
        show ?thesis
        proof (cases "EvaluateAt (rt_state rt0) env' now")
          case (Inl err)
          with Inr None gates c rt0 show ?thesis using rejected [of rt0] by (simp add: apply_locked_def)
        next
          case ev: (Inr nr)
          obtain nx r where nr: "nr = (nx, r)" by force
          obtain rt1 res where p: "persist_one E rt0 env' now = (rt1, res)" by force
          note ps = persist_one_simps [OF p]
          show ?thesis
          proof (cases res)
            case res: None
            have "grown E rt0 rt1" using grows_persist [OF p [unfolded res]] unfolding grown_def by blast
            with rt0(4) have "grown E rt rt1" by (rule grown_trans)
            with Inr None gates c ev nr p res ps rt0 show ?thesis
              using rejected [of rt1] by (simp add: apply_locked_def)
          next
            case res: (Some pr)
            show ?thesis
              by (rule landed [of env' now nx r rt1 pr])
                 (use Inr None gates c now ev nr p res ps rt0 in \<open>simp_all add: apply_locked_def Let_def\<close>)
          qed
        qed
      qed
    qed
  qed
qed

lemma grown_apply_locked: "grown E rt (fst (apply_locked E rt env))"
proof (cases rule: apply_locked_cases [of E rt env])
  case (rejected err rt1)
  then show ?thesis by simp
next
  case (landed env' now nx r pr rt1)
  have "grown E (snd (read_clock E rt)) (install nx [pr] rt1)"
    using grows_commit [OF landed(6)] landed(5) by (auto simp: grown_def)
  then have "grown E rt (install nx [pr] rt1)" using grown_read_clock grown_trans by blast
  then show ?thesis using landed(7) grown_after_commit grown_trans by (simp) blast
qed

lemma grown_applyWithOptions: "grown E rt (fst (applyWithOptions E rt env skip))"
  by (simp add: applyWithOptions_def grown_apply_locked split: option.split)

lemma grown_Apply: "grown E rt (fst (Apply E rt env))"
  by (simp add: Apply_def grown_applyWithOptions)

lemma grown_Seed: "grown E rt (fst (SeedIfAbsent E rt env))"
  using grown_applyWithOptions [of E rt env True]
  by (auto simp: SeedIfAbsent_def split: prod.split sum.split)

section \<open>Rewrites that add no causal edge\<close>

definition harmless :: "envelope \<Rightarrow> bool" where
  "harmless e \<longleftrightarrow> e_RewriteType e \<noteq> LINK \<or> e_RewriteCategory e \<noteq> WF21"

lemma harmless_step:
  assumes "EvaluateAt s e t = Inr (s', r)" "harmless e"
  shows "causes s' \<subseteq> causes s"
  using assms(1)
proof (cases rule: EvaluateAt_cases)
  case 1
  with assms show ?thesis by (simp add: EvaluateAt_ADD_iff)
next
  case 2
  with assms show ?thesis
    by (auto simp: EvaluateAt_LINK_iff causes_put_fresh is_causes_def harmless_def)
next
  case 3
  with assms show ?thesis by (auto simp: EvaluateAt_MUTATE_iff)
next
  case 4
  with assms show ?thesis by (auto simp: EvaluateAt_UNLINK_iff dest: subsetD [OF causes_del_subset])
qed

lemma harmless_emit: "harmless env \<Longrightarrow> causes (rt_state (fst (emit E rt env))) \<subseteq> causes (rt_state rt)"
  using harmless_step [of "rt_state rt" env]
  by (auto simp: emit_def read_clock_def dest: persist_one_simps(1) split: sum.split prod.split option.split)

lemma harmless_applyReactive:
  "harmless env \<Longrightarrow> causes (rt_state (fst (applyReactiveLocked E rt env))) \<subseteq> causes (rt_state rt)"
  using harmless_emit [of env E rt] by (simp add: applyReactiveLocked_def)

lemma inject_type [simp]: "e_RewriteType (injectPropertySpec reg env nd) = e_RewriteType env"
  by (simp add: injectPropertySpec_def split: option.split)

lemma harmless_bump: "causes (rt_state (bumpSessionLocalT E rt u)) \<subseteq> causes (rt_state rt)"
proof -
  have "harmless (bump_envelope rt u nd)" for nd
    by (simp add: harmless_def bump_envelope_def)
  then have "causes (rt_state (fst (emit E rt (bump_envelope rt u nd)))) \<subseteq> causes (rt_state rt)" for nd
    by (rule harmless_emit)
  then show ?thesis by (simp add: bumpSessionLocalT_def split: option.split)
qed

lemma harmless_foldl:
  "(\<And>r x. causes (rt_state (f r x)) \<subseteq> causes (rt_state r)) \<Longrightarrow>
   causes (rt_state (foldl f r xs)) \<subseteq> causes (rt_state r)"
proof (induction xs arbitrary: r)
  case Nil
  then show ?case by simp
next
  case (Cons x xs)
  from Cons.IH [OF Cons.prems] have "causes (rt_state (foldl f (f r x) xs)) \<subseteq> causes (rt_state (f r x))" .
  with Cons.prems [of r x] show ?case by simp
qed

lemma harmless_annotate: "causes (rt_state (annotate_row E actor now rt row)) \<subseteq> causes (rt_state rt)"
proof -
  have h: "harmless (drift_claim actor u now row)" "harmless (drift_link actor u v row)" for u v
    by (simp_all add: harmless_def drift_claim_def drift_link_def)
  have one: "causes (rt_state (fst (applyReactiveLocked E rt (drift_claim actor u now row)))) \<subseteq> causes (rt_state rt)" for u
    by (rule harmless_applyReactive [OF h(1)])
  have "causes (rt_state (fst (applyReactiveLocked E (fst (applyReactiveLocked E rt (drift_claim actor u now row)))
      (drift_link actor u v row)))) \<subseteq> causes (rt_state rt)" for u v
    using harmless_applyReactive [OF h(2)] one by blast
  with one show ?thesis by (simp add: annotate_row_def Let_def)
qed

lemma harmless_drift: "causes (rt_state (runHDCIndexAndDriftLocked E rt env)) \<subseteq> causes (rt_state rt)"
proof -
  obtain t rt1 where 1: "read_clock E rt = (t, rt1)" by force
  then have "rt_state rt1 = rt_state rt" using read_clock_simps(1) [of E rt] by simp
  then have "causes (rt_state (foldl (annotate_row E a n) rt1 rows)) \<subseteq> causes (rt_state rt)" for a n rows
    using harmless_foldl [of "annotate_row E a n" rt1 rows, OF harmless_annotate] by simp
  then show ?thesis
    by (simp add: runHDCIndexAndDriftLocked_def 1 Let_def split: rewrite_type.split)
qed

section \<open>Programs\<close>

lemma working_loop_length: "working_loop reg ws xs = Inr es \<Longrightarrow> length es = length xs"
  by (induction reg ws xs arbitrary: es rule: working_loop.induct)
     (auto simp: Let_def split: option.splits sum.splits)

text \<open>
  The injected batch evaluates from the state the walk started in, and every check was made
  against the state the envelopes before it produce.
\<close>

lemma working_loop_chain:
  "working_loop reg ws xs = Inr es \<Longrightarrow>
   (\<exists>s rs. eval_chain ws (zip es (map snd xs)) = Some (s, rs)) \<and>
   (\<forall>i<length es. \<exists>s rs. eval_chain ws (take i (zip es (map snd xs))) = Some (s, rs) \<and>
      es ! i = inject_against reg s (fst (xs ! i)) \<and>
      checkLivenessM12 reg (es ! i) s = None \<and> link_gates reg (es ! i) s = None \<and>
      checkGatesAgainstState (es ! i) s = None)"
proof (induction xs arbitrary: ws es)
  case Nil
  then show ?case by simp
next
  case (Cons x xs)
  obtain env0 t where x: "x = (env0, t)" by force
  let ?env = "inject_against reg ws env0"
  have ok: "checkLivenessM12 reg ?env ws = None" "link_gates reg ?env ws = None"
    "checkGatesAgainstState ?env ws = None"
    using Cons.prems by (auto simp: x Let_def split: option.splits)
  obtain nx r where ev: "EvaluateAt ws ?env t = Inr (nx, r)"
    using Cons.prems ok by (auto simp: x Let_def split: sum.splits)
  obtain es' where es': "working_loop reg nx xs = Inr es'" "es = ?env # es'"
    using Cons.prems ok ev by (auto simp: x Let_def split: sum.splits)
  note IH = Cons.IH [OF es'(1)]
  obtain s rs where s: "eval_chain nx (zip es' (map snd xs)) = Some (s, rs)" using IH by blast
  have all: "\<exists>s rs. eval_chain ws (take i (zip es (map snd (x # xs)))) = Some (s, rs) \<and>
      es ! i = inject_against reg s (fst ((x # xs) ! i)) \<and>
      checkLivenessM12 reg (es ! i) s = None \<and> link_gates reg (es ! i) s = None \<and>
      checkGatesAgainstState (es ! i) s = None" if "i < length es" for i
  proof (cases i)
    case 0
    then show ?thesis using ok by (simp add: es'(2) x)
  next
    case (Suc j)
    then have "j < length es'" using that by (simp add: es'(2))
    then obtain s rs where "eval_chain nx (take j (zip es' (map snd xs))) = Some (s, rs)"
      "es' ! j = inject_against reg s (fst (xs ! j))" "checkLivenessM12 reg (es' ! j) s = None"
      "link_gates reg (es' ! j) s = None" "checkGatesAgainstState (es' ! j) s = None"
      using IH by blast
    then show ?thesis using Suc ev by (simp add: es'(2) x)
  qed
  with s ev show ?case by (simp add: es'(2) x)
qed

text \<open>A batch that passes the causal gate at every step keeps the causes edges acyclic.\<close>

lemma working_loop_acyclic:
  assumes "working_loop (Some r) ws xs = Inr es" "good_state ws" "acyclic (causes ws)"
    and "eval_chain ws (zip es (map snd xs)) = Some (s, rs)"
  shows "acyclic (causes s)"
  using assms
proof (induction xs arbitrary: ws es rs)
  case Nil
  then show ?case by simp
next
  case (Cons x xs)
  obtain env0 t where x: "x = (env0, t)" by force
  let ?env = "inject_against (Some r) ws env0"
  have ok: "checkLivenessM12 (Some r) ?env ws = None" "link_gates (Some r) ?env ws = None"
    "checkGatesAgainstState ?env ws = None"
    using Cons.prems(1) by (auto simp: x Let_def split: option.splits)
  obtain nx q where ev: "EvaluateAt ws ?env t = Inr (nx, q)"
    using Cons.prems(1) ok by (auto simp: x Let_def split: sum.splits)
  obtain es' where es': "working_loop (Some r) nx xs = Inr es'" "es = ?env # es'"
    using Cons.prems(1) ok ev by (auto simp: x Let_def split: sum.splits)
  have "ValidateCausalAcyclic ?env ws = None"
    using ok(2) by (cases "e_RewriteType ?env") (auto simp: link_gates_def ValidateCausalAcyclic_other err_seq_def split: option.splits)
  moreover have "indexed ws" using Cons.prems(2) by (simp add: good_state_def)
  ultimately have "acyclic (causes nx)" using causal_acyclic_step Cons.prems(3) ev by blast
  moreover have "good_state nx" using Cons.prems(2) ev good_state_EvaluateAt by blast
  moreover obtain rs' where "eval_chain nx (zip es' (map snd xs)) = Some (s, rs')"
    using Cons.prems(4) ev by (auto simp: es'(2) x)
  ultimately show ?case using Cons.IH es'(1) by blast
qed

lemma fold_log_stamped:
  "eval_chain s xs = Some (s', rs) \<Longrightarrow>
   fold_log replay_step replay_skip i s (stamp_all q xs) = (s', None)"
proof (induction xs arbitrary: s i q rs)
  case Nil
  then show ?case by simp
next
  case (Cons x xs)
  obtain e t where x: "x = (e, t)" by force
  obtain s1 r1 where ev: "EvaluateAt s e t = Inr (s1, r1)"
    using Cons.prems by (auto simp: x split: sum.splits)
  then obtain rs' where "eval_chain s1 xs = Some (s', rs')" using Cons.prems by (auto simp: x)
  then show ?case
    using Cons.IH [of s1 rs' "Suc i" "wrap64 (q + 1)"] replay_step_stamped [OF ev]
    by (simp add: x)
qed

lemma stamp_all_seqs:
  "seq_room q (length xs) \<Longrightarrow>
   seqs (stamp_all q xs) = map (\<lambda>i. q + 1 + int i) [0..<length xs] \<and> advance_seq q (length xs) = q + int (length xs)"
proof (induction xs arbitrary: q)
  case Nil
  then show ?case by simp
next
  case (Cons x xs)
  obtain e t where x: "x = (e, t)" by force
  have w: "wrap64 (q + 1) = q + 1" using Cons.prems seq_room_wrap [of q "length xs"] by simp
  have room: "seq_room (q + 1) (length xs)" using Cons.prems by (simp add: seq_room_def)
  have "map (\<lambda>i. q + 1 + int i) [0..<length (x # xs)] =
      (q + 1) # map (\<lambda>i. q + 1 + 1 + int i) [0..<length xs]"
    by (simp add: upt_rec [of 0] map_Suc_upt [symmetric] comp_def del: upt_Suc)
  then show ?case using Cons.IH [OF room] w by (simp add: x del: upt_Suc)
qed

lemma length_stamp_all [simp]: "length (stamp_all q xs) = length xs"
  by (induction q xs rule: stamp_all.induct) simp_all

lemma stamp_all_envelopes: "map pr_Envelope (stamp_all q xs) = map fst xs"
  by (induction q xs rule: stamp_all.induct) simp_all

lemma grows_program:
  assumes chain: "eval_chain (rt_state rt) (zip es ts) = Some (nx, rs)" and len: "length ts = length es"
    and rt2: "rt_state rt2 = rt_state rt" "rt_log rt2 = rt_log rt" "rt_registry rt2 = rt_registry rt"
      "rt_logSeq rt2 = advance_seq (rt_logSeq rt) (length es)"
    and ap: "so_Append (k_ops E) (rt_store rt) (stamp_all (rt_logSeq rt) (zip es ts)) = (rt_store rt2, True)"
  shows "grows E (length es) rt (install nx (stamp_all (rt_logSeq rt) (zip es ts)) rt2)"
proof -
  let ?new = "stamp_all (rt_logSeq rt) (zip es ts)"
  have ok: "rt_ok (install nx ?new rt2)" if "rt_ok rt"
    using that rt2 Replay_append [of "rt_log rt" "rt_state rt" ?new nx] fold_log_stamped [OF chain]
    by (simp add: rt_ok_def)
  have room: "rt_logSeq rt2 = rt_logSeq rt + int (length es)" "fresh_seqs (rt_logSeq rt) (rt_logSeq rt2) ?new"
    if r: "seq_room (rt_logSeq rt) (length es)"
  proof -
    have sq: "seqs ?new = map (\<lambda>i. rt_logSeq rt + 1 + int i) [0..<length es]"
      and hi: "rt_logSeq rt2 = rt_logSeq rt + int (length es)"
      using stamp_all_seqs [of "rt_logSeq rt" "zip es ts"] r rt2(4) len by simp_all
    show "rt_logSeq rt2 = rt_logSeq rt + int (length es)" by (rule hi)
    show "fresh_seqs (rt_logSeq rt) (rt_logSeq rt2) ?new"
      unfolding fresh_seqs_def sq hi by (auto simp: sorted_wrt_map intro: sorted_wrt_mono_rel [OF _ sorted_wrt_upt])
  qed
  show ?thesis
    unfolding grows_def using ok room rt2 len store_steps_one [OF ap, of "rt_log rt"]
    by (intro conjI exI [of _ ?new] impI) simp_all
qed

lemma eval_chain_length: "eval_chain s xs = Some (s', rs) \<Longrightarrow> length rs = length xs"
  by (induction xs arbitrary: s rs) (auto split: sum.splits)

text \<open>The times a batch is stamped with: one nanosecond apart.\<close>

definition batch_times :: "'s kenv \<Rightarrow> 's runtime \<Rightarrow> nat \<Rightarrow> time list" where
  "batch_times E rt n = map (\<lambda>i. clock (k_lib E) (rt_reads rt) + int i) [0..<n]"

lemma length_batch_times [simp]: "length (batch_times E rt n) = n"
  by (simp add: batch_times_def)

lemma working_loop_err: "working_loop reg ws xs \<noteq> Inl (ProgramErr e)"
proof (induction xs arbitrary: ws)
  case Nil
  then show ?case by simp
next
  case (Cons x xs)
  have "checkLivenessM12 reg env s \<noteq> Some (ProgramErr e)" for env s
    by (simp add: checkLivenessM12_def)
  with Cons.IH show ?case
    by (cases x) (auto simp: Let_def split: option.splits sum.splits)
qed

lemma program_locked_cases:
  obtains (rejected) err rt1 where "program_locked E rt es = (rt1, Inl err)" "grown E rt rt1"
      "rt_state rt1 = rt_state rt" "rt_log rt1 = rt_log rt" "rt_subscribers rt1 = rt_subscribers rt"
      "\<forall>e. err \<noteq> ProgramErr e"
  | (landed) inj nx rs rt2 rt6 where
      "working_loop (rt_registry rt) (rt_state rt) (zip es (batch_times E rt (length es))) = Inr inj"
      "length inj = length es"
      "eval_chain (rt_state rt) (zip inj (batch_times E rt (length es))) = Some (nx, rs)"
      "program_locked E rt es = (rt6, Inr rs)"
      "grows E (length es) rt
         (install nx (stamp_all (rt_logSeq rt) (zip inj (batch_times E rt (length es)))) rt2)"
      "rt_log rt2 = rt_log rt"
      "grown E (install nx (stamp_all (rt_logSeq rt) (zip inj (batch_times E rt (length es)))) rt2) rt6"
      "causes (rt_state rt6) \<subseteq> causes nx"
proof -
  obtain now rt0 where c: "read_clock E rt = (now, rt0)" by force
  have rt0: "rt_state rt0 = rt_state rt" "rt_log rt0 = rt_log rt" "rt_subscribers rt0 = rt_subscribers rt"
    "rt_registry rt0 = rt_registry rt" "rt_logSeq rt0 = rt_logSeq rt" "rt_store rt0 = rt_store rt" "grown E rt rt0"
    using read_clock_simps [of E rt] grown_read_clock [of E rt] c by simp_all
  let ?ts = "batch_times E rt (length es)"
  have ts: "map (\<lambda>i. now + int i) [0..<length es] = ?ts" using c by (simp add: read_clock_def batch_times_def)
  show ?thesis
  proof (cases "working_loop (rt_registry rt) (rt_state rt) (zip es ?ts)")
    case (Inl err)
    have np: "\<forall>e. err \<noteq> ProgramErr e" using Inl working_loop_err by blast
    show ?thesis
      by (rule rejected [of rt0 err]) (use Inl np c rt0 in \<open>simp_all add: program_locked_def Let_def ts\<close>)
  next
    case (Inr inj)
    have len: "length inj = length es" using working_loop_length [OF Inr] by simp
    then have zts: "map snd (zip es ?ts) = ?ts" by simp
    obtain nx rs where chain: "eval_chain (rt_state rt) (zip inj ?ts) = Some (nx, rs)"
      using working_loop_chain [OF Inr] zts by auto
    have ev: "EvaluateProgramAt (rt_state rt) inj ?ts (\<lambda>_. now) = Inr (nx, rs)"
      using chain len by (simp add: EvaluateProgramAt_Inr)
    have pl: "program_locked E rt es = commit_program E rt0 inj ?ts nx rs"
      by (simp add: program_locked_def c Let_def ts rt0 Inr ev)
    let ?new = "stamp_all (rt_logSeq rt) (zip inj ?ts)"
    let ?rt1 = "rt0\<lparr> rt_logSeq := advance_seq (rt_logSeq rt0) (length inj) \<rparr>"
    obtain st ok where ap: "so_Append (k_ops E) (rt_store ?rt1) ?new = (st, ok)" by force
    let ?rt2 = "?rt1\<lparr> rt_store := st \<rparr>"
    show ?thesis
    proof (cases ok)
      case False
      have "grows E (length inj) rt ?rt2"
        using stamp_all_seqs [of "rt_logSeq rt" "zip inj ?ts"] rt0 len
          store_steps_one [of "k_ops E" "rt_store rt" ?new st ok "rt_log rt"] ap False
        by (simp add: grows_def rt_ok_def fresh_seqs_def)
      then have "grown E rt ?rt2" unfolding grown_def by blast
      then show ?thesis
        by (intro rejected [of ?rt2 PersistErr])
           (use False ap rt0 in \<open>simp_all add: pl commit_program_def Let_def\<close>)
    next
      case True
      let ?rt3 = "install nx ?new ?rt2"
      have g3: "grows E (length es) rt ?rt3"
        using grows_program [OF chain, of ?rt2] rt0 len ap True by simp
      let ?rt4 = "foldl (bumpSessionLocalT E) ?rt3 (sessions_to_bump (rt_state ?rt2) inj)"
      let ?rt5 = "foldl (\<lambda>r p. broadcast p r) ?rt4 ?new"
      let ?rt6 = "if inj = [] then ?rt5 else runHDCIndexAndDriftLocked E ?rt5 (last inj)"
      have "grown E ?rt3 ?rt4" by (rule grown_foldl) (rule grown_bump)
      also have "grown E ?rt4 ?rt5" by (rule grown_foldl) (rule grown_broadcast)
      also have "grown E ?rt5 ?rt6" by (simp add: grown_drift)
      finally have g6: "grown E ?rt3 ?rt6" .
      have "causes (rt_state ?rt4) \<subseteq> causes (rt_state ?rt3)"
        by (rule harmless_foldl) (rule harmless_bump)
      moreover have "causes (rt_state ?rt5) \<subseteq> causes (rt_state ?rt4)"
        by (rule harmless_foldl) simp
      moreover have "causes (rt_state ?rt6) \<subseteq> causes (rt_state ?rt5)"
        using harmless_drift [of E ?rt5 "last inj"] by simp
      ultimately have c6: "causes (rt_state ?rt6) \<subseteq> causes nx" by simp
      have "program_locked E rt es = (?rt6, Inr rs)"
        using True ap rt0 by (simp add: pl commit_program_def Let_def)
      then show ?thesis
        using landed [OF Inr len chain _ g3 _ g6 c6] rt0(2) by simp
    qed
  qed
qed

lemma grown_program_locked: "grown E rt (fst (program_locked E rt es))"
proof (cases rule: program_locked_cases [of E rt es])
  case (rejected err rt1)
  then show ?thesis by simp
next
  case (landed inj nx rs rt2 rt6)
  from landed(5) have "grown E rt (install nx (stamp_all (rt_logSeq rt)
      (zip inj (batch_times E rt (length es)))) rt2)" unfolding grown_def by blast
  with landed(7) landed(4) show ?thesis using grown_trans by fastforce
qed

lemma grown_ApplyProgram: "grown E rt (fst (ApplyProgram E rt es))"
  by (simp add: ApplyProgram_def grown_program_locked split: option.split)

lemma grown_SweepTick: "grown E rt (SweepTick E rt)"
proof -
  obtain t1 rt1 where 1: "read_clock E rt = (t1, rt1)" by force
  obtain t2 rt2 where 2: "read_clock E rt1 = (t2, rt2)" by force
  have "grown E rt rt1" "grown E rt1 rt2"
    using grown_read_clock [of E rt] grown_read_clock [of E rt1] 1 2 by simp_all
  then have g: "grown E rt rt2" by (rule grown_trans)
  have "grown E rt (fst (ApplyProgram E rt2 es))" for es using g grown_ApplyProgram by (rule grown_trans)
  with g show ?thesis by (simp add: SweepTick_def 1 2 Let_def)
qed

text \<open>The sweep goroutine grows the log with what else happens between its ticks, and stops when it is told to.\<close>

lemma grown_RunTimedSweep:
  "(\<And>f r. Meanwhile f \<in> set evs \<Longrightarrow> grown E r (f r)) \<Longrightarrow> grown E rt (fst (RunTimedSweep E interval evs rt))"
proof -
  assume m: "\<And>f r. Meanwhile f \<in> set evs \<Longrightarrow> grown E r (f r)"
  have "grown E rt (fst (sweep_rounds E evs rt))"
    using m
  proof (induction E evs rt rule: sweep_rounds.induct)
    case (3 E evs rt)
    then show ?case using grown_trans [OF grown_SweepTick] by fastforce
  next
    case (4 E f evs rt)
    then have "grown E rt (f rt)" "grown E (f rt) (fst (sweep_rounds E evs (f rt)))" by simp_all
    then show ?case by (simp add: grown_trans)
  qed (simp_all add: grown_same)
  then show ?thesis by (simp add: RunTimedSweep_def grown_same)
qed

lemma RunTimedSweep_returns:
  "snd (RunTimedSweep E interval evs rt) \<longleftrightarrow> interval \<le> 0 \<or> Cancelled \<in> set evs"
proof -
  have "snd (sweep_rounds E evs rt) \<longleftrightarrow> Cancelled \<in> set evs"
    by (induction E evs rt rule: sweep_rounds.induct) simp_all
  then show ?thesis by (simp add: RunTimedSweep_def)
qed

section \<open>Any interleaving\<close>

text \<open>
  One step per critical section. The checks Apply and ApplyProgram make under the read lock only
  decide whether a commit is attempted; here it may be attempted at any later state, so the
  relation covers every interleaving of concurrent callers.
\<close>

inductive kernel_step :: "'s kenv \<Rightarrow> 's runtime \<Rightarrow> 's runtime \<Rightarrow> bool" for E where
  commit: "kernel_step E rt (fst (apply_locked E rt env))"
| program: "kernel_step E rt (fst (program_locked E rt es))"
| tick: "kernel_step E rt (snd (read_clock E rt))"
| subscribe: "kernel_step E rt (Subscribe rt name)"
| unsubscribe: "kernel_step E rt (Unsubscribe rt name)"
| receive: "kernel_step E rt (fst (Receive rt name))"
| sweep_actor: "kernel_step E rt (SetSweepActor rt u)"
| kernel_urn: "kernel_step E rt (SetKernelURN rt u)"

inductive_cases kernel_stepE: "kernel_step E rt rt'"

inductive reachable :: "'s kenv \<Rightarrow> 's runtime \<Rightarrow> bool" for E where
  boot: "NewRuntime E st reg = Inr rt \<Longrightarrow> reachable E rt"
| step: "reachable E rt \<Longrightarrow> kernel_step E rt rt' \<Longrightarrow> reachable E rt'"

lemma grown_kernel_step: "kernel_step E rt rt' \<Longrightarrow> grown E rt rt'"
proof (induction rule: kernel_step.induct)
  case (receive rt name)
  show ?case by (rule grown_same) (auto simp: Receive_def split: option.split list.split)
qed (simp_all add: grown_apply_locked grown_program_locked grown_read_clock grown_same
    Subscribe_def Unsubscribe_def SetSweepActor_def SetKernelURN_def)

text \<open>The public operations are sequences of these steps.\<close>

lemma Apply_is_step: "fst (Apply E rt env) = rt \<or> kernel_step E rt (fst (Apply E rt env))"
  using kernel_step.commit [of E rt env] by (auto simp: Apply_def applyWithOptions_def split: option.split)

lemma ApplyProgram_is_step: "fst (ApplyProgram E rt es) = rt \<or> kernel_step E rt (fst (ApplyProgram E rt es))"
  using kernel_step.program [of E rt es] by (auto simp: ApplyProgram_def split: option.split)

lemma NewRuntime_Inr:
  "NewRuntime E st reg = Inr rt \<longleftrightarrow>
   (\<exists>es s. so_ReadAll (k_ops E) st = Some es \<and> Replay es = (s, None) \<and>
      rt = \<lparr> rt_state = s, rt_log = es, rt_store = st, rt_registry = reg, rt_subscribers = [],
             rt_logSeq = sc_maxSeq (scan_log es), rt_preSeqEntries = sc_preSeq (scan_log es),
             rt_sweepActor = '''', rt_kernelURN = '''',
             rt_logIntegrity = integrity_of (k_lib E) es (so_SingleWriter (k_ops E) st) '''', rt_reads = 0 \<rparr>)"
  by (auto simp: NewRuntime_def Let_def split: option.splits prod.splits)

text \<open>An invariant that the store inherits from boot and that growth keeps holds of every runtime.\<close>

locale kernel_invariant =
  fixes inv :: "'s kenv \<Rightarrow> 's runtime \<Rightarrow> bool"
  assumes inv_boot: "NewRuntime E st reg = Inr rt \<Longrightarrow> inv E rt"
    and inv_grown: "inv E rt \<Longrightarrow> grown E rt rt' \<Longrightarrow> inv E rt'"
begin

lemma inv_reachable: "reachable E rt \<Longrightarrow> inv E rt"
  by (induction rule: reachable.induct) (auto intro: inv_boot inv_grown grown_kernel_step)

lemma inv_operations:
  "reachable E rt \<Longrightarrow> inv E (fst (Apply E rt env))"
  "reachable E rt \<Longrightarrow> inv E (fst (ApplyProgram E rt es))"
  "reachable E rt \<Longrightarrow> inv E (fst (SeedIfAbsent E rt env))"
  "reachable E rt \<Longrightarrow> inv E (SweepTick E rt)"
  by (blast intro: inv_reachable inv_grown grown_Apply grown_ApplyProgram grown_Seed grown_SweepTick)+

end

interpretation replayed: kernel_invariant "\<lambda>E. rt_ok"
proof
  show "NewRuntime E st reg = Inr rt \<Longrightarrow> rt_ok rt" for E :: "'a kenv" and st reg rt
    by (auto simp: NewRuntime_Inr rt_ok_def)
  show "rt_ok rt \<Longrightarrow> grown E rt rt' \<Longrightarrow> rt_ok rt'" for E :: "'a kenv" and rt rt'
    by (auto simp: grown_def grows_def)
qed

interpretation well_formed: kernel_invariant "\<lambda>E rt. rt_ok rt \<and> good_state (rt_state rt)"
  by unfold_locales
     (auto dest: replayed.inv_boot replayed.inv_grown rt_ok_good)

section \<open>What is in the log stays there\<close>

lemma grown_log_prefix: "grown E rt rt' \<Longrightarrow> \<exists>new. rt_log rt' = rt_log rt @ new"
  by (auto simp: grown_def grows_def)

lemma grown_evolves: "grown E rt rt' \<Longrightarrow> rt_ok rt \<Longrightarrow> evolves (abs_graph (rt_state rt)) (abs_graph (rt_state rt'))"
proof -
  assume g: "grown E rt rt'" and ok: "rt_ok rt"
  then obtain new where new: "rt_log rt' = rt_log rt @ new" using grown_log_prefix by blast
  have ok': "rt_ok rt'" using g ok by (auto simp: grown_def grows_def)
  have "rt_state rt = fst (fold_log replay_step replay_skip 0 NewGraphState (rt_log rt))"
    "rt_state rt' = fst (fold_log replay_step replay_skip 0 NewGraphState (rt_log rt @ new))"
    using ok ok' new by (simp_all add: rt_ok_def Replay_None)
  then show ?thesis using replay.rel_prefix by simp
qed

text \<open>A store that refuses nothing hands out no number in vain.\<close>

lemma store_steps_mem: "store_steps mem_ops n x y \<Longrightarrow> length (snd y) = length (snd x) + n"
  by (induction rule: store_steps.induct) (auto simp: mem_ops_def MemStore_Append_def)

lemma fresh_seqs_full:
  assumes "fresh_seqs lo (lo + int (length new)) new"
  shows "seqs new = map (\<lambda>i. lo + 1 + int i) [0..<length new]"
proof -
  have s: "sorted (seqs new)" "distinct (seqs new)" "set (seqs new) \<subseteq> {lo + 1..lo + int (length new)}"
    using assms by (auto simp: fresh_seqs_def strict_sorted_iff)
  have "card (set (seqs new)) = card {lo + 1..lo + int (length new)}"
    using distinct_card [OF s(2)] by simp
  then have "set (seqs new) = {lo + 1..lo + int (length new)}"
    using s(3) by (metis card_subset_eq finite_atLeastAtMost_int)
  moreover have "set (map (\<lambda>i. lo + 1 + int i) [0..<length new]) = {lo + 1..lo + int (length new)}"
  proof (rule set_eqI)
    fix x
    have "x \<in> set (map (\<lambda>i. lo + 1 + int i) [0..<length new]) \<longleftrightarrow> (\<exists>i<length new. x = lo + 1 + int i)" by auto
    also have "\<dots> \<longleftrightarrow> x \<in> {lo + 1..lo + int (length new)}"
      by (auto intro!: exI [of _ "nat (x - lo - 1)"])
    finally show "x \<in> set (map (\<lambda>i. lo + 1 + int i) [0..<length new]) \<longleftrightarrow> x \<in> {lo + 1..lo + int (length new)}" .
  qed
  moreover have "sorted (map (\<lambda>i. lo + 1 + int i) [0..<length new])"
    "distinct (map (\<lambda>i. lo + 1 + int i) [0..<length new])"
    by (auto simp: sorted_map distinct_map inj_on_def intro: sorted_wrt_mono_rel [OF _ sorted_wrt_upt])
  ultimately show ?thesis using s(1,2) by (intro sorted_distinct_set_unique) simp_all
qed

lemma grown_mem_seqs:
  assumes "grown E rt rt'" "k_ops E = mem_ops"
  shows "\<exists>new. rt_log rt' = rt_log rt @ new \<and>
    (seq_room (rt_logSeq rt) (length new) \<longrightarrow>
       seqs new = map (\<lambda>i. rt_logSeq rt + 1 + int i) [0..<length new] \<and>
       rt_logSeq rt' = rt_logSeq rt + int (length new))"
proof -
  obtain n where g: "grows E n rt rt'" using assms(1) by (auto simp: grown_def)
  then obtain new where new: "rt_log rt' = rt_log rt @ new"
    "seq_room (rt_logSeq rt) n \<Longrightarrow> rt_logSeq rt' = rt_logSeq rt + int n"
    "seq_room (rt_logSeq rt) n \<Longrightarrow> fresh_seqs (rt_logSeq rt) (rt_logSeq rt') new"
    by (auto simp: grows_def)
  have "store_steps mem_ops n (rt_store rt, rt_log rt) (rt_store rt', rt_log rt')"
    using g assms(2) by (simp add: grows_def)
  from store_steps_mem [OF this] have "n = length new" using new(1) by simp
  with new fresh_seqs_full [of "rt_logSeq rt" new] show ?thesis
    by (intro exI [of _ new] conjI impI) simp_all
qed

section \<open>Restarting\<close>

text \<open>
  A store whose refused appends leave nothing behind: restarting on it gives the canonical form
  of the log back.
\<close>

locale atomic_store = rewrite_store +
  assumes refused_sound: "sound s \<Longrightarrow> so_Append ops s es = (s', False) \<Longrightarrow> sound s'"
    and read_refused: "sound s \<Longrightarrow> so_Append ops s es = (s', False) \<Longrightarrow> so_ReadAll ops s' = so_ReadAll ops s"
begin

lemma read_store_steps:
  assumes "store_steps ops n x y" "sound (fst x)" "so_ReadAll ops (fst x) = Some (map canon (snd x))"
    and "\<forall>e\<in>set (snd y). storable e"
  shows "sound (fst y) \<and> so_ReadAll ops (fst y) = Some (map canon (snd y))"
  using assms
proof (induction rule: store_steps.induct)
  case (start x)
  then show ?case by simp
next
  case (accepted n x st log es st')
  then have IH: "sound st" "so_ReadAll ops st = Some (map canon log)" and st: "\<forall>e\<in>set es. storable e" by auto
  then show ?case
    using append_sound [OF IH(1) accepted.hyps(2) st] read_append [OF IH(1) accepted.hyps(2) st IH(2)] by simp
next
  case (refused n x st log es st')
  then have IH: "sound st" "so_ReadAll ops st = Some (map canon log)" by auto
  then show ?case using refused_sound [OF IH(1) refused.hyps(2)] read_refused [OF IH(1) refused.hyps(2)] by simp
qed

end

interpretation mem_atomic: atomic_store mem_ops "\<lambda>_. True" "\<lambda>_. True" id
  by unfold_locales (auto simp: mem_ops_def MemStore_Append_def)

interpretation mem_agrees: kernel_invariant "\<lambda>E rt. k_ops E = mem_ops \<longrightarrow> rt_store rt = rt_log rt"
proof
  fix E :: "persisted_rewrite list kenv" and rt rt' :: "persisted_rewrite list runtime"
  show "k_ops E = mem_ops \<longrightarrow> rt_store rt = rt_log rt" if "NewRuntime E st reg = Inr rt" for st reg
    using that by (auto simp: NewRuntime_Inr mem_ops_def MemStore_ReadAll_def)
  assume eq: "k_ops E = mem_ops \<longrightarrow> rt_store rt = rt_log rt" and g: "grown E rt rt'"
  show "k_ops E = mem_ops \<longrightarrow> rt_store rt' = rt_log rt'"
  proof
    assume m: "k_ops E = mem_ops"
    obtain n where "store_steps mem_ops n (rt_store rt, rt_log rt) (rt_store rt', rt_log rt')"
      using g m by (auto simp: grown_def grows_def)
    from mem_atomic.read_store_steps [OF this] show "rt_store rt' = rt_log rt'"
      using eq m by (simp add: mem_ops_def MemStore_ReadAll_def)
  qed
qed

end
