(* ===== verification/RuntimeOps.thy ===== *)
theory RuntimeOps
  imports RuntimeSpec Examples
begin

text \<open>
  The public operations of the runtime, case by case: what a rejected and an accepted call leave
  behind, seeding, the gate relation, and a concrete runtime over MemStore for the witnesses.
\<close>

section \<open>Apply and ApplyProgram\<close>

lemma Apply_Inl:
  assumes "Apply E rt env = (rt', Inl err)"
  shows "rt_state rt' = rt_state rt \<and> rt_log rt' = rt_log rt \<and> rt_subscribers rt' = rt_subscribers rt"
  using assms
  by (cases rule: apply_locked_cases [of E rt env])
     (auto simp: Apply_def applyWithOptions_def split: option.splits)

lemma apply_check_None:
  "apply_check rt env skip = None \<longleftrightarrow>
   (\<not> skip \<longrightarrow> checkLiveness (rt_registry rt) env (rt_state rt) = None) \<and> validate (rt_registry rt) env = None"
  by (auto simp: apply_check_def split: option.splits)

lemma applyWithOptions_Inr:
  assumes "applyWithOptions E rt env skip = (rt', Inr r)" "rt_ok rt"
  shows "\<exists>env' now nx rest. apply_check rt env skip = None \<and> prepare_mutate rt env = Inr env' \<and>
    link_gates (rt_registry rt) env' (rt_state rt) = None \<and> checkGatesLocked rt env' = None \<and>
    EvaluateAt (rt_state rt) env' now = Inr (nx, r) \<and>
    rt_log rt' = rt_log rt @ \<lparr> pr_Envelope = env', pr_AppliedAt = now, pr_Timestamp = now,
      pr_LogSeq = wrap64 (rt_logSeq rt + 1) \<rparr> # rest \<and>
    evolves (abs_graph nx) (abs_graph (rt_state rt'))"
proof -
  have ck: "apply_check rt env skip = None" and al: "apply_locked E rt env = (rt', Inr r)"
    using assms(1) by (auto simp: applyWithOptions_def split: option.splits)
  show ?thesis
  proof (cases rule: apply_locked_cases [of E rt env])
    case (rejected err rt1)
    with al show ?thesis by simp
  next
    case (landed env' now nx r' pr rt1)
    note p = persist_one_simps [OF landed(6)]
    let ?rt2 = "install nx [pr] rt1" and ?rt0 = "snd (read_clock E rt)"
    have r: "r' = r" and rt': "rt' = after_commit E ?rt2 (resolveSessionForBump (rt_state rt) env') pr env'"
      using al landed(7) by simp_all
    have g: "grown E ?rt2 rt'" unfolding rt' by (rule grown_after_commit)
    then obtain rest where "rt_log rt' = rt_log ?rt2 @ rest" using grown_log_prefix by blast
    then have log: "rt_log rt' = rt_log rt @ pr # rest" using p(2) by simp
    have "grows E 1 ?rt0 ?rt2" using grows_commit [OF landed(6)] landed(5) by simp
    moreover have "rt_ok ?rt0" using assms(2) by (simp add: rt_ok_def)
    ultimately have "rt_ok ?rt2" by (simp add: grows_def)
    from grown_evolves [OF g this] have ev: "evolves (abs_graph nx) (abs_graph (rt_state rt'))" by simp
    show ?thesis
      using ck landed(1-3,5) r log ev p(6) [OF refl] by (intro exI [of _ env'] exI [of _ now]) auto
  qed
qed

lemma ApplyProgram_Inl:
  assumes "ApplyProgram E rt es = (rt', Inl err)"
  shows "rt_state rt' = rt_state rt \<and> rt_log rt' = rt_log rt \<and> rt_subscribers rt' = rt_subscribers rt \<and>
    (\<forall>e. err \<noteq> ProgramErr e)"
proof (cases "program_preflight rt es")
  case (Some err')
  moreover have "program_preflight rt es \<noteq> Some (ProgramErr e)" for e
    by (induction es) (auto simp: checkLivenessM11_def Let_def split: option.splits resolve_kind.splits if_splits)
  ultimately show ?thesis using assms by (auto simp: ApplyProgram_def)
next
  case None
  with assms show ?thesis
    by (cases rule: program_locked_cases [of E rt es]) (auto simp: ApplyProgram_def)
qed

section \<open>Gates\<close>

lemma gates_from_None:
  "gates_from s ts rs = None \<longleftrightarrow>
   (\<forall>r\<in>set (map snd rs). r_TgtPort r = ''guarded-by'' \<and> r_TgtURN r \<in> set ts \<longrightarrow>
      (\<exists>g. mget (Nodes s) (r_SrcURN r) = Some g \<and> (n_TypeID g = ''gate'' \<longrightarrow> EvaluatePredicate s g)))"
proof (induction rs)
  case Nil
  then show ?case by simp
next
  case (Cons x rs)
  obtain k r where x: "x = (k, r)" by force
  show ?case
    by (cases "r_TgtPort r = ''guarded-by'' \<and> r_TgtURN r \<in> set ts"; cases "mget (Nodes s) (r_SrcURN r)")
       (auto simp: x Cons.IH)
qed

lemma checkGates_None:
  assumes "wf_map (Relations s)"
  shows "checkGatesAgainstState env s = None \<longleftrightarrow>
    (\<forall>k r. mget (Relations s) k = Some r \<and> r_TgtPort r = ''guarded-by'' \<and> r_TgtURN r \<in> set (gate_targets env s) \<longrightarrow>
       (\<exists>g. mget (Nodes s) (r_SrcURN r) = Some g \<and> (n_TypeID g = ''gate'' \<longrightarrow> EvaluatePredicate s g)))"
proof (cases "gate_targets env s = []")
  case True
  then show ?thesis by (simp add: checkGatesAgainstState_def)
next
  case False
  have "(\<forall>r\<in>set (map snd (Relations s)). P r) \<longleftrightarrow> (\<forall>k r. mget (Relations s) k = Some r \<longrightarrow> P r)" for P
    using mem_mget [OF assms] by force
  note all = this
  show ?thesis unfolding checkGatesAgainstState_def Let_def using False
    by (simp add: gates_from_None all del: set_map) blast
qed

section \<open>Seeding\<close>

lemma ADD_again:
  assumes "e_RewriteType env = ADD" "validateEnvelopeStructure env = None" "mget (Nodes s) (e_NodeURN env) \<noteq> None"
  shows "EvaluateAt s env t = Inl (ErrNodeExists (e_NodeURN env))"
  using assms by (auto simp: EvaluateAt_def evaluateInPlace_def applyADD_def)

lemma ADD_structure:
  assumes "e_RewriteType env = ADD"
    and "EvaluateAt s env t = Inr (s', r) \<or> EvaluateAt s env t = Inl (ErrNodeExists u)"
  shows "validateEnvelopeStructure env = None \<and>
    (EvaluateAt s env t = Inl (ErrNodeExists u) \<longrightarrow> mget (Nodes s) (e_NodeURN env) \<noteq> None)"
  using assms
  by (auto simp: EvaluateAt_def evaluateInPlace_def applyADD_def validateEnvelopeStructure_def split: option.splits if_splits)

lemma ADD_lands:
  assumes "e_RewriteType env = ADD" "apply_locked E rt env = (rt1, res)"
    and "(\<exists>r. res = Inr r) \<or> (\<exists>u. res = Inl (FoldErr (ErrNodeExists u)) \<or> res = Inl (FoldErr (ErrRelationExists u)))"
    and "rt_ok rt"
  shows "validateEnvelopeStructure env = None \<and> mget (Nodes (rt_state rt1)) (e_NodeURN env) \<noteq> None"
proof -
  obtain now rt0 where c: "read_clock E rt = (now, rt0)" by force
  have rt0: "rt_state rt0 = rt_state rt" "rt_ok rt0"
    using c read_clock_simps [of E rt] assms(4) by (simp_all add: rt_ok_def)
  have pre: "prepare_mutate rt env = Inr env" "link_gates (rt_registry rt) env (rt_state rt) = None"
    "checkGatesLocked rt env = None"
    using assms(1) by (simp_all add: prepare_mutate_def link_gates_def checkGatesLocked_def
        checkGatesAgainstState_def gate_targets_def)
  show ?thesis
  proof (cases "EvaluateAt (rt_state rt0) env now")
    case (Inl err)
    then have r: "rt1 = rt0" "res = Inl (FoldErr err)" using assms(2) pre c by (simp_all add: apply_locked_def)
    have "err \<noteq> ErrRelationExists u" for u
      using Inl assms(1) by (auto simp: EvaluateAt_def evaluateInPlace_def applyADD_def
          validateEnvelopeStructure_def split: option.splits if_splits)
    then obtain u where "err = ErrNodeExists u" using assms(3) r(2) by auto
    with Inl ADD_structure [OF assms(1)] r(1) show ?thesis by blast
  next
    case (Inr nr)
    obtain nx q where nr: "nr = (nx, q)" by force
    note ev = Inr [unfolded nr]
    obtain rt2 p where p: "persist_one E rt0 env now = (rt2, p)" by force
    obtain pr where pr: "p = Some pr"
      using assms(2,3) pre c ev p by (cases p) (auto simp: apply_locked_def)
    let ?rt3 = "install nx [pr] rt2"
    have "rt1 = after_commit E ?rt3 (resolveSessionForBump (rt_state rt2) env) pr env"
      using assms(2) pre c ev p pr by (simp add: apply_locked_def Let_def)
    then have g: "grown E ?rt3 rt1" by (simp add: grown_after_commit)
    have "rt_ok ?rt3" using grows_commit [OF p [unfolded pr] ev] rt0(2) by (simp add: grows_def)
    from grown_evolves [OF g this] have e: "evolves (abs_graph nx) (abs_graph (rt_state rt1))" by simp
    have "mget (Nodes nx) (e_NodeURN env) \<noteq> None" using ev by (auto simp: EvaluateAt_ADD_iff [OF assms(1)])
    with e have "mget (Nodes (rt_state rt1)) (e_NodeURN env) \<noteq> None" by (fastforce simp: evolves_def)
    with ADD_structure [OF assms(1)] ev show ?thesis by blast
  qed
qed

text \<open>Seeding an ADD of a node that exists reads the clock and nothing else.\<close>

lemma Seed_existing:
  assumes "e_RewriteType env = ADD" "validate (rt_registry rt) env = None"
    and "validateEnvelopeStructure env = None" "mget (Nodes (rt_state rt)) (e_NodeURN env) \<noteq> None"
  shows "SeedIfAbsent E rt env = (snd (read_clock E rt), None)"
proof -
  have "apply_locked E rt env = (snd (read_clock E rt), Inl (FoldErr (ErrNodeExists (e_NodeURN env))))"
    using assms ADD_again [OF assms(1,3), of "rt_state rt"]
    by (simp add: apply_locked_def prepare_mutate_def link_gates_def checkGatesLocked_def
        checkGatesAgainstState_def gate_targets_def read_clock_def)
  then show ?thesis using assms(2) by (simp add: SeedIfAbsent_def applyWithOptions_def apply_check_def)
qed

section \<open>A concrete runtime\<close>

text \<open>MemStore, a clock that advances by one, and no drift.\<close>

definition ex_golib :: golib where
  "ex_golib = \<lparr> json_marshal = (\<lambda>_. None), json_marshal_envelope = (\<lambda>_. None), json_marshal_entry = (\<lambda>_. None),
     parse_map = (\<lambda>_. None), parse_envelope = (\<lambda>_. None), parse_entry = (\<lambda>_. None), parse_shape = (\<lambda>_. None),
     sha1_sum = (\<lambda>_. []), sha256_sum = (\<lambda>_. []), rfc3339 = (\<lambda>_. ''now''), rfc3339_nano = (\<lambda>_. ''now''),
     clock = (\<lambda>i. 10 + int i) \<rparr>"

definition ex_kenv :: "persisted_rewrite list kenv" where
  "ex_kenv = \<lparr> k_lib = ex_golib, k_ops = mem_ops, k_drifted = (\<lambda>_. []) \<rparr>"

definition ex_rt :: "envelope list \<Rightarrow> registry option \<Rightarrow> persisted_rewrite list runtime" where
  "ex_rt es reg =
     \<lparr> rt_state = ex_run es, rt_log = map ex_entry es, rt_store = map ex_entry es, rt_registry = reg,
       rt_subscribers = [], rt_logSeq = sc_maxSeq (scan_log (map ex_entry es)),
       rt_preSeqEntries = sc_preSeq (scan_log (map ex_entry es)), rt_sweepActor = '''', rt_kernelURN = '''',
       rt_logIntegrity = integrity_of ex_golib (map ex_entry es) True '''', rt_reads = 0 \<rparr>"

lemma k_ops_ex [simp]: "k_ops ex_kenv = mem_ops"
  by (simp add: ex_kenv_def)

lemma ex_rt_boot:
  assumes "snd (Replay (map ex_entry es)) = None"
  shows "NewRuntime ex_kenv (map ex_entry es) reg = Inr (ex_rt es reg)"
  unfolding NewRuntime_Inr using assms
  by (intro exI [of _ "map ex_entry es"] exI [of _ "ex_run es"])
     (simp add: ex_kenv_def ex_rt_def ex_run_def mem_ops_def MemStore_ReadAll_def MemStore_SingleWriter_def prod_eq_iff)

abbreviation ex_ab_envs :: "envelope list" where
  "ex_ab_envs \<equiv> [ex_add ''a'' ''task'' [(''title'', ex_prop (VStr ''x'') ''mutable''),
       (''owner'', ex_prop (VStr ''me'') ''immutable'')],
     ex_add ''b'' ''task'' [], ex_link ''r'' ''WF21'' ''a'' ''causes'' ''b'' ''caused-by'']"

lemma reachable_ex: "reachable ex_kenv (ex_rt ex_ab_envs reg)"
proof (rule reachable.boot [OF ex_rt_boot])
  show "snd (Replay (map ex_entry ex_ab_envs)) = None" by code_simp
qed

lemma ex_rt_state [simp]: "rt_state (ex_rt ex_ab_envs reg) = ex_ab" "rt_registry (ex_rt ex_ab_envs reg) = reg"
  by (simp_all add: ex_rt_def ex_ab_def)

lemma ex_Apply_lands: "\<exists>rt' r. Apply ex_kenv (ex_rt ex_ab_envs None) (ex_unlink ''r'') = (rt', Inr r)"
proof -
  have "case Apply ex_kenv (ex_rt ex_ab_envs None) (ex_unlink ''r'') of (_, Inl _) \<Rightarrow> False | (_, Inr _) \<Rightarrow> True"
    by code_simp
  then show ?thesis by (auto split: prod.splits sum.splits)
qed

end
