(* ===== verification/GoText.thy ===== *)
theory GoText
  imports GoJson
begin

text \<open>
  The text functions of Go's standard library the transport, hdc and command layers use:
  strings.TrimSpace, strings.ToLower, strings.Contains, strings.Split and strconv.Atoi. Strings are
  lists of bytes; white space is every code point of unicode.IsSpace in its UTF-8 form. Letters
  outside ASCII are lowered to themselves.
\<close>

section \<open>White space\<close>

definition spaces :: "string list" where
  "spaces = map (\<lambda>c. [c]) [CHR 0x09, CHR 0x0A, CHR 0x0B, CHR 0x0C, CHR 0x0D, CHR '' '']
     @ [[CHR 0xC2, CHR 0x85], [CHR 0xC2, CHR 0xA0], [CHR 0xE1, CHR 0x9A, CHR 0x80]]
     @ map (\<lambda>c. [CHR 0xE2, CHR 0x80, c])
         [CHR 0x80, CHR 0x81, CHR 0x82, CHR 0x83, CHR 0x84, CHR 0x85, CHR 0x86, CHR 0x87, CHR 0x88,
          CHR 0x89, CHR 0x8A, CHR 0xA8, CHR 0xA9, CHR 0xAF]
     @ [[CHR 0xE2, CHR 0x81, CHR 0x9F], [CHR 0xE3, CHR 0x80, CHR 0x80]]"

text \<open>Drop the patterns \<open>ps\<close> from the front of a text, as often as one matches.\<close>

function trim_front :: "string list \<Rightarrow> string \<Rightarrow> string" where
  "trim_front ps s =
     (case find (\<lambda>p. p \<noteq> [] \<and> HasPrefix s p) ps of
        None \<Rightarrow> s
      | Some p \<Rightarrow> trim_front ps (drop (length p) s))"
  by pat_completeness auto
termination
proof (relation "measure (\<lambda>(ps, s). length s)", goal_cases)
  case 1
  then show ?case by simp
next
  case (2 ps s p)
  then have "p \<noteq> []" "HasPrefix s p" by (auto simp: find_Some_iff)
  then have "s \<noteq> []" "0 < length p" by (auto simp: HasPrefix_def)
  then show ?case by simp
qed

declare trim_front.simps [simp del]

definition TrimSpace :: "string \<Rightarrow> string" where
  "TrimSpace s = rev (trim_front (map rev spaces) (rev (trim_front spaces s)))"

lemma trim_front_suffix: "suffix (trim_front ps s) s"
proof (induction ps s rule: trim_front.induct)
  case (1 ps s)
  show ?case
  proof (cases "find (\<lambda>p. p \<noteq> [] \<and> HasPrefix s p) ps")
    case None
    then show ?thesis by (simp add: trim_front.simps [of ps s])
  next
    case (Some p)
    with 1 have "suffix (trim_front ps (drop (length p) s)) (drop (length p) s)" by simp
    with Some show ?thesis
      by (metis (no_types, lifting) option.simps(5) suffix_drop suffix_order.trans trim_front.simps)
  qed
qed

lemma trim_front_id:
  assumes "\<And>p. p \<in> set ps \<Longrightarrow> p = [] \<or> \<not> HasPrefix s p"
  shows "trim_front ps s = s"
proof -
  have "find (\<lambda>p. p \<noteq> [] \<and> HasPrefix s p) ps = None"
    using assms by (auto simp: find_None_iff)
  then show ?thesis by (simp add: trim_front.simps [of ps s])
qed

lemma trim_front_Nil [simp]: "trim_front ps [] = []"
  by (rule trim_front_id) (auto simp: HasPrefix_def)

lemma trim_front_plain:
  assumes "s = [] \<or> (\<forall>p\<in>set ps. p \<noteq> [] \<longrightarrow> hd p \<noteq> hd s)"
  shows "trim_front ps s = s"
proof (rule trim_front_id)
  fix p
  assume "p \<in> set ps"
  with assms show "p = [] \<or> \<not> HasPrefix s p" by (cases p) (auto simp: HasPrefix_iff)
qed

lemma TrimSpace_plain:
  assumes "\<And>c. c \<in> set s \<Longrightarrow> c \<notin> hd ` set spaces \<and> c \<notin> last ` set spaces"
  shows "TrimSpace s = s"
proof (cases "s = []")
  case True
  then show ?thesis by (simp add: TrimSpace_def)
next
  case False
  then have "hd s \<in> set s" "last s \<in> set s" by simp_all
  with assms have h: "hd s \<notin> hd ` set spaces" "last s \<notin> last ` set spaces" by blast+
  have "trim_front spaces s = s" using h(1) by (intro trim_front_plain) (auto simp: image_iff)
  moreover have "trim_front (map rev spaces) (rev s) = rev s"
    using h(2) by (intro trim_front_plain) (auto simp: image_iff hd_rev)
  ultimately show ?thesis by (simp add: TrimSpace_def)
qed

section \<open>Case, search and split\<close>

definition ToLower :: "string \<Rightarrow> string" where
  "ToLower s = map ascii_lower s"

fun Contains :: "string \<Rightarrow> string \<Rightarrow> bool" where
  "Contains [] p = (p = [])"
| "Contains (c # s) p = (HasPrefix (c # s) p \<or> Contains s p)"

lemma Contains_iff: "Contains s p \<longleftrightarrow> sublist p s"
proof (induction s)
  case Nil
  then show ?case by simp
next
  case (Cons c s)
  then show ?case by (simp add: sublist_Cons_right HasPrefix_iff prefix_def)
qed

text \<open>strings.Split for a one-character separator.\<close>

function Split :: "string \<Rightarrow> char \<Rightarrow> string list" where
  "Split s c =
     (let a = takeWhile (\<lambda>x. x \<noteq> c) s
      in if length a = length s then [s] else a # Split (drop (Suc (length a)) s) c)"
  by pat_completeness auto
termination
proof (relation "measure (\<lambda>(s, c). length s)", goal_cases)
  case 1
  then show ?case by simp
next
  case (2 s c x)
  then have "length x < length s" by (metis le_neq_implies_less length_takeWhile_le)
  then show ?case by simp
qed

declare Split.simps [simp del]

section \<open>Numbers\<close>

definition digit_char :: "char \<Rightarrow> bool" where
  "digit_char c \<longleftrightarrow> CHR ''0'' \<le> c \<and> c \<le> CHR ''9''"

text \<open>strconv.Atoi: an optional sign and decimal digits within the range of a 64-bit int.\<close>

definition Atoi :: "string \<Rightarrow> int option" where
  "Atoi s =
     (let (neg, ds) = (case s of
             c # cs \<Rightarrow> if c = CHR ''-'' then (True, cs) else if c = CHR ''+'' then (False, cs) else (False, s)
           | [] \<Rightarrow> (False, []));
          v = int (digits_val 0 ds); i = (if neg then - v else v)
      in if ds \<noteq> [] \<and> list_all digit_char ds \<and> - (2 ^ 63) \<le> i \<and> i < 2 ^ 63 then Some i else None)"

lemma digit_chars: "list_all digit_char (string_of_nat n)"
proof (induction n rule: string_of_nat.induct)
  case (1 n)
  have d: "digit_char (char_of (48 + d))" if "d < 10" for d :: nat
  proof -
    have "d \<in> {0, 1, 2, 3, 4, 5, 6, 7, 8, 9}" using that by auto
    then show ?thesis by (auto simp: digit_char_def less_eq_char_def)
  qed
  show ?case
  proof (cases "n < 10")
    case True
    with d show ?thesis by (simp add: string_of_nat.simps [of n])
  next
    case False
    with 1 d [of "n mod 10"] show ?thesis by (simp add: string_of_nat.simps [of n])
  qed
qed

lemma string_of_nat_ne: "string_of_nat n \<noteq> []"
  by (simp add: string_of_nat.simps [of n])

lemma not_digit: "\<not> digit_char CHR ''-''" "\<not> digit_char CHR ''+''"
  by (simp_all add: digit_char_def less_eq_char_def)

text \<open>What %d prints, Atoi reads back.\<close>

lemma Atoi_string_of_int:
  assumes "- (2 ^ 63) \<le> i" "i < 2 ^ 63"
  shows "Atoi (string_of_int i) = Some i"
proof (cases "i < 0")
  case True
  then show ?thesis using assms
    by (simp add: Atoi_def string_of_int_def digits_val_string_of_nat digit_chars string_of_nat_ne)
next
  case False
  obtain c cs where c: "string_of_nat (nat i) = c # cs" by (cases "string_of_nat (nat i)") (auto simp: string_of_nat_ne)
  with digit_chars [of "nat i"] have "digit_char c" "c \<noteq> CHR ''-''" "c \<noteq> CHR ''+''"
    by (auto simp: not_digit)
  with False assms c digit_chars [of "nat i"] digits_val_string_of_nat [of "nat i"] show ?thesis
    by (simp add: Atoi_def string_of_int_def)
qed

end
