(* ===== verification/Http.thy ===== *)
theory Http
  imports Wire GoText Runtime
begin

text \<open>
  internal/transport/server.go: the HTTP adapter. A request is a method, the decoded segments of its
  path, its query parameters, its Authorization header and its body; a response is a status, the
  headers and a document. A handler takes the wildcards of its route, the runtime, the request and the
  headers the middleware has set, and returns the runtime and the response. Bodies are documents, not
  text: \<open>w_json\<close> is the first value a json.Decoder finds in a body. The routes under /hdc, which only
  read, answer with the status and body \<open>w_hdc\<close> gives; the proxy of /llm with the status, content type
  and body of \<open>w_llm\<close>.
\<close>

section \<open>Requests and responses\<close>

record request =
  rq_Method :: string
  rq_Path :: "string list"
  rq_Query :: "(string \<times> string) list"
  rq_Auth :: string
  rq_Body :: string

type_synonym headers = "(string, string) gomap"

datatype json_read = Value jdoc | Incomplete | Malformed

datatype json_failure = Unreadable | WrongShape decode_error

datatype failure =
    Text string
  | InvalidJSON string json_failure
  | SessionNotLive urn string
  | Rejected kernel_error
  | FoldFailed replay_error

record sse_event =
  ev_Name :: string
  ev_Data :: jdoc

text \<open>A stream is a subscription and the events sent when it opens.\<close>

datatype body = NoBody | Doc jdoc | Failed failure | Plain string | Stream string "sse_event list"

record response =
  rs_Status :: nat
  rs_Headers :: headers
  rs_Body :: body

record server =
  sv_registry :: "registry option"
  sv_altSvc :: string
  sv_llmProxy :: bool
  sv_authToken :: string
  sv_llmToken :: string

definition NewServer :: "registry option \<Rightarrow> server" where
  "NewServer registry = \<lparr> sv_registry = registry, sv_altSvc = '''', sv_llmProxy = False, sv_authToken = '''',
     sv_llmToken = '''' \<rparr>"

definition SetAltSvc :: "string \<Rightarrow> server \<Rightarrow> server" where
  "SetAltSvc v s = s\<lparr> sv_altSvc := v \<rparr>"

definition SetAuthToken :: "string \<Rightarrow> server \<Rightarrow> server" where
  "SetAuthToken v s = s\<lparr> sv_authToken := v \<rparr>"

definition SetLLMToken :: "string \<Rightarrow> server \<Rightarrow> server" where
  "SetLLMToken v s = s\<lparr> sv_llmToken := v \<rparr>"

record 's web =
  w_kenv :: "'s kenv"
  w_json :: "string \<Rightarrow> json_read"
  w_hdc :: "string list \<Rightarrow> 's runtime \<Rightarrow> request \<Rightarrow> nat \<times> body"
  w_llm :: "request \<Rightarrow> nat \<times> string \<times> body"

type_synonym 's handler = "string list \<Rightarrow> 's runtime \<Rightarrow> request \<Rightarrow> headers \<Rightarrow> 's runtime \<times> response"

definition query :: "request \<Rightarrow> string \<Rightarrow> string" where
  "query rq k = (case map_of (rq_Query rq) k of None \<Rightarrow> '''' | Some v \<Rightarrow> v)"

definition respond_json :: "headers \<Rightarrow> nat \<Rightarrow> body \<Rightarrow> response" where
  "respond_json h status b =
     \<lparr> rs_Status = status, rs_Headers = mput ''Content-Type'' ''application/json'' h, rs_Body = b \<rparr>"

definition writeJSON :: "headers \<Rightarrow> nat \<Rightarrow> jdoc \<Rightarrow> response" where
  "writeJSON h status v = respond_json h status (Doc v)"

definition writeError :: "headers \<Rightarrow> nat \<Rightarrow> failure \<Rightarrow> response" where
  "writeError h status msg =
     respond_json h status (Failed (case msg of Text s \<Rightarrow> Text (TrimSpace s) | _ \<Rightarrow> msg))"

text \<open>A nil slice prints as null.\<close>

definition json_slice :: "('a \<Rightarrow> jdoc) \<Rightarrow> 'a list \<Rightarrow> jdoc" where
  "json_slice f xs = (if xs = [] then JNull else JArr (map f xs))"

definition json_strings :: "string list option \<Rightarrow> jdoc" where
  "json_strings xs = (case xs of None \<Rightarrow> JNull | Some ss \<Rightarrow> JArr (map JStr ss))"

section \<open>Bearer tokens and the gates\<close>

definition validBearer :: "string \<Rightarrow> string \<Rightarrow> bool" where
  "validBearer header token =
     (if length header \<le> length ''Bearer '' \<or> \<not> EqualFold (take (length ''Bearer '') header) ''Bearer ''
      then False
      else let got = TrimSpace (drop (length ''Bearer '') header) in got = token)"

definition writeGate :: "server \<Rightarrow> 's handler \<Rightarrow> 's handler" where
  "writeGate s nxt vals rt rq h =
     (let h' = mdel ''Access-Control-Allow-Origin'' h
      in if sv_authToken s \<noteq> '''' \<and> \<not> validBearer (rq_Auth rq) (sv_authToken s)
         then (rt, writeError h' 401 (Text ''missing or invalid bearer token''))
         else nxt vals rt rq h')"

definition llmGate :: "server \<Rightarrow> 's handler \<Rightarrow> 's handler" where
  "llmGate s nxt vals rt rq h =
     (let h' = mdel ''Access-Control-Allow-Origin'' h;
          okWrite = (sv_authToken s \<noteq> '''' \<and> validBearer (rq_Auth rq) (sv_authToken s));
          okLLM = (sv_llmToken s \<noteq> '''' \<and> validBearer (rq_Auth rq) (sv_llmToken s))
      in if (sv_authToken s \<noteq> '''' \<or> sv_llmToken s \<noteq> '''') \<and> \<not> okWrite \<and> \<not> okLLM
         then (rt, writeError h' 401 (Text ''missing or invalid bearer token''))
         else nxt vals rt rq h')"

text \<open>The headers every response starts from; a preflight is answered with them alone.\<close>

definition cors_headers :: "server \<Rightarrow> headers" where
  "cors_headers s =
     (let h = [(''Access-Control-Allow-Origin'', ''*''),
               (''Access-Control-Allow-Methods'', ''GET, POST, OPTIONS''),
               (''Access-Control-Allow-Headers'', ''Content-Type, Authorization'')]
      in if sv_altSvc s \<noteq> '''' then mput ''Alt-Svc'' (sv_altSvc s) h else h)"

definition corsMiddleware ::
  "server \<Rightarrow> ('s runtime \<Rightarrow> request \<Rightarrow> headers \<Rightarrow> 's runtime \<times> response) \<Rightarrow>
   's runtime \<Rightarrow> request \<Rightarrow> 's runtime \<times> response" where
  "corsMiddleware s nxt rt rq =
     (if rq_Method rq = ''OPTIONS''
      then (rt, \<lparr> rs_Status = 204, rs_Headers = cors_headers s, rs_Body = NoBody \<rparr>)
      else nxt rt rq (cors_headers s))"

section \<open>Health and the integrity report\<close>

definition currentTDay :: "'s web \<Rightarrow> 's runtime \<Rightarrow> int \<times> 's runtime" where
  "currentTDay W rt = (case read_clock (w_kenv W) rt of (t, rt') \<Rightarrow> (tday_Now t, rt'))"

definition json_nat :: "nat \<Rightarrow> jdoc" where
  "json_nat n = json_int (int n)"

definition json_collision_entry :: "collision_entry \<Rightarrow> jdoc" where
  "json_collision_entry e = JObj ([(''append_position'', json_nat (ce_AppendPosition e))]
     @ opt_str ''applied_at'' (ce_AppliedAt e) @ [(''rewrite_type'', JStr (ce_RewriteType e))]
     @ opt_str ''actor'' (ce_Actor e) @ opt_str ''target_urn'' (ce_TargetURN e)
     @ [(''fingerprint'', JStr (ce_Fingerprint e)), (''fold_effect'', JStr (ce_FoldEffect e))])"

definition json_collision_group :: "collision_group \<Rightarrow> jdoc" where
  "json_collision_group g = JObj [(''log_seq'', json_int (cg_LogSeq g)), (''entry_count'', json_nat (cg_Count g)),
     (''kind'', JStr (cg_Kind g)), (''entries'', JArr (map json_collision_entry (cg_Entries g))),
     (''distinct_applied_at'', json_nat (cg_DistinctAppliedAt g)),
     (''applied_count'', json_nat (cg_AppliedCount g))]"

definition json_log_integrity :: "log_integrity \<Rightarrow> jdoc" where
  "json_log_integrity li = JObj (opt_str ''kernel_urn'' (li_KernelURN li) @
     [(''log_len'', json_nat (li_LogLen li)), (''max_log_seq'', json_int (li_MaxLogSeq li)),
      (''log_seq_missing'', json_nat (li_LogSeqMissing li)),
      (''duplicate_log_seq_values'', json_nat (li_DuplicateLogSeqValues li)),
      (''duplicate_log_seq_excess_entries'', json_int (li_DuplicateLogSeqExcessEntries li)),
      (''log_seq_collision_kinds'', json_of_map json_nat (li_CollisionKinds li)),
      (''logged_no_fold_effect_entries'', json_nat (li_LoggedNoFoldEffect li)),
      (''log_single_writer'', JBool (li_SingleWriter li)),
      (''collision_groups'', JArr (map json_collision_group (li_Groups li)))])"

definition handleHealthz :: "'s web \<Rightarrow> server \<Rightarrow> 's handler" where
  "handleHealthz W s vals rt0 rq h =
     (let ontologyVersion = (case sv_registry s of None \<Rightarrow> '''' | Some r \<Rightarrow> Version r);
          (logLen, maxLogSeq) = LogStats rt0;
          integrity = LogIntegrity rt0;
          (tDay, rt) = currentTDay W rt0
      in (rt, writeJSON h 200 (json_object
           ([(''status'', JStr ''ok''), (''log_len'', json_nat logLen), (''max_log_seq'', json_int maxLogSeq),
             (''log_seq_missing'', json_nat (LogSeqMissing rt0)), (''t_day'', json_int tDay),
             (''ontology_version'', JStr ontologyVersion),
             (''duplicate_log_seq_values'', json_nat (li_DuplicateLogSeqValues integrity)),
             (''duplicate_log_seq_excess_entries'', json_int (li_DuplicateLogSeqExcessEntries integrity)),
             (''log_seq_collision_kinds'', json_of_map json_nat (li_CollisionKinds integrity)),
             (''log_single_writer'', JBool (li_SingleWriter integrity))]
            @ (if li_KernelURN integrity \<noteq> '''' then [(''kernel_urn'', JStr (li_KernelURN integrity))] else [])))))"

definition handleLogIntegrity :: "'s handler" where
  "handleLogIntegrity vals rt rq h = (rt, writeJSON h 200 (json_log_integrity (LogIntegrity rt)))"

section \<open>State\<close>

definition handleGetNodes :: "'s web \<Rightarrow> 's handler" where
  "handleGetNodes W vals rt rq h =
     (rt, writeJSON h 200 (JArr (map (json_node (k_lib (w_kenv W))) (rt_Nodes rt))))"

definition path_value :: "string list \<Rightarrow> string" where
  "path_value vals = (case vals of [] \<Rightarrow> '''' | v # _ \<Rightarrow> v)"

definition handleGetNode :: "'s web \<Rightarrow> 's handler" where
  "handleGetNode W vals rt rq h =
     (case Node rt (path_value vals) of
        None \<Rightarrow> (rt, writeError h 404 (Text (''node not found: '' @ path_value vals)))
      | Some nd \<Rightarrow> (rt, writeJSON h 200 (json_node (k_lib (w_kenv W)) nd)))"

definition handleGetRelations :: "'s web \<Rightarrow> 's handler" where
  "handleGetRelations W vals rt rq h =
     (rt, writeJSON h 200 (JArr (map (json_relation (k_lib (w_kenv W))) (rt_Relations rt))))"

definition handleGetRelationsSrc :: "'s web \<Rightarrow> 's handler" where
  "handleGetRelationsSrc W vals rt rq h =
     (rt, writeJSON h 200 (json_slice (json_relation (k_lib (w_kenv W))) (RelationsSrc rt (path_value vals))))"

definition handleGetRelationsTgt :: "'s web \<Rightarrow> 's handler" where
  "handleGetRelationsTgt W vals rt rq h =
     (rt, writeJSON h 200 (json_slice (json_relation (k_lib (w_kenv W))) (RelationsTgt rt (path_value vals))))"

definition handleGetLog :: "'s web \<Rightarrow> 's handler" where
  "handleGetLog W vals rt rq h =
     (rt, writeJSON h 200 (JArr (map (json_persisted (k_lib (w_kenv W))) (Log rt))))"


section \<open>Streams\<close>

definition stream_headers :: "headers \<Rightarrow> headers" where
  "stream_headers h =
     mput ''Connection'' ''keep-alive'' (mput ''Cache-Control'' ''no-cache'' (mput ''Content-Type'' ''text/event-stream'' h))"

text \<open>Opening a stream subscribes under a name made of the clock; the client's hang-up unsubscribes.\<close>

definition open_stream :: "'s web \<Rightarrow> string \<Rightarrow> 's runtime \<Rightarrow> string \<times> 's runtime" where
  "open_stream W kind rt0 =
     (case read_clock (w_kenv W) rt0 of
        (t, rt) \<Rightarrow> let name = kind @ ''-'' @ string_of_int t in (name, Subscribe rt name))"

definition handleLogStream :: "'s web \<Rightarrow> 's handler" where
  "handleLogStream W vals rt0 rq h =
     (case open_stream W ''sse'' rt0 of
        (name, rt) \<Rightarrow> (rt, \<lparr> rs_Status = 200, rs_Headers = stream_headers h, rs_Body = Stream name [] \<rparr>))"

definition log_event :: "'s web \<Rightarrow> persisted_rewrite \<Rightarrow> sse_event" where
  "log_event W pr = \<lparr> ev_Name = '''', ev_Data = json_persisted (k_lib (w_kenv W)) pr \<rparr>"

definition rewrite_event :: "'s web \<Rightarrow> persisted_rewrite \<Rightarrow> sse_event" where
  "rewrite_event W pr =
     \<lparr> ev_Name = ''rewrite'',
       ev_Data = json_object [(''log_seq'', json_int (pr_LogSeq pr)),
         (''rewrite'', json_persisted (k_lib (w_kenv W)) pr)] \<rparr>"

definition graph_fields :: "'s web \<Rightarrow> graph_state \<Rightarrow> (string \<times> jdoc) list" where
  "graph_fields W state =
     [(''nodes'', JArr (map (json_node (k_lib (w_kenv W)) \<circ> snd) (Nodes state))),
      (''relations'', JArr (map (json_relation (k_lib (w_kenv W)) \<circ> snd) (Relations state)))]"

definition snapshot_events :: "'s web \<Rightarrow> persisted_rewrite list \<Rightarrow> sse_event list" where
  "snapshot_events W es =
     (case Replay es of
        (_, Some _) \<Rightarrow> []
      | (state, None) \<Rightarrow>
          [\<lparr> ev_Name = ''snapshot'',
             ev_Data = json_object ((''t'', json_nat (length es)) # graph_fields W state) \<rparr>])"

definition handleFoldStream :: "'s web \<Rightarrow> 's handler" where
  "handleFoldStream W vals rt0 rq h =
     (case open_stream W ''fold-sse'' rt0 of
        (name, rt) \<Rightarrow>
          (rt, \<lparr> rs_Status = 200, rs_Headers = stream_headers h,
                 rs_Body = Stream name (snapshot_events W (Log rt)) \<rparr>))"

text \<open>The loop of a stream: send the oldest rewrite of the channel; None when there is none to send.\<close>

definition stream_step ::
  "(persisted_rewrite \<Rightarrow> sse_event) \<Rightarrow> string \<Rightarrow> 's runtime \<Rightarrow> 's runtime \<times> sse_event option" where
  "stream_step event name rt =
     (case Receive rt name of (rt', None) \<Rightarrow> (rt', None) | (rt', Some pr) \<Rightarrow> (rt', Some (event pr)))"

section \<open>The fold\<close>

text \<open>The position a query asks for: what is not a number is ignored, the rest is clamped.\<close>

definition fold_position :: "string \<Rightarrow> nat \<Rightarrow> nat" where
  "fold_position raw n =
     (if raw = '''' then n
      else case Atoi raw of
        None \<Rightarrow> n
      | Some v \<Rightarrow> let v1 = (if v < 0 then 0 else v); v2 = (if v1 > int n then int n else v1) in nat v2)"

definition handleGetFold :: "'s web \<Rightarrow> 's handler" where
  "handleGetFold W vals rt rq h =
     (let es = Log rt; to = fold_position (TrimSpace (query rq ''to'')) (length es)
      in (rt, case Replay (take to es) of
             (_, Some err) \<Rightarrow> writeError h 500 (FoldFailed err)
           | (state, None) \<Rightarrow>
               writeJSON h 200 (json_object
                 ([(''t'', json_nat to), (''log_len'', json_nat (length es))] @ graph_fields W state))))"

section \<open>Rewrites\<close>

definition decode_body :: "'s web \<Rightarrow> 'a dec \<Rightarrow> 'a \<Rightarrow> string \<Rightarrow> json_failure + 'a" where
  "decode_body W f zero text =
     (case w_json W text of
        Value d \<Rightarrow> (case f d zero of Inl err \<Rightarrow> Inl (WrongShape err) | Inr x \<Rightarrow> Inr x)
      | _ \<Rightarrow> Inl Unreadable)"

definition handlePostRewrite :: "'s web \<Rightarrow> 's handler" where
  "handlePostRewrite W vals rt rq h =
     (case decode_body W dec_envelope no_envelope (rq_Body rq) of
        Inl err \<Rightarrow> (rt, writeError h 400 (InvalidJSON ''invalid JSON: '' err))
      | Inr env \<Rightarrow>
          (case Apply (w_kenv W) rt env of
             (rt', Inl err) \<Rightarrow> (rt', writeError h 422 (Rejected err))
           | (rt', Inr result) \<Rightarrow> (rt', writeJSON h 200 (json_eval_result result))))"

definition dec_envelopes :: "envelope list option dec" where
  "dec_envelopes = dec_slice no_envelope dec_envelope"

definition handlePostProgram :: "'s web \<Rightarrow> 's handler" where
  "handlePostProgram W vals rt rq h =
     (case decode_body W dec_envelopes None (rq_Body rq) of
        Inl err \<Rightarrow> (rt, writeError h 400 (InvalidJSON ''invalid JSON: '' err))
      | Inr envelopes \<Rightarrow>
          (case ApplyProgram (w_kenv W) rt (elems envelopes) of
             (rt', Inl err) \<Rightarrow> (rt', writeError h 422 (Rejected err))
           | (rt', Inr results) \<Rightarrow> (rt', writeJSON h 200 (JArr (map json_eval_result results)))))"

section \<open>The operad\<close>

text \<open>The structs of the registry carry no tags; a list that is empty after a load is a nil slice.\<close>

definition json_port_spec :: "port_spec \<Rightarrow> jdoc" where
  "json_port_spec p = JObj [(''Out'', json_strings (po_Out p)), (''In'', json_strings (po_In p)),
     (''Self'', json_strings (po_Self p))]"

definition json_property_spec :: "property_spec \<Rightarrow> jdoc" where
  "json_property_spec p = JObj [(''Mutability'', JStr (ps_Mutability p)),
     (''AuthorityScope'', JStr (ps_AuthorityScope p)), (''Type'', JStr (ps_Type p)),
     (''Values'', json_slice json_val (ps_Values p)), (''Note'', JStr (ps_Note p))]"

definition json_node_type :: "node_type_spec \<Rightarrow> jdoc" where
  "json_node_type n = JObj [(''ID'', JStr (nt_ID n)), (''Stratum'', JStr (nt_Stratum n)),
     (''URNPattern'', JStr (nt_URNPattern n)), (''Ports'', json_port_spec (nt_Ports n)),
     (''Properties'', json_of_map json_property_spec (nt_Properties n))]"

definition json_additional_pair :: "additional_port_pair \<Rightarrow> jdoc" where
  "json_additional_pair p = JObj [(''SrcPort'', JStr (ap_SrcPort p)), (''TgtPort'', JStr (ap_TgtPort p)),
     (''SrcTypes'', JArr (map JStr (ap_SrcTypes p))), (''TgtTypes'', JArr (map JStr (ap_TgtTypes p))),
     (''AddedInVersion'', JStr (ap_AddedInVersion p)), (''PromotesFragment'', JStr (ap_PromotesFragment p)),
     (''Description'', JStr (ap_Description p))]"

definition json_category :: "wf_spec \<Rightarrow> jdoc" where
  "json_category w = JObj [(''ID'', JStr (wf_ID w)), (''Name'', JStr (wf_Name w)),
     (''AllowedRewrites'', json_slice (JStr \<circ> rewrite_string) (wf_AllowedRewrites w)),
     (''SrcTypes'', json_slice JStr (wf_SrcTypes w)), (''TgtTypes'', json_slice JStr (wf_TgtTypes w)),
     (''SrcPort'', JStr (wf_SrcPort w)), (''TgtPort'', JStr (wf_TgtPort w)),
     (''AdditionalPortPairs'', json_slice json_additional_pair (wf_AdditionalPortPairs w)),
     (''Authority'', JStr (wf_Authority w)), (''MutateScope'', json_slice JStr (wf_MutateScope w)),
     (''SyncMode'', JStr (wf_SyncMode w))]"

definition handleGetNodeTypes :: "server \<Rightarrow> 's handler" where
  "handleGetNodeTypes s vals rt rq h =
     (rt, writeJSON h 200 (case sv_registry s of
        None \<Rightarrow> JObj [] | Some r \<Rightarrow> json_of_map json_node_type (NodeTypes r)))"

definition handleGetRewriteCategories :: "server \<Rightarrow> 's handler" where
  "handleGetRewriteCategories s vals rt rq h =
     (rt, writeJSON h 200 (case sv_registry s of
        None \<Rightarrow> JObj [] | Some r \<Rightarrow> json_of_map json_category (RewriteCategories r)))"

definition handleGetPortColors :: "server \<Rightarrow> 's handler" where
  "handleGetPortColors s vals rt rq h =
     (rt, writeJSON h 200 (case sv_registry s of
        None \<Rightarrow> JObj []
      | Some r \<Rightarrow> json_object
          [(''matrix'', json_of_map (json_of_map JStr) (PortColorMatrix r)),
           (''port_colors'', case PortColors r of None \<Rightarrow> JNull | Some m \<Rightarrow> json_of_map JStr m),
           (''color_rule'', JStr ColorRule), (''color_source'', JStr (PortColorSource r))]))"

end
