(* ===== verification/Projections.thy ===== *)
theory Projections
  imports Http
begin

text \<open>
  internal/transport/thook.go and tcone.go: evaluation of t_hooks on request, one by one or in a
  batch, and the t-cone, the view a session's occupant has of the nodes with open hooks.
\<close>

section \<open>Evaluating one hook\<close>

text \<open>The \<^verbatim>\<open>at\<close> parameter: absent, it is today; otherwise it must be an integer.\<close>

definition at_param :: "'s web \<Rightarrow> 's runtime \<Rightarrow> request \<Rightarrow> 's runtime \<times> (failure + int)" where
  "at_param W rt0 rq =
     (case currentTDay W rt0 of
        (today, rt) \<Rightarrow>
          let raw = TrimSpace (query rq ''at'')
          in (rt, if raw = '''' then Inr today
                  else case Atoi raw of
                    None \<Rightarrow> Inl (Text ''invalid at query parameter: must be integer T-day'')
                  | Some t \<Rightarrow> Inr t))"

text \<open>What a hook shows of itself when it is evaluated at T.\<close>

definition hook_fields :: "graph_state \<Rightarrow> node \<Rightarrow> val \<Rightarrow> int \<Rightarrow> (string \<times> jdoc) list" where
  "hook_fields state nd predicate atT =
     [(''fires'', JBool (EvaluateThookPredicate predicate state atT)), (''predicate'', json_val predicate)]
     @ (case mget (n_Properties nd) ''owner_urn'' of None \<Rightarrow> [] | Some p \<Rightarrow> [(''owner_urn'', json_val (p_Value p))])
     @ (case mget (n_Properties nd) ''react_template'' of
          None \<Rightarrow> [] | Some p \<Rightarrow> [(''react_template'', json_val (p_Value p))])"

definition predicate_of :: "node \<Rightarrow> val option" where
  "predicate_of nd =
     (case mget (n_Properties nd) ''predicate'' of
        None \<Rightarrow> None
      | Some p \<Rightarrow> (if p_Value p = VNil then None else Some (p_Value p)))"

text \<open>The dash of the messages is U+2014.\<close>

definition nothing_to_evaluate :: string where
  "nothing_to_evaluate = '' has no predicate value '' @ [CHR 0xE2, CHR 0x80, CHR 0x94] @ '' nothing to evaluate''"

definition handleGetTHookEvaluate :: "'s web \<Rightarrow> 's handler" where
  "handleGetTHookEvaluate W vals rt0 rq h =
     (let u = path_value vals
      in case Node rt0 u of
           None \<Rightarrow> (rt0, writeError h 404 (Text (''t_hook not found: '' @ u)))
         | Some nd \<Rightarrow>
             if n_TypeID nd \<noteq> ''t_hook''
             then (rt0, writeError h 400 (Text (''node '' @ u @ '' is not a t_hook (type='' @ n_TypeID nd @ '')'')))
             else case predicate_of nd of
                 None \<Rightarrow> (rt0, writeError h 422 (Text (''t_hook '' @ u @ nothing_to_evaluate)))
               | Some predicate \<Rightarrow>
                   (case at_param W rt0 rq of
                      (rt, Inl err) \<Rightarrow> (rt, writeError h 400 err)
                    | (rt, Inr atT) \<Rightarrow>
                        (rt, writeJSON h 200 (json_object
                           ([(''urn'', JStr u), (''at_t'', json_int atT)] @
                            hook_fields (State rt) nd predicate atT)))))"

section \<open>Evaluating a batch\<close>

definition batchEvaluateMaxBodyBytes :: nat where
  "batchEvaluateMaxBodyBytes = 2 ^ 20"

record batch_request =
  br_URNs :: "string list option"
  br_At :: "int option"

definition dec_batch_request :: "batch_request dec" where
  "dec_batch_request = dec_struct [
     (''urns'', on_field br_URNs br_URNs_update (dec_slice '''' dec_string)),
     (''at'', on_field br_At br_At_update (dec_ptr 0 dec_int))]"

text \<open>
  A body is read through http.MaxBytesReader: the decoder sees at most the first MiB, and asking for
  more fails with the error the handler turns into 413.
\<close>

definition read_batch :: "'s web \<Rightarrow> string \<Rightarrow> nat \<times> failure + batch_request" where
  "read_batch W text =
     (case w_json W (take batchEvaluateMaxBodyBytes text) of
        Value d \<Rightarrow>
          (case dec_batch_request d \<lparr> br_URNs = None, br_At = None \<rparr> of
             Inl err \<Rightarrow> Inl (400, InvalidJSON ''invalid JSON body: '' (WrongShape err))
           | Inr req \<Rightarrow> Inr req)
      | Malformed \<Rightarrow> Inl (400, InvalidJSON ''invalid JSON body: '' Unreadable)
      | Incomplete \<Rightarrow>
          if length text > batchEvaluateMaxBodyBytes
          then Inl (413, Text (''request body exceeds limit ('' @
                 string_of_int (int batchEvaluateMaxBodyBytes) @ '' bytes)''))
          else Inl (400, InvalidJSON ''invalid JSON body: '' Unreadable))"

definition batch_entry :: "graph_state \<Rightarrow> int \<Rightarrow> string \<Rightarrow> jdoc" where
  "batch_entry state atT u =
     (let entry = [(''urn'', JStr u), (''at_t'', json_int atT)]
      in json_object (entry @
           (case mget (Nodes state) u of
              None \<Rightarrow> [(''error'', JStr (''t_hook not found: '' @ u))]
            | Some nd \<Rightarrow>
                if n_TypeID nd \<noteq> ''t_hook''
                then [(''error'', JStr (''node is not a t_hook (type='' @ n_TypeID nd @ '')''))]
                else case predicate_of nd of
                    None \<Rightarrow> [(''error'', JStr (''t_hook'' @ nothing_to_evaluate))]
                  | Some predicate \<Rightarrow> hook_fields state nd predicate atT)))"

definition handleBatchTHookEvaluate :: "'s web \<Rightarrow> 's handler" where
  "handleBatchTHookEvaluate W vals rt0 rq h =
     (case read_batch W (rq_Body rq) of
        Inl (status, err) \<Rightarrow> (rt0, writeError h status err)
      | Inr req \<Rightarrow>
          (case br_URNs req of
             None \<Rightarrow> (rt0, writeError h 400 (Text ''\"urns\" field is required''))
           | Some urns \<Rightarrow>
               (case currentTDay W rt0 of
                  (today, rt) \<Rightarrow>
                    let atT = (case br_At req of None \<Rightarrow> today | Some t \<Rightarrow> t)
                    in if urns = [] then (rt, writeJSON h 200 (JArr []))
                       else (rt, writeJSON h 200 (JArr (map (batch_entry (State rt) atT) urns))))))"

section \<open>The t-cone\<close>

definition adminScopeTypes :: "type_id list" where
  "adminScopeTypes = [''governance_proposal'', ''role'', ''capability'', ''ontology_publication'', ''grammar_fragment'']"

text \<open>A missing property is the zero property, whose value is nil.\<close>

definition stringPropValue :: "property option \<Rightarrow> string" where
  "stringPropValue p =
     (case map_option p_Value p of
        None \<Rightarrow> '''' | Some VNil \<Rightarrow> '''' | Some (VStr s) \<Rightarrow> s | Some v \<Rightarrow> fmt_v v)"

record cone_firing =
  cf_urn :: urn
  cf_kind :: string
  cf_predicate :: val

definition predicate_kind :: "val \<Rightarrow> string" where
  "predicate_kind v =
     (case v of
        VObj m \<Rightarrow> (case mget m ''kind'' of None \<Rightarrow> '''' | Some k \<Rightarrow> string_or_empty k)
      | _ \<Rightarrow> '''')"

text \<open>What one t_hook adds to the cone: nothing unless its predicate holds and it names an owner.\<close>

definition open_hook :: "graph_state \<Rightarrow> int \<Rightarrow> urn \<Rightarrow> (urn \<times> cone_firing) option" where
  "open_hook state atT hookURN =
     (case mget (Nodes state) hookURN of
        None \<Rightarrow> None
      | Some nd \<Rightarrow>
          (case predicate_of nd of
             None \<Rightarrow> None
           | Some predicate \<Rightarrow>
               if \<not> EvaluateThookPredicate predicate state atT then None
               else let ownerURN = stringPropValue (mget (n_Properties nd) ''owner_urn'')
                 in if ownerURN = '''' then None
                    else Some (ownerURN, \<lparr> cf_urn = n_URN nd, cf_kind = predicate_kind predicate,
                                 cf_predicate = predicate \<rparr>)))"

fun build_cone :: "graph_state \<Rightarrow> int \<Rightarrow> urn list \<Rightarrow> (urn, cone_firing list) gomap \<Rightarrow> (urn, cone_firing list) gomap" where
  "build_cone state atT [] cone = cone"
| "build_cone state atT (u # rest) cone =
     build_cone state atT rest
       (case open_hook state atT u of
          None \<Rightarrow> cone
        | Some (owner, f) \<Rightarrow> mput owner ((case mget cone owner of None \<Rightarrow> [] | Some fs \<Rightarrow> fs) @ [f]) cone)"

definition cone_hook :: "cone_firing \<Rightarrow> jdoc" where
  "cone_hook f = json_object [(''urn'', JStr (cf_urn f)), (''predicate_kind'', JStr (cf_kind f)),
     (''predicate'', json_val (cf_predicate f))]"

definition cone_node :: "graph_state \<Rightarrow> bool \<Rightarrow> (urn, cone_firing list) gomap \<Rightarrow> urn \<Rightarrow> jdoc option" where
  "cone_node state isAdmin cone u =
     (case mget (Nodes state) u of
        None \<Rightarrow> None
      | Some owner \<Rightarrow>
          if \<not> isAdmin \<and> n_TypeID owner \<in> set adminScopeTypes then None
          else let fires = sort_key cf_urn (case mget cone u of None \<Rightarrow> [] | Some fs \<Rightarrow> fs)
            in Some (json_object [(''urn'', JStr u), (''type_id'', JStr (n_TypeID owner)),
                 (''properties'', json_of_map (\<lambda>p. json_val (p_Value p)) (n_Properties owner)),
                 (''open_t_hooks'', JArr (map cone_hook fires))]))"

definition cone_nodes :: "graph_state \<Rightarrow> bool \<Rightarrow> (urn, cone_firing list) gomap \<Rightarrow> jdoc list" where
  "cone_nodes state isAdmin cone = List.map_filter (cone_node state isAdmin cone) (sort (mkeys cone))"

definition cone_doc :: "int \<Rightarrow> urn \<Rightarrow> urn option \<Rightarrow> jdoc list \<Rightarrow> jdoc" where
  "cone_doc atT sess occupant nodes =
     json_object [(''t'', json_int atT), (''session'', JStr sess),
       (''occupant'', case occupant of None \<Rightarrow> JNull | Some u \<Rightarrow> JStr u), (''nodes'', JArr nodes)]"

text \<open>A seat is live when its role, or the older property of that name, is occupier or delegate.\<close>

definition seat_role :: "node \<Rightarrow> string" where
  "seat_role nd =
     (let r = stringPropValue (mget (n_Properties nd) ''seat_role'')
      in if r = '''' then stringPropValue (mget (n_Properties nd) ''role'') else r)"

definition handleGetTCone :: "'s web \<Rightarrow> 's handler" where
  "handleGetTCone W vals rt0 rq h =
     (let sess = TrimSpace (query rq ''session'')
      in if sess = '''' then (rt0, writeError h 400 (Text ''missing session query parameter''))
         else case at_param W rt0 rq of
             (rt, Inl err) \<Rightarrow> (rt, writeError h 400 err)
           | (rt, Inr atT) \<Rightarrow>
               (rt, case Node rt sess of
                  None \<Rightarrow> writeError h 404 (Text (''session not found: '' @ sess))
                | Some nd \<Rightarrow>
                    if n_TypeID nd \<noteq> ''session''
                    then writeError h 400 (Text (''URN '' @ sess @ '' is not a session (type='' @ n_TypeID nd @ '')''))
                    else if seat_role nd \<noteq> ''occupier'' \<and> seat_role nd \<noteq> ''delegate''
                    then writeError h 400 (SessionNotLive sess (seat_role nd))
                    else let state = State rt
                      in case ResolveSessionOccupant state sess of
                           None \<Rightarrow> writeJSON h 200 (cone_doc atT sess None [])
                         | Some occupant \<Rightarrow>
                             let isAdmin = CheckAdminCapability state occupant;
                                 cone = build_cone state atT (NodesOfType state ''t_hook'') []
                             in writeJSON h 200 (cone_doc atT sess (Some occupant) (cone_nodes state isAdmin cone))))"

end
