(* ===== verification/Routes.thy ===== *)
theory Routes
  imports Projections
begin

text \<open>
  internal/transport/twin.go and the route table of server.go: the twin protocol between two kernels,
  and the handler of the whole server. The table is that of http.ServeMux: a GET route also answers
  HEAD, a path served under another method is 405, any other 404.
\<close>

section \<open>Twins\<close>

definition handleTwinIngest :: "'s web \<Rightarrow> 's handler" where
  "handleTwinIngest W vals rt rq h =
     (case decode_body W dec_envelopes None (rq_Body rq) of
        Inl err \<Rightarrow> (rt, writeError h 400 (InvalidJSON ''invalid JSON: '' err))
      | Inr envelopes \<Rightarrow>
          if elems envelopes = [] then (rt, writeJSON h 200 (JArr []))
          else (case ApplyProgram (w_kenv W) rt (elems envelopes) of
                  (rt', Inl err) \<Rightarrow> (rt', writeError h 422 (Rejected err))
                | (rt', Inr results) \<Rightarrow> (rt', writeJSON h 200 (JArr (map json_eval_result results)))))"

definition twinPropStr :: "node \<Rightarrow> string \<Rightarrow> string" where
  "twinPropStr nd field =
     (case mget (n_Properties nd) field of None \<Rightarrow> '''' | Some p \<Rightarrow> string_or_empty (p_Value p))"

definition twin_entry :: "node \<Rightarrow> jdoc" where
  "twin_entry nd = JObj [(''urn'', JStr (n_URN nd)), (''local_urn'', JStr (twinPropStr nd ''local_urn'')),
     (''remote_urn'', JStr (twinPropStr nd ''remote_urn'')),
     (''remote_endpoint'', JStr (twinPropStr nd ''remote_endpoint'')),
     (''sync_mode'', JStr (twinPropStr nd ''sync_mode'')), (''status'', JStr (twinPropStr nd ''status''))]"

definition handleTwinStatus :: "'s handler" where
  "handleTwinStatus vals rt rq h =
     (rt, writeJSON h 200 (JArr (map twin_entry (filter (\<lambda>nd. n_TypeID nd = ''twin_link'') (rt_Nodes rt)))))"

text \<open>Where a rewrite is forwarded: the endpoints of the active twins that sync eagerly.\<close>

definition eager_twin :: "node \<Rightarrow> bool" where
  "eager_twin nd \<longleftrightarrow> n_TypeID nd = ''twin_link'' \<and> twinPropStr nd ''sync_mode'' = ''eager'' \<and>
     twinPropStr nd ''status'' = ''active'' \<and> twinPropStr nd ''remote_endpoint'' \<noteq> ''''"

text \<open>The document a forward carries, and the request that carries it: no Authorization header is set.\<close>

definition twin_document :: "envelope \<Rightarrow> jdoc" where
  "twin_document env = JArr [json_envelope env]"

definition twinPost :: "(jdoc \<Rightarrow> string) \<Rightarrow> envelope \<Rightarrow> request" where
  "twinPost print env =
     \<lparr> rq_Method = ''POST'', rq_Path = [''twin'', ''ingest''], rq_Query = [], rq_Auth = '''',
       rq_Body = print (twin_document env) \<rparr>"

definition forwardToEagerTwins ::
  "(jdoc \<Rightarrow> string) \<Rightarrow> 's runtime \<Rightarrow> persisted_rewrite \<Rightarrow> (string \<times> request) list" where
  "forwardToEagerTwins print rt pr =
     map (\<lambda>nd. (twinPropStr nd ''remote_endpoint'', twinPost print (pr_Envelope pr)))
       (filter eager_twin (rt_Nodes rt))"

text \<open>One round of RunTwinSync: take a rewrite off the channel and forward it.\<close>

definition twin_sync_step ::
  "(jdoc \<Rightarrow> string) \<Rightarrow> 's runtime \<Rightarrow> 's runtime \<times> (string \<times> request) list" where
  "twin_sync_step print rt =
     (case Receive rt ''twin-sync'' of
        (rt', None) \<Rightarrow> (rt', [])
      | (rt', Some pr) \<Rightarrow> (rt', forwardToEagerTwins print rt' pr))"

section \<open>The route table\<close>

datatype seg = Lit string | Var

record 's route =
  ro_Method :: string
  ro_Pattern :: "seg list"
  ro_Handler :: "'s handler"

definition route :: "string \<Rightarrow> seg list \<Rightarrow> 's handler \<Rightarrow> 's route" where
  "route m pat f = \<lparr> ro_Method = m, ro_Pattern = pat, ro_Handler = f \<rparr>"

text \<open>A wildcard matches one segment; the empty segment stands for a trailing slash.\<close>

fun match_path :: "seg list \<Rightarrow> string list \<Rightarrow> string list option" where
  "match_path [] [] = Some []"
| "match_path (Lit s # pat) (x # path) = (if s = x then match_path pat path else None)"
| "match_path (Var # pat) (x # path) = (if x = '''' then None else map_option ((#) x) (match_path pat path))"
| "match_path _ _ = None"

definition route_methods :: "'s route \<Rightarrow> string list" where
  "route_methods ro = (if ro_Method ro = ''GET'' then [''GET'', ''HEAD''] else [ro_Method ro])"

fun find_route :: "'s route list \<Rightarrow> string \<Rightarrow> string list \<Rightarrow> ('s handler \<times> string list) option" where
  "find_route [] m path = None"
| "find_route (ro # ros) m path =
     (case match_path (ro_Pattern ro) path of
        None \<Rightarrow> find_route ros m path
      | Some vals \<Rightarrow> if m \<in> set (route_methods ro) then Some (ro_Handler ro, vals) else find_route ros m path)"

definition allowed_methods :: "'s route list \<Rightarrow> string list \<Rightarrow> string list" where
  "allowed_methods ros path =
     sort (remdups (concat (map route_methods (filter (\<lambda>ro. match_path (ro_Pattern ro) path \<noteq> None) ros))))"

definition plain_error :: "headers \<Rightarrow> nat \<Rightarrow> string \<Rightarrow> response" where
  "plain_error h status msg =
     \<lparr> rs_Status = status, rs_Headers = mput ''X-Content-Type-Options'' ''nosniff''
         (mput ''Content-Type'' ''text/plain; charset=utf-8'' h), rs_Body = Plain msg \<rparr>"

definition serve_mux :: "'s route list \<Rightarrow> 's runtime \<Rightarrow> request \<Rightarrow> headers \<Rightarrow> 's runtime \<times> response" where
  "serve_mux ros rt rq h =
     (case find_route ros (rq_Method rq) (rq_Path rq) of
        Some (f, vals) \<Rightarrow> f vals rt rq h
      | None \<Rightarrow>
          let ms = allowed_methods ros (rq_Path rq)
          in (rt, if ms \<noteq> [] then plain_error (mput ''Allow'' (join '', '' ms) h) 405 ''Method Not Allowed''
                  else plain_error h 404 ''404 page not found''))"

definition hdc_route :: "'s web \<Rightarrow> string list \<Rightarrow> 's route" where
  "hdc_route W path = route ''GET'' (Lit ''hdc'' # map Lit path) (\<lambda>vals rt rq h.
     (case w_hdc W path rt rq of (status, b) \<Rightarrow> (rt, respond_json h status b)))"

definition proxy_handler :: "'s web \<Rightarrow> 's handler" where
  "proxy_handler W vals rt rq h =
     (case w_llm W rq of
        (status, ct, b) \<Rightarrow> (rt, \<lparr> rs_Status = status, rs_Headers = mput ''Content-Type'' ct h, rs_Body = b \<rparr>))"

definition read_routes :: "'s web \<Rightarrow> server \<Rightarrow> 's route list" where
  "read_routes W s =
     [route ''GET'' [Lit ''healthz''] (handleHealthz W s),
      route ''GET'' [Lit ''state'', Lit ''nodes''] (handleGetNodes W),
      route ''GET'' [Lit ''state'', Lit ''nodes'', Var] (handleGetNode W),
      route ''GET'' [Lit ''state'', Lit ''relations''] (handleGetRelations W),
      route ''GET'' [Lit ''state'', Lit ''relations'', Lit ''src'', Var] (handleGetRelationsSrc W),
      route ''GET'' [Lit ''state'', Lit ''relations'', Lit ''tgt'', Var] (handleGetRelationsTgt W),
      route ''GET'' [Lit ''log''] (handleGetLog W),
      route ''GET'' [Lit ''log'', Lit ''stream''] (handleLogStream W),
      route ''GET'' [Lit ''log'', Lit ''integrity''] handleLogIntegrity,
      route ''GET'' [Lit ''fold''] (handleGetFold W),
      route ''GET'' [Lit ''fold'', Lit ''stream''] (handleFoldStream W),
      route ''GET'' [Lit ''operad'', Lit ''node-types''] (handleGetNodeTypes s),
      route ''GET'' [Lit ''operad'', Lit ''rewrite-categories''] (handleGetRewriteCategories s),
      route ''GET'' [Lit ''operad'', Lit ''port-colors''] (handleGetPortColors s)]
     @ map (hdc_route W)
         [[''similarity-matrix''], [''eigenvalues''], [''fiedler''], [''type-coherence''], [''type-expression''],
          [''fiber''], [''federation''], [''fiber-assignment''], [''fiber-distribution''], [''crosswalk''],
          [''crosswalk'', ''composition-check''], [''crosswalk'', ''suggestions''], [''classification-space'']]
     @ [route ''GET'' [Lit ''twin'', Lit ''status''] handleTwinStatus,
        route ''GET'' [Lit ''t-hook'', Lit ''evaluate'', Var] (handleGetTHookEvaluate W),
        route ''POST'' [Lit ''t-hook'', Lit ''evaluate''] (handleBatchTHookEvaluate W),
        route ''GET'' [Lit ''t-cone''] (handleGetTCone W)]"

definition gated_routes :: "'s web \<Rightarrow> server \<Rightarrow> 's route list" where
  "gated_routes W s =
     [route ''POST'' [Lit ''rewrites''] (writeGate s (handlePostRewrite W)),
      route ''POST'' [Lit ''programs''] (writeGate s (handlePostProgram W)),
      route ''POST'' [Lit ''twin'', Lit ''ingest''] (writeGate s (handleTwinIngest W))]
     @ (if sv_llmProxy s
        then [route ''POST'' [Lit ''llm'', Lit ''gemini'', Lit ''chat'', Lit ''completions'']
                (llmGate s (proxy_handler W))]
        else [])"

definition Handler :: "'s web \<Rightarrow> server \<Rightarrow> 's runtime \<Rightarrow> request \<Rightarrow> 's runtime \<times> response" where
  "Handler W s = corsMiddleware s (serve_mux (read_routes W s @ gated_routes W s))"

end
