(* ===== verification/Streams.thy ===== *)
theory Streams
  imports RuntimeSpec Routes "HOL-Library.Multiset"
begin

text \<open>
  What a subscriber hears: every rewrite that lands in the log is broadcast once, though not always
  in the order of the log, and a subscriber whose channel never overflows loses none. A stream of the
  fold therefore carries enough to follow the state.
\<close>

section \<open>Every logged rewrite is broadcast\<close>

text \<open>
  From one runtime to another, with \<open>owed\<close> logged but not yet broadcast: a channel with room for all
  that was logged received all of it but what is owed.
\<close>

definition heard :: "persisted_rewrite list \<Rightarrow> 's runtime \<Rightarrow> 's runtime \<Rightarrow> bool" where
  "heard owed rt rt' \<longleftrightarrow>
     (\<exists>new. rt_log rt' = rt_log rt @ new \<and> mset owed \<subseteq># mset new \<and>
        (\<forall>name ch. mget (rt_subscribers rt) name = Some ch \<and> length ch + length new \<le> subscriberBufferSize \<longrightarrow>
           (\<exists>got. mget (rt_subscribers rt') name = Some (ch @ got) \<and> mset new = mset got + mset owed)))"

lemma heardI:
  assumes "rt_log rt' = rt_log rt @ new" "mset owed \<subseteq># mset new"
    and "\<And>name ch. mget (rt_subscribers rt) name = Some ch \<Longrightarrow> length ch + length new \<le> subscriberBufferSize \<Longrightarrow>
      \<exists>got. mget (rt_subscribers rt') name = Some (ch @ got) \<and> mset new = mset got + mset owed"
  shows "heard owed rt rt'"
  using assms unfolding heard_def by blast

lemma heard_same:
  "rt_log rt' = rt_log rt \<Longrightarrow> rt_subscribers rt' = rt_subscribers rt \<Longrightarrow> heard [] rt rt'"
  by (rule heardI [where new = "[]"]) simp_all

lemma heard_trans:
  assumes "heard xs a b" "heard ys b c"
  shows "heard (xs @ ys) a c"
proof -
  obtain m where m: "rt_log b = rt_log a @ m" "mset xs \<subseteq># mset m"
    "\<And>name ch. mget (rt_subscribers a) name = Some ch \<Longrightarrow> length ch + length m \<le> subscriberBufferSize \<Longrightarrow>
       \<exists>got. mget (rt_subscribers b) name = Some (ch @ got) \<and> mset m = mset got + mset xs"
    using assms(1) unfolding heard_def by auto
  obtain n where n: "rt_log c = rt_log b @ n" "mset ys \<subseteq># mset n"
    "\<And>name ch. mget (rt_subscribers b) name = Some ch \<Longrightarrow> length ch + length n \<le> subscriberBufferSize \<Longrightarrow>
       \<exists>got. mget (rt_subscribers c) name = Some (ch @ got) \<and> mset n = mset got + mset ys"
    using assms(2) unfolding heard_def by auto
  show ?thesis
  proof (rule heardI [where new = "m @ n"])
    fix name ch
    assume ch: "mget (rt_subscribers a) name = Some ch" "length ch + length (m @ n) \<le> subscriberBufferSize"
    then obtain g where g: "mget (rt_subscribers b) name = Some (ch @ g)" "mset m = mset g + mset xs"
      using m(3) by fastforce
    then have "length m = length g + length xs" by (metis size_mset size_union)
    with ch(2) have "length (ch @ g) + length n \<le> subscriberBufferSize" by simp
    from n(3) [OF g(1) this] obtain h where "mget (rt_subscribers c) name = Some ((ch @ g) @ h)"
      "mset n = mset h + mset ys" by blast
    with g show "\<exists>got. mget (rt_subscribers c) name = Some (ch @ got) \<and> mset (m @ n) = mset got + mset (xs @ ys)"
      by (intro exI [of _ "g @ h"]) (simp add: ac_simps)
  qed (use m n in \<open>simp_all add: subset_mset.add_mono\<close>)
qed

lemma mget_broadcast:
  "mget (rt_subscribers (broadcast pr rt)) name =
   map_option (\<lambda>ch. if length ch < subscriberBufferSize then ch @ [pr] else ch) (mget (rt_subscribers rt) name)"
  by (simp add: broadcast_def mget_map_kv)

text \<open>A broadcast pays off one rewrite.\<close>

lemma heard_broadcast:
  assumes "heard (xs @ pr # ys) rt rt'"
  shows "heard (xs @ ys) rt (broadcast pr rt')"
proof -
  obtain new where new: "rt_log rt' = rt_log rt @ new" "mset (xs @ pr # ys) \<subseteq># mset new"
    "\<And>name ch. mget (rt_subscribers rt) name = Some ch \<Longrightarrow> length ch + length new \<le> subscriberBufferSize \<Longrightarrow>
       \<exists>got. mget (rt_subscribers rt') name = Some (ch @ got) \<and> mset new = mset got + mset (xs @ pr # ys)"
    using assms unfolding heard_def by auto
  show ?thesis
  proof (rule heardI [where new = new])
    show "mset (xs @ ys) \<subseteq># mset new"
      using new(2) by (rule subset_mset.order_trans [rotated]) simp
    fix name ch
    assume ch: "mget (rt_subscribers rt) name = Some ch" "length ch + length new \<le> subscriberBufferSize"
    then obtain g where g: "mget (rt_subscribers rt') name = Some (ch @ g)"
      "mset new = mset g + mset (xs @ pr # ys)" using new(3) by blast
    then have "length new = length g + length (xs @ pr # ys)" by (metis size_mset size_union)
    with ch(2) have "length (ch @ g) < subscriberBufferSize" by simp
    then show "\<exists>got. mget (rt_subscribers (broadcast pr rt')) name = Some (ch @ got) \<and>
        mset new = mset got + mset (xs @ ys)"
      using g by (intro exI [of _ "g @ [pr]"]) (simp add: mget_broadcast)
  qed (simp add: new(1))
qed

lemma heard_broadcasts: "heard prs rt rt' \<Longrightarrow> heard [] rt (foldl (\<lambda>r p. broadcast p r) rt' prs)"
proof (induction prs arbitrary: rt')
  case Nil
  then show ?case by simp
next
  case (Cons p prs)
  have "heard prs rt (broadcast p rt')" using heard_broadcast [of "[]" p prs rt rt'] Cons.prems by simp
  from Cons.IH [OF this] show ?case by simp
qed

lemma heard_install:
  assumes "rt_log rt' = rt_log rt" "rt_subscribers rt' = rt_subscribers rt"
  shows "heard prs rt (install nx prs rt')"
  using assms by (intro heardI [where new = prs]) simp_all

lemma heard_emit: "heard [] rt (fst (emit E rt env))"
proof -
  obtain now rt1 where c: "read_clock E rt = (now, rt1)" by force
  have same: "rt_log rt1 = rt_log rt" "rt_subscribers rt1 = rt_subscribers rt"
    using read_clock_simps [of E rt] c by simp_all
  show ?thesis
  proof (cases "EvaluateAt (rt_state rt1) env now")
    case (Inl err)
    with c same show ?thesis by (simp add: emit_def heard_same)
  next
    case (Inr nr)
    obtain nx r where nr: "nr = (nx, r)" by force
    obtain rt2 res where p: "persist_one E rt1 env now = (rt2, res)" by force
    note q = persist_one_simps [OF p]
    show ?thesis
    proof (cases res)
      case None
      with c Inr nr p q same show ?thesis by (simp add: emit_def heard_same)
    next
      case (Some pr)
      have "heard ([] @ [pr]) rt (install nx [pr] rt2)" using q same by (simp add: heard_install)
      from heard_broadcast [OF this] c Inr nr p Some show ?thesis by (simp add: emit_def)
    qed
  qed
qed

interpretation hearing: emission_closed "\<lambda>E. heard []"
proof
  show "heard [] rt rt" for rt :: "'a runtime" by (simp add: heard_same)
  show "heard [] a b \<Longrightarrow> heard [] b c \<Longrightarrow> heard [] a c" for a b c :: "'a runtime"
    using heard_trans [of "[]" a b "[]" c] by simp
  show "heard [] rt (snd (read_clock E rt))" for E :: "'a kenv" and rt by (simp add: heard_same)
  show "heard [] rt (fst (emit E rt env))" for E :: "'a kenv" and rt env by (rule heard_emit)
qed

lemma heard_after_commit:
  assumes "heard [pr] a rt"
  shows "heard [] a (after_commit E rt bump pr env)"
proof -
  let ?b = "case bump of None \<Rightarrow> rt | Some u \<Rightarrow> bumpSessionLocalT E rt u"
  have "heard [] rt ?b" by (simp add: hearing.bumped hearing.refl split: option.split)
  with heard_trans [OF assms] have "heard ([] @ [pr]) a ?b" by simp
  from heard_broadcast [OF this] have "heard [] a (broadcast pr ?b)" by simp
  with hearing.ran_reactive hearing.drifted show ?thesis
    by (simp add: after_commit_def Let_def) (blast intro: hearing.trans)
qed

lemma heard_apply_locked: "heard [] rt (fst (apply_locked E rt env))"
proof (cases rule: apply_locked_cases [of E rt env])
  case (rejected err rt1)
  then show ?thesis by (simp add: heard_same)
next
  case (landed env' now nx r pr rt1)
  from persist_one_simps [OF landed(6)] have "heard [pr] rt (install nx [pr] rt1)"
    by (simp add: heard_install)
  then show ?thesis unfolding landed(7) by (simp add: heard_after_commit)
qed

lemma heard_commit_program:
  assumes "commit_program E rt es ts nx rs = (rt', res)"
  shows "heard [] rt rt'"
proof -
  let ?new = "stamp_all (rt_logSeq rt) (zip es ts)"
  let ?rt1 = "rt\<lparr> rt_logSeq := advance_seq (rt_logSeq rt) (length es) \<rparr>"
  obtain st ok where ap: "so_Append (k_ops E) (rt_store ?rt1) ?new = (st, ok)" by force
  let ?rt2 = "?rt1\<lparr> rt_store := st \<rparr>"
  show ?thesis
  proof (cases ok)
    case False
    with assms ap show ?thesis by (auto simp: commit_program_def Let_def intro: heard_same)
  next
    case True
    let ?rt4 = "foldl (bumpSessionLocalT E) (install nx ?new ?rt2) (sessions_to_bump (rt_state ?rt2) es)"
    let ?rt5 = "foldl (\<lambda>r p. broadcast p r) ?rt4 ?new"
    have "heard ?new rt (install nx ?new ?rt2)" by (rule heard_install) simp_all
    from heard_trans [OF this, of "[]" ?rt4] have "heard ?new rt ?rt4"
      by (simp add: hearing.folded hearing.bumped)
    then have "heard [] rt ?rt5" by (rule heard_broadcasts)
    with hearing.trans hearing.drifted [of ?rt5 E "last es"]
    have "heard [] rt (if es = [] then ?rt5 else runHDCIndexAndDriftLocked E ?rt5 (last es))" by auto
    moreover have "commit_program E rt es ts nx rs =
        ((if es = [] then ?rt5 else runHDCIndexAndDriftLocked E ?rt5 (last es)), Inr rs)"
      using ap True by (simp add: commit_program_def Let_def)
    ultimately show ?thesis using assms by (metis prod.inject)
  qed
qed

lemma heard_program_locked: "heard [] rt (fst (program_locked E rt es))"
proof -
  obtain now rt0 where c: "read_clock E rt = (now, rt0)" by force
  have same: "heard [] rt rt0" using hearing.clock_read [of rt E] c by simp
  have "heard [] rt rt'" if "commit_program E rt0 a b nx rs = (rt', res)" for a b nx rs rt' res
    using hearing.trans [OF same heard_commit_program [OF that]] .
  then show ?thesis
    by (auto simp: program_locked_def c same Let_def split: sum.split prod.split)
      (metis fst_conv surj_pair)
qed


section \<open>A reader that keeps up\<close>

text \<open>
  A step keeps a channel when it only appends to it and the channel had room for everything the step
  logged: no one else reads it, closes it or takes its name.
\<close>

definition keeps_channel :: "string \<Rightarrow> 's runtime \<Rightarrow> 's runtime \<Rightarrow> bool" where
  "keeps_channel name rt rt' \<longleftrightarrow>
     (\<exists>ch more. mget (rt_subscribers rt) name = Some ch \<and> mget (rt_subscribers rt') name = Some (ch @ more) \<and>
        length ch + (length (rt_log rt') - length (rt_log rt)) \<le> subscriberBufferSize)"

text \<open>A reader of channel \<open>name\<close> from \<open>rt0\<close> on: \<open>got\<close> is what it took off the channel so far.\<close>

inductive follows :: "'s kenv \<Rightarrow> string \<Rightarrow> 's runtime \<Rightarrow> persisted_rewrite list \<Rightarrow> 's runtime \<Rightarrow> bool"
  for E name rt0 where
  opened: "follows E name rt0 [] rt0"
| served: "follows E name rt0 got rt \<Longrightarrow> kernel_step E rt rt' \<Longrightarrow> keeps_channel name rt rt' \<Longrightarrow>
    follows E name rt0 got rt'"
| taken: "follows E name rt0 got rt \<Longrightarrow> Receive rt name = (rt', Some pr) \<Longrightarrow> follows E name rt0 (got @ [pr]) rt'"

lemma Receive_Some:
  "Receive rt name = (rt', Some pr) \<longleftrightarrow>
   (\<exists>rest. mget (rt_subscribers rt) name = Some (pr # rest) \<and>
      rt' = rt\<lparr> rt_subscribers := mput name rest (rt_subscribers rt) \<rparr>)"
  by (auto simp: Receive_def split: option.splits list.splits)

lemma kernel_step_heard:
  assumes "kernel_step E rt rt'" "keeps_channel name rt rt'"
  shows "\<exists>ch more new. mget (rt_subscribers rt) name = Some ch \<and> mget (rt_subscribers rt') name = Some (ch @ more) \<and>
    rt_log rt' = rt_log rt @ new \<and> mset more = mset new"
proof -
  obtain ch more where k: "mget (rt_subscribers rt) name = Some ch" "mget (rt_subscribers rt') name = Some (ch @ more)"
    "length ch + (length (rt_log rt') - length (rt_log rt)) \<le> subscriberBufferSize"
    using assms(2) unfolding keeps_channel_def by blast
  have quiet: ?thesis if "rt_log rt' = rt_log rt" "more = []"
    using that k by auto
  have loud: ?thesis if "heard [] rt rt'"
  proof -
    obtain new where new: "rt_log rt' = rt_log rt @ new"
      "\<And>ch. mget (rt_subscribers rt) name = Some ch \<Longrightarrow> length ch + length new \<le> subscriberBufferSize \<Longrightarrow>
         \<exists>got. mget (rt_subscribers rt') name = Some (ch @ got) \<and> mset new = mset got"
      using \<open>heard [] rt rt'\<close> unfolding heard_def by auto
    with k show ?thesis by force
  qed
  from assms(1) show ?thesis
  proof (cases rule: kernel_step.cases)
    case (commit env)
    then show ?thesis using loud heard_apply_locked by blast
  next
    case (program es)
    then show ?thesis using loud heard_program_locked by blast
  next
    case tick
    then show ?thesis using loud heard_same by (metis read_clock_simps(2,5))
  next
    case (subscribe n)
    show ?thesis by (rule quiet) (use subscribe k in \<open>auto simp: Subscribe_def split: if_splits\<close>)
  next
    case (unsubscribe n)
    show ?thesis by (rule quiet) (use unsubscribe k in \<open>auto simp: Unsubscribe_def split: if_splits\<close>)
  next
    case (receive n)
    then have "rt' = rt \<or> (\<exists>pr. Receive rt n = (rt', Some pr))"
      by (auto simp: Receive_def split: option.splits list.splits)
    then show ?thesis
    proof
      assume "\<exists>pr. Receive rt n = (rt', Some pr)"
      then show ?thesis using k by (intro quiet) (auto simp: Receive_Some split: if_splits)
    qed (use k in \<open>auto intro: quiet\<close>)
  next
    case (sweep_actor u)
    show ?thesis by (rule quiet) (use sweep_actor k in \<open>auto simp: SetSweepActor_def\<close>)
  next
    case (kernel_urn u)
    show ?thesis by (rule quiet) (use kernel_urn k in \<open>auto simp: SetKernelURN_def\<close>)
  qed
qed

lemma follows_complete:
  assumes "follows E name rt0 got rt" "mget (rt_subscribers rt0) name = Some []"
  shows "\<exists>ch new. mget (rt_subscribers rt) name = Some ch \<and> rt_log rt = rt_log rt0 @ new \<and> mset (got @ ch) = mset new"
  using assms
proof (induction rule: follows.induct)
  case opened
  then show ?case by simp
next
  case (served got rt rt')
  then obtain ch new where IH: "mget (rt_subscribers rt) name = Some ch" "rt_log rt = rt_log rt0 @ new"
    "mset (got @ ch) = mset new" by blast
  from kernel_step_heard [OF served.hyps(2,3)] IH(1) obtain more n where
    "mget (rt_subscribers rt') name = Some (ch @ more)" "rt_log rt' = rt_log rt @ n" "mset more = mset n" by auto
  with IH show ?case by (intro exI [of _ "ch @ more"] exI [of _ "new @ n"]) (simp flip: IH(3))
next
  case (taken got rt rt' pr)
  then show ?case by (auto simp: Receive_Some)
qed

lemma follows_grown: "follows E name rt0 got rt \<Longrightarrow> grown E rt0 rt"
proof (induction rule: follows.induct)
  case (taken got rt rt' pr)
  have "grown E rt rt'" using taken.hyps(2) by (intro grown_same) (auto simp: Receive_Some)
  with taken.IH show ?case by (rule grown_trans)
qed (auto intro: grown_trans grown_kernel_step)

text \<open>Sorted by sequence number, what was heard is what was logged.\<close>

lemma heard_sorted:
  assumes "mset xs = mset new" "seqs new = map (\<lambda>i. q + 1 + int i) [0..<length new]"
  shows "sort_key pr_LogSeq xs = new"
proof -
  have s: "sorted_wrt (<) (seqs new)" using assms(2) by (simp add: sorted_wrt_map sorted_wrt_upt)
  then have d: "sorted (seqs new)" "distinct (seqs new)" by (simp_all add: strict_sorted_iff)
  have "mset (seqs (sort_key pr_LogSeq xs)) = mset (seqs new)" using assms(1) by simp
  then have "seqs (sort_key pr_LogSeq xs) = seqs new" using d(1) by (metis properties_for_sort sort_key_id_if_sorted sorted_sort_key)
  moreover have "set (sort_key pr_LogSeq xs) = set new" using assms(1) by (metis mset_sort set_mset_mset)
  ultimately show ?thesis using d(2) by (intro map_inj_on [of pr_LogSeq]) (simp_all add: distinct_map)
qed

end
