(* ===== verification/HttpSpec.thy ===== *)
theory HttpSpec
  imports Streams RuntimeOps WireSpec
begin

text \<open>
  What the handlers of internal/transport promise: reading routes leave the kernel alone and keep the
  headers of the middleware, writing routes pass the gate first. The t-cone is described by sets of
  hooks and owners, without the maps and loops that build it.
\<close>

section \<open>Reading and writing handlers\<close>

definition same_kernel :: "'s runtime \<Rightarrow> 's runtime \<Rightarrow> bool" where
  "same_kernel rt rt' \<longleftrightarrow> rt_state rt' = rt_state rt \<and> rt_log rt' = rt_log rt \<and> rt_store rt' = rt_store rt \<and>
     rt_logSeq rt' = rt_logSeq rt"

definition read_only :: "'s handler \<Rightarrow> bool" where
  "read_only f \<longleftrightarrow> (\<forall>vals rt rq h. same_kernel rt (fst (f vals rt rq h)))"

abbreviation origin :: "headers \<Rightarrow> string option" where
  "origin h \<equiv> mget h ''Access-Control-Allow-Origin''"

definition keeps_origin :: "'s handler \<Rightarrow> bool" where
  "keeps_origin f \<longleftrightarrow> (\<forall>vals rt rq h. origin (rs_Headers (snd (f vals rt rq h))) = origin h)"

text \<open>A handler that changes the state or the log answers 200.\<close>

definition commits_loudly :: "'s handler \<Rightarrow> bool" where
  "commits_loudly f \<longleftrightarrow> (\<forall>vals rt rq h. rs_Status (snd (f vals rt rq h)) \<noteq> 200 \<longrightarrow>
     rt_state (fst (f vals rt rq h)) = rt_state rt \<and> rt_log (fst (f vals rt rq h)) = rt_log rt)"

lemma same_kernel_refl [simp]: "same_kernel rt rt"
  by (simp add: same_kernel_def)

lemma origin_respond [simp]:
  "origin (rs_Headers (respond_json h status b)) = origin h"
  "origin (rs_Headers (writeJSON h status d)) = origin h"
  "origin (rs_Headers (writeError h status msg)) = origin h"
  "origin (rs_Headers (plain_error h status text)) = origin h"
  "origin (stream_headers h) = origin h"
  by (simp_all add: writeJSON_def writeError_def respond_json_def plain_error_def stream_headers_def)

lemma status_respond [simp]:
  "rs_Status (respond_json h status b) = status" "rs_Status (writeJSON h status d) = status"
  "rs_Status (writeError h status msg) = status"
  by (simp_all add: writeJSON_def writeError_def respond_json_def)

lemma same_kernel_clock: "same_kernel rt (snd (read_clock E rt))"
  by (simp add: same_kernel_def)

lemma same_kernel_tday: "currentTDay W rt = (t, rt') \<Longrightarrow> same_kernel rt rt'"
  using same_kernel_clock [of rt "w_kenv W"] by (auto simp: currentTDay_def split: prod.splits)

lemma same_kernel_stream: "open_stream W kind rt = (name, rt') \<Longrightarrow> same_kernel rt rt'"
  by (auto simp: open_stream_def Let_def Subscribe_def read_clock_def same_kernel_def)

lemma same_kernel_at: "at_param W rt rq = (rt', q) \<Longrightarrow> same_kernel rt rt'"
  by (auto simp: at_param_def Let_def dest: same_kernel_tday split: prod.splits)

lemmas handler_defs = handleLogIntegrity_def handleGetNodes_def handleGetNode_def handleGetRelations_def
  handleGetRelationsSrc_def handleGetRelationsTgt_def handleGetLog_def handleGetNodeTypes_def
  handleGetRewriteCategories_def handleGetPortColors_def handleTwinStatus_def

lemma reading_simple:
  "read_only (handleLogIntegrity :: 's handler)" "read_only (handleGetNodes W)" "read_only (handleGetNode W)"
  "read_only (handleGetRelations W)" "read_only (handleGetRelationsSrc W)" "read_only (handleGetRelationsTgt W)"
  "read_only (handleGetLog W)" "read_only (handleGetNodeTypes s :: 's handler)"
  "read_only (handleGetRewriteCategories s :: 's handler)" "read_only (handleGetPortColors s :: 's handler)"
  "read_only (handleTwinStatus :: 's handler)"
  by (simp_all add: read_only_def handler_defs split: option.split)

lemma origin_simple:
  "keeps_origin (handleLogIntegrity :: 's handler)" "keeps_origin (handleGetNodes W)" "keeps_origin (handleGetNode W)"
  "keeps_origin (handleGetRelations W)" "keeps_origin (handleGetRelationsSrc W)" "keeps_origin (handleGetRelationsTgt W)"
  "keeps_origin (handleGetLog W)" "keeps_origin (handleGetNodeTypes s :: 's handler)"
  "keeps_origin (handleGetRewriteCategories s :: 's handler)" "keeps_origin (handleGetPortColors s :: 's handler)"
  "keeps_origin (handleTwinStatus :: 's handler)"
  by (simp_all add: keeps_origin_def handler_defs split: option.split)

lemma reading_clock:
  "read_only (handleHealthz W s)" "read_only (handleLogStream W)" "read_only (handleFoldStream W)"
  by (auto simp: read_only_def handleHealthz_def handleLogStream_def handleFoldStream_def Let_def
      dest: same_kernel_tday same_kernel_stream split: prod.split)

lemma origin_clock:
  "keeps_origin (handleHealthz W s)" "keeps_origin (handleLogStream W)" "keeps_origin (handleFoldStream W)"
  by (auto simp: keeps_origin_def handleHealthz_def handleLogStream_def handleFoldStream_def Let_def split: prod.split)

lemma reading_fold: "read_only (handleGetFold W)" "keeps_origin (handleGetFold W)"
  by (simp_all add: read_only_def keeps_origin_def handleGetFold_def Let_def split: prod.split option.split)

lemma reading_thook:
  "read_only (handleGetTHookEvaluate W)" "keeps_origin (handleGetTHookEvaluate W)"
  by (auto simp: read_only_def keeps_origin_def handleGetTHookEvaluate_def Let_def
      dest: same_kernel_at split: option.split prod.split sum.split)

lemma reading_batch:
  "read_only (handleBatchTHookEvaluate W)" "keeps_origin (handleBatchTHookEvaluate W)"
  by (auto simp: read_only_def keeps_origin_def handleBatchTHookEvaluate_def Let_def
      dest: same_kernel_tday split: option.split prod.split sum.split)

lemma reading_tcone: "read_only (handleGetTCone W)" "keeps_origin (handleGetTCone W)"
  by (auto simp: read_only_def keeps_origin_def handleGetTCone_def Let_def
      dest: same_kernel_at split: option.split prod.split sum.split)

lemma reading_routes: "ro \<in> set (read_routes W s) \<Longrightarrow> read_only (ro_Handler ro) \<and> keeps_origin (ro_Handler ro)"
proof -
  have hdc: "read_only (ro_Handler (hdc_route W path)) \<and> keeps_origin (ro_Handler (hdc_route W path))" for path
    by (auto simp: read_only_def keeps_origin_def hdc_route_def route_def split: prod.split)
  assume "ro \<in> set (read_routes W s)"
  then show ?thesis
    unfolding read_routes_def set_append list.set list.map Un_iff insert_iff empty_iff
    by (elim disjE) (simp_all add: hdc, simp_all add: route_def reading_simple origin_simple reading_clock origin_clock
        reading_fold reading_thook reading_batch reading_tcone)
qed

section \<open>Writing handlers\<close>

lemma loud_rewrite: "commits_loudly (handlePostRewrite W)" "keeps_origin (handlePostRewrite W)"
  by (auto simp: commits_loudly_def keeps_origin_def handlePostRewrite_def
      dest: Apply_Inl split: sum.split prod.split)

lemma loud_program: "commits_loudly (handlePostProgram W)" "keeps_origin (handlePostProgram W)"
  by (auto simp: commits_loudly_def keeps_origin_def handlePostProgram_def
      dest: ApplyProgram_Inl split: sum.split prod.split)

lemma loud_ingest: "commits_loudly (handleTwinIngest W)" "keeps_origin (handleTwinIngest W)"
  by (auto simp: commits_loudly_def keeps_origin_def handleTwinIngest_def
      dest: ApplyProgram_Inl split: sum.split prod.split)

lemma writeGate_cases:
  obtains (refused) "sv_authToken s \<noteq> ''''" "\<not> validBearer (rq_Auth rq) (sv_authToken s)"
      "writeGate s f vals rt rq h =
         (rt, writeError (mdel ''Access-Control-Allow-Origin'' h) 401 (Text ''missing or invalid bearer token''))"
  | (passed) "sv_authToken s = '''' \<or> validBearer (rq_Auth rq) (sv_authToken s)"
      "writeGate s f vals rt rq h = f vals rt rq (mdel ''Access-Control-Allow-Origin'' h)"
  by (cases "sv_authToken s \<noteq> '''' \<and> \<not> validBearer (rq_Auth rq) (sv_authToken s)")
    (auto simp: writeGate_def Let_def)

lemma writeGate_origin:
  "keeps_origin f \<Longrightarrow> origin (rs_Headers (snd (writeGate s f vals rt rq h))) = None"
  by (cases rule: writeGate_cases [of s rq f vals rt h]) (simp_all add: keeps_origin_def)

lemma llmGate_origin:
  "keeps_origin f \<Longrightarrow> origin (rs_Headers (snd (llmGate s f vals rt rq h))) = None"
  by (simp add: llmGate_def keeps_origin_def Let_def)

lemma proxy_reads: "read_only (proxy_handler W)" "keeps_origin (proxy_handler W)"
  by (simp_all add: read_only_def keeps_origin_def proxy_handler_def split: prod.split)

section \<open>The route table\<close>

lemma find_route_Some:
  "find_route ros m path = Some (f, vals) \<Longrightarrow>
   \<exists>ro\<in>set ros. f = ro_Handler ro \<and> match_path (ro_Pattern ro) path = Some vals \<and> m \<in> set (route_methods ro)"
  by (induction ros) (auto split: option.splits if_splits)

lemma match_lits: "match_path (map Lit xs) path = Some vals \<longleftrightarrow> path = xs \<and> vals = []"
proof (induction xs arbitrary: path vals)
  case Nil
  then show ?case by (cases path) auto
next
  case (Cons x xs)
  then show ?case by (cases path) (auto split: if_splits)
qed

definition write_paths :: "string list set" where
  "write_paths = {[''rewrites''], [''programs''], [''twin'', ''ingest'']}"

definition llm_path :: "string list" where
  "llm_path = [''llm'', ''gemini'', ''chat'', ''completions'']"

definition gated_request :: "server \<Rightarrow> request \<Rightarrow> bool" where
  "gated_request s rq \<longleftrightarrow> rq_Method rq = ''POST'' \<and>
     (rq_Path rq \<in> write_paths \<or> sv_llmProxy s \<and> rq_Path rq = llm_path)"

lemma gated_found:
  assumes "ro \<in> set (gated_routes W s)" "match_path (ro_Pattern ro) path = Some vals" "m \<in> set (route_methods ro)"
  shows "m = ''POST'' \<and>
    (path \<in> write_paths \<and> (\<exists>f. ro_Handler ro = writeGate s f \<and> commits_loudly f \<and> keeps_origin f) \<or>
     sv_llmProxy s \<and> path = llm_path \<and> ro_Handler ro = llmGate s (proxy_handler W))"
proof -
  have lits: "match_path [Lit x] path = Some vals \<longleftrightarrow> path = [x] \<and> vals = []"
    "match_path [Lit x, Lit y] path = Some vals \<longleftrightarrow> path = [x, y] \<and> vals = []"
    "match_path [Lit x, Lit y, Lit z, Lit v] path = Some vals \<longleftrightarrow> path = [x, y, z, v] \<and> vals = []" for x y z v
    using match_lits [of "[x]"] match_lits [of "[x, y]"] match_lits [of "[x, y, z, v]"] by auto
  from assms show ?thesis
    by (auto simp: gated_routes_def route_def route_methods_def lits write_paths_def llm_path_def
        intro: loud_rewrite loud_program loud_ingest split: if_splits)
qed

lemma gated_routed:
  assumes "gated_request s rq"
  shows "\<exists>f vals. find_route (read_routes W s @ gated_routes W s) (rq_Method rq) (rq_Path rq) = Some (f, vals) \<and>
    (\<exists>ro\<in>set (gated_routes W s). f = ro_Handler ro \<and> match_path (ro_Pattern ro) (rq_Path rq) = Some vals \<and>
       ''POST'' \<in> set (route_methods ro))"
proof -
  have skip: "find_route (read_routes W s @ gated_routes W s) ''POST'' path = find_route (gated_routes W s) ''POST'' path"
    if "path \<in> insert llm_path write_paths" for path
    using that
    by (auto simp: read_routes_def hdc_route_def route_def route_methods_def write_paths_def llm_path_def)
  have "find_route (gated_routes W s) ''POST'' (rq_Path rq) \<noteq> None"
    using assms by (auto simp: gated_request_def gated_routes_def route_def route_methods_def write_paths_def llm_path_def)
  then obtain f vals where f: "find_route (gated_routes W s) ''POST'' (rq_Path rq) = Some (f, vals)" by auto
  have "rq_Method rq = ''POST''" "rq_Path rq \<in> insert llm_path write_paths"
    using assms by (auto simp: gated_request_def)
  with f skip find_route_Some [OF f] show ?thesis by auto
qed

text \<open>Every request is a preflight, finds a reading or a gated route, or none.\<close>

lemma Handler_cases:
  obtains (preflight) "rq_Method rq = ''OPTIONS''"
      "Handler W s rt rq = (rt, \<lparr> rs_Status = 204, rs_Headers = cors_headers s, rs_Body = NoBody \<rparr>)"
  | (reading) f vals where "read_only f" "keeps_origin f" "Handler W s rt rq = f vals rt rq (cors_headers s)"
      "\<not> gated_request s rq"
  | (writing) f vals where "gated_request s rq" "rq_Path rq \<in> write_paths" "commits_loudly f" "keeps_origin f"
      "Handler W s rt rq = writeGate s f vals rt rq (cors_headers s)"
  | (proxied) vals where "gated_request s rq"
      "Handler W s rt rq = llmGate s (proxy_handler W) vals rt rq (cors_headers s)"
  | (missing) r where "Handler W s rt rq = (rt, r)" "origin (rs_Headers r) = origin (cors_headers s)"
      "rs_Status r \<noteq> 200" "\<not> gated_request s rq"
proof (cases "rq_Method rq = ''OPTIONS''")
  case True
  then show ?thesis by (intro preflight) (simp_all add: Handler_def corsMiddleware_def)
next
  case False
  let ?ros = "read_routes W s @ gated_routes W s"
  have H: "Handler W s rt rq = serve_mux ?ros rt rq (cors_headers s)"
    using False by (simp add: Handler_def corsMiddleware_def)
  show ?thesis
  proof (cases "gated_request s rq")
    case True
    from gated_routed [OF this, of W] obtain f vals ro where
      f: "find_route ?ros (rq_Method rq) (rq_Path rq) = Some (f, vals)" "ro \<in> set (gated_routes W s)"
        "f = ro_Handler ro" "match_path (ro_Pattern ro) (rq_Path rq) = Some vals" "''POST'' \<in> set (route_methods ro)"
      by blast
    from gated_found [OF f(2,4,5)] True f H show ?thesis
      by (auto simp: serve_mux_def intro: writing proxied)
  next
    case ng: False
    show ?thesis
    proof (cases "find_route ?ros (rq_Method rq) (rq_Path rq)")
      case None
      show ?thesis
        by (rule missing [of "snd (serve_mux ?ros rt rq (cors_headers s))"])
          (use None ng H in \<open>simp_all add: serve_mux_def plain_error_def Let_def\<close>)
    next
      case (Some fv)
      obtain f vals where fv: "fv = (f, vals)" by force
      from find_route_Some [OF Some [unfolded fv]] obtain ro where
        ro: "ro \<in> set ?ros" "f = ro_Handler ro" "match_path (ro_Pattern ro) (rq_Path rq) = Some vals"
          "rq_Method rq \<in> set (route_methods ro)" by blast
      show ?thesis
      proof (cases "ro \<in> set (gated_routes W s)")
        case True
        from gated_found [OF this ro(3,4)] ng show ?thesis by (auto simp: gated_request_def)
      next
        case False
        then have "ro \<in> set (read_routes W s)" using ro(1) by simp
        from reading_routes [OF this] show ?thesis
          by (intro reading [of f vals]) (use H Some fv ro(2) ng in \<open>simp_all add: serve_mux_def\<close>)
      qed
    qed
  qed
qed

lemma origin_cors: "origin (cors_headers s) = Some ''*''"
  by (simp add: cors_headers_def Let_def)


section \<open>Numbers in a query\<close>

lemma TrimSpace_number: "TrimSpace (string_of_int i) = string_of_int i"
proof (rule TrimSpace_plain)
  fix c
  assume "c \<in> set (string_of_int i)"
  then have "c = CHR ''-'' \<or> digit_char c"
    using digit_chars unfolding list_all_iff by (auto simp: string_of_int_def split: if_splits)
  moreover have "\<forall>p\<in>set spaces. hd p \<noteq> CHR ''-'' \<and> last p \<noteq> CHR ''-'' \<and> \<not> digit_char (hd p) \<and> \<not> digit_char (last p)"
    by (simp add: spaces_def digit_char_def less_eq_char_def)
  ultimately show "c \<notin> hd ` set spaces \<and> c \<notin> last ` set spaces" by blast
qed

lemma string_of_int_ne: "string_of_int i \<noteq> ''''"
  by (simp add: string_of_int_def string_of_nat_ne)

lemma fold_position_number:
  "n \<le> m \<Longrightarrow> n < 2 ^ 63 \<Longrightarrow> fold_position (TrimSpace (string_of_int (int n))) m = n"
  by (simp add: fold_position_def TrimSpace_number string_of_int_ne Atoi_string_of_int)

lemma Handler_fold:
  "rq_Method rq = ''GET'' \<Longrightarrow> rq_Path rq = [''fold''] \<Longrightarrow>
   Handler W s rt rq = handleGetFold W [] rt rq (cors_headers s)"
  by (simp add: Handler_def corsMiddleware_def serve_mux_def read_routes_def route_def route_methods_def)

lemma kernel_steps_prefix: "(kernel_step E)\<^sup>*\<^sup>* rt0 rt \<Longrightarrow> \<exists>new. rt_log rt = rt_log rt0 @ new"
proof (induction rule: rtranclp_induct)
  case (step a b)
  with grown_log_prefix [OF grown_kernel_step [OF step.hyps(2)]] show ?case by auto
qed simp

end
