(* ===== verification/ConeSpec.thy ===== *)
theory ConeSpec
  imports HttpSpec
begin

text \<open>
  What the t-cone shows, as sets: the hooks that are open at T and the owners an occupant may see,
  with the lemmas that the maps and loops of tcone.go compute them; and the two evaluations of a
  hook, alone and in a batch, side by side.
\<close>

section \<open>The cone as sets\<close>

definition hook_fires :: "graph_state \<Rightarrow> int \<Rightarrow> urn \<Rightarrow> bool" where
  "hook_fires state T u \<longleftrightarrow> (\<exists>nd p. mget (Nodes state) u = Some nd \<and> n_TypeID nd = ''t_hook'' \<and>
     predicate_of nd = Some p \<and> EvaluateThookPredicate p state T)"

definition hook_owner :: "graph_state \<Rightarrow> urn \<Rightarrow> urn" where
  "hook_owner state u = (case mget (Nodes state) u of
     None \<Rightarrow> '''' | Some nd \<Rightarrow> stringPropValue (mget (n_Properties nd) ''owner_urn''))"

definition open_hooks :: "graph_state \<Rightarrow> int \<Rightarrow> urn \<Rightarrow> urn set" where
  "open_hooks state T owner = {u. hook_fires state T u \<and> hook_owner state u = owner}"

definition shown_owners :: "graph_state \<Rightarrow> bool \<Rightarrow> int \<Rightarrow> urn set" where
  "shown_owners state isAdmin T = {owner. owner \<noteq> '''' \<and> open_hooks state T owner \<noteq> {} \<and>
     (\<exists>nd. mget (Nodes state) owner = Some nd \<and> (isAdmin \<or> n_TypeID nd \<notin> set adminScopeTypes))}"

definition hook_predicate :: "graph_state \<Rightarrow> urn \<Rightarrow> val" where
  "hook_predicate state u =
     (case mget (Nodes state) u of
        None \<Rightarrow> VNil | Some nd \<Rightarrow> (case predicate_of nd of None \<Rightarrow> VNil | Some p \<Rightarrow> p))"

definition hook_firing :: "graph_state \<Rightarrow> urn \<Rightarrow> cone_firing" where
  "hook_firing state u = \<lparr> cf_urn = u, cf_kind = predicate_kind (hook_predicate state u),
     cf_predicate = hook_predicate state u \<rparr>"

text \<open>The entry of one owner: its values and its open hooks in the order of their URNs.\<close>

definition owner_doc :: "graph_state \<Rightarrow> int \<Rightarrow> urn \<Rightarrow> jdoc" where
  "owner_doc state T owner =
     (case mget (Nodes state) owner of
        None \<Rightarrow> JNull
      | Some nd \<Rightarrow> json_object [(''urn'', JStr owner), (''type_id'', JStr (n_TypeID nd)),
          (''properties'', json_of_map (\<lambda>p. json_val (p_Value p)) (n_Properties nd)),
          (''open_t_hooks'', JArr (map (cone_hook \<circ> hook_firing state) (sorted_list_of_set (open_hooks state T owner))))])"

definition cone_view :: "graph_state \<Rightarrow> bool \<Rightarrow> int \<Rightarrow> jdoc list" where
  "cone_view state isAdmin T = map (owner_doc state T) (sorted_list_of_set (shown_owners state isAdmin T))"

section \<open>The loops compute them\<close>

lemma insort_key_map: "insort_key f (g x) (map g xs) = map g (insort_key (f \<circ> g) x xs)"
  by (induction xs) auto

lemma sort_key_map: "sort_key f (map g xs) = map g (sort_key (f \<circ> g) xs)"
  by (induction xs) (simp_all add: insort_key_map comp_def)

lemma sort_distinct: "distinct xs \<Longrightarrow> sort xs = sorted_list_of_set (set xs)"
  by (simp add: sorted_list_of_set_sort_remdups distinct_remdups_id)

lemma filter_sorted_list:
  "finite A \<Longrightarrow> filter P (sorted_list_of_set A) = sorted_list_of_set {x \<in> A. P x}"
  by (intro sorted_distinct_set_unique) (auto intro: sorted_filter [where f = id, simplified])

definition hooks_for :: "graph_state \<Rightarrow> int \<Rightarrow> urn list \<Rightarrow> urn \<Rightarrow> cone_firing list" where
  "hooks_for state T us owner =
     List.map_filter (\<lambda>u. case open_hook state T u of None \<Rightarrow> None | Some (w, f) \<Rightarrow> if w = owner then Some f else None) us"

lemma hooks_for_Cons:
  "hooks_for state T (u # us) owner =
   (case open_hook state T u of None \<Rightarrow> [] | Some (w, f) \<Rightarrow> if w = owner then [f] else []) @ hooks_for state T us owner"
  by (auto simp: hooks_for_def map_filter_simps split: option.splits)

lemma build_cone_get:
  "mget (build_cone state T us cone) owner =
   (if hooks_for state T us owner = [] then mget cone owner
    else Some ((case mget cone owner of None \<Rightarrow> [] | Some fs \<Rightarrow> fs) @ hooks_for state T us owner))"
proof (induction us arbitrary: cone)
  case Nil
  then show ?case by (simp add: hooks_for_def map_filter_simps)
next
  case (Cons u us)
  show ?case by (auto simp: Cons.IH hooks_for_Cons split: option.split prod.split)
qed

lemma build_cone_wf: "wf_map cone \<Longrightarrow> wf_map (build_cone state T us cone)"
  by (induction us arbitrary: cone) (auto split: option.split prod.split)

lemma open_hook_Some:
  assumes good: "good_state state" and "u \<in> set (NodesOfType state ''t_hook'')"
  shows "open_hook state T u = Some (owner, f) \<longleftrightarrow>
    owner \<noteq> '''' \<and> u \<in> open_hooks state T owner \<and> f = hook_firing state u"
proof -
  obtain nd where nd: "mget (Nodes state) u = Some nd" "n_TypeID nd = ''t_hook''" "n_URN nd = u"
    using assms good by (auto simp: good_state_def set_NodesOfType wf_state_def wf_node_def)
  then show ?thesis
    by (auto simp: open_hook_def open_hooks_def hook_fires_def hook_owner_def hook_firing_def hook_predicate_def
        Let_def split: option.split)
qed

lemma hooks_for_set:
  assumes good: "good_state state" and "owner \<noteq> ''''"
  shows "hooks_for state T (NodesOfType state ''t_hook'') owner =
    map (hook_firing state) (filter (\<lambda>u. u \<in> open_hooks state T owner) (NodesOfType state ''t_hook''))"
proof -
  have "hooks_for state T us owner = map (hook_firing state) (filter (\<lambda>u. u \<in> open_hooks state T owner) us)"
    if "set us \<subseteq> set (NodesOfType state ''t_hook'')" for us
    using that
  proof (induction us)
    case Nil
    then show ?case by (simp add: hooks_for_def map_filter_simps)
  next
    case (Cons u us)
    then have u: "u \<in> set (NodesOfType state ''t_hook'')" by simp
    show ?case
    proof (cases "open_hook state T u")
      case None
      with open_hook_Some [OF good u, of T owner "hook_firing state u"] assms Cons show ?thesis
        by (simp add: hooks_for_Cons)
    next
      case (Some wf)
      obtain w f where wf: "wf = (w, f)" by force
      with Some open_hook_Some [OF good u, of T w f] have w: "u \<in> open_hooks state T w" "f = hook_firing state u" by auto
      then have "w = owner \<longleftrightarrow> u \<in> open_hooks state T owner" by (auto simp: open_hooks_def)
      with Some wf w Cons show ?thesis by (simp add: hooks_for_Cons)
    qed
  qed
  then show ?thesis by simp
qed

lemma hooks_for_blank:
  assumes good: "good_state state"
  shows "hooks_for state T (NodesOfType state ''t_hook'') '''' = []"
proof -
  have "hooks_for state T us '''' = []" if "set us \<subseteq> set (NodesOfType state ''t_hook'')" for us
    using that
  proof (induction us)
    case Nil
    then show ?case by (simp add: hooks_for_def map_filter_simps)
  next
    case (Cons u us)
    then show ?case using open_hook_Some [OF good, of u T]
      by (auto simp: hooks_for_Cons split: option.split)
  qed
  then show ?thesis by simp
qed

lemma open_hooks_listed: "good_state state \<Longrightarrow> open_hooks state T owner \<subseteq> set (NodesOfType state ''t_hook'')"
  by (auto simp: open_hooks_def hook_fires_def good_state_def set_NodesOfType)

lemma sorted_hooks:
  assumes good: "good_state state" and owner: "owner \<noteq> ''''"
  shows "sort_key cf_urn (hooks_for state T (NodesOfType state ''t_hook'') owner) =
    map (hook_firing state) (sorted_list_of_set (open_hooks state T owner))"
proof -
  let ?us = "NodesOfType state ''t_hook''"
  have "cf_urn \<circ> hook_firing state = (\<lambda>u. u)" by (auto simp: hook_firing_def)
  then have "sort_key cf_urn (hooks_for state T ?us owner) =
      map (hook_firing state) (sort (filter (\<lambda>u. u \<in> open_hooks state T owner) ?us))"
    by (simp add: hooks_for_set [OF good owner] sort_key_map)
  moreover have "distinct ?us" using good by (simp add: good_state_def distinct_accessors)
  moreover have "set (filter (\<lambda>u. u \<in> open_hooks state T owner) ?us) = open_hooks state T owner"
    using open_hooks_listed [OF good] by auto
  ultimately show ?thesis by (simp add: sort_distinct del: set_filter)
qed

lemma cone_nodes_view:
  assumes good: "good_state state"
  shows "cone_nodes state isAdmin (build_cone state T (NodesOfType state ''t_hook'') []) = cone_view state isAdmin T"
proof -
  let ?cone = "build_cone state T (NodesOfType state ''t_hook'') []"
  have get: "mget ?cone owner = (if owner = '''' \<or> open_hooks state T owner = {} then None
      else Some (hooks_for state T (NodesOfType state ''t_hook'') owner))" for owner
    using open_hooks_listed [OF good, of T owner]
    by (cases "owner = ''''") (auto simp: build_cone_get hooks_for_blank [OF good] hooks_for_set [OF good] filter_empty_conv)
  have wf: "wf_map ?cone" by (simp add: build_cone_wf)
  let ?keys = "{owner. owner \<noteq> '''' \<and> open_hooks state T owner \<noteq> {}}"
  have keys: "set (mkeys ?cone) = ?keys"
  proof -
    have "set (mkeys m) = {k. mget m k \<noteq> None}" for m :: "(urn, cone_firing list) gomap"
      by (simp add: map_of_eq_None_iff)
    then have mk: "set (mkeys ?cone) = {k. mget ?cone k \<noteq> None}" .
    show ?thesis unfolding mk get by auto
  qed
  have fin: "finite ?keys" unfolding keys [symmetric] by (rule finite_set)
  have sorted: "sort (mkeys ?cone) = sorted_list_of_set ?keys"
    using wf keys by (simp add: wf_map_def sort_distinct del: set_map)
  have node: "cone_node state isAdmin ?cone owner =
      (if owner \<in> shown_owners state isAdmin T then Some (owner_doc state T owner) else None)" if "owner \<in> ?keys" for owner
    using that sorted_hooks [OF good, of owner T]
    by (auto simp: cone_node_def get shown_owners_def owner_doc_def Let_def split: option.split)
  have "List.map_filter (cone_node state isAdmin ?cone) us =
      map (owner_doc state T) (filter (\<lambda>owner. owner \<in> shown_owners state isAdmin T) us)" if "set us \<subseteq> ?keys" for us
    using that by (induction us) (auto simp: map_filter_simps node)
  then have "cone_nodes state isAdmin ?cone =
      map (owner_doc state T) (filter (\<lambda>owner. owner \<in> shown_owners state isAdmin T) (sorted_list_of_set ?keys))"
    using fin by (simp add: cone_nodes_def sorted)
  also have "filter (\<lambda>owner. owner \<in> shown_owners state isAdmin T) (sorted_list_of_set ?keys) =
      sorted_list_of_set {owner \<in> ?keys. owner \<in> shown_owners state isAdmin T}"
    by (rule filter_sorted_list [OF fin])
  also have "{owner \<in> ?keys. owner \<in> shown_owners state isAdmin T} = shown_owners state isAdmin T"
    unfolding shown_owners_def by blast
  finally show ?thesis by (simp add: cone_view_def)
qed


section \<open>One hook and many\<close>

definition doc_field :: "jdoc \<Rightarrow> string \<Rightarrow> jdoc option" where
  "doc_field d k = (case d of JObj kvs \<Rightarrow> mget kvs k | _ \<Rightarrow> None)"

lemma doc_field_object: "wf_map kvs \<Longrightarrow> doc_field (json_object kvs) k = mget kvs k"
proof -
  assume wf: "wf_map kvs"
  have "mget (sort_key fst kvs) k = Some v \<longleftrightarrow> mget kvs k = Some v" for v
    using wf by (simp flip: mem_mget)
  then have "mget (sort_key fst kvs) k = mget kvs k" by (metis not_Some_eq)
  then show ?thesis by (simp add: doc_field_def json_object_def)
qed

lemma batch_entry_error:
  "doc_field (batch_entry state T u) ''error'' = None \<longleftrightarrow>
   (\<exists>nd p. mget (Nodes state) u = Some nd \<and> n_TypeID nd = ''t_hook'' \<and> predicate_of nd = Some p \<and>
      batch_entry state T u = json_object ([(''urn'', JStr u), (''at_t'', json_int T)] @ hook_fields state nd p T))"
  by (auto simp: batch_entry_def Let_def doc_field_object wf_map_def hook_fields_def split: option.splits)

text \<open>The request for one hook at T.\<close>

definition hook_request :: "urn \<Rightarrow> int \<Rightarrow> request" where
  "hook_request u T = \<lparr> rq_Method = ''GET'', rq_Path = [''t-hook'', ''evaluate'', u],
     rq_Query = [(''at'', string_of_int T)], rq_Auth = '''', rq_Body = '''' \<rparr>"

lemma Handler_hook:
  "u \<noteq> '''' \<Longrightarrow> Handler W s rt (hook_request u T) = handleGetTHookEvaluate W [u] rt (hook_request u T) (cors_headers s)"
  by (simp add: Handler_def corsMiddleware_def serve_mux_def read_routes_def hdc_route_def route_def
      route_methods_def hook_request_def)

lemma Handler_batch:
  "rq_Method rq = ''POST'' \<Longrightarrow> rq_Path rq = [''t-hook'', ''evaluate''] \<Longrightarrow>
   Handler W s rt rq = handleBatchTHookEvaluate W [] rt rq (cors_headers s)"
  by (simp add: Handler_def corsMiddleware_def serve_mux_def read_routes_def hdc_route_def route_def
      route_methods_def)

lemma Handler_tcone:
  "rq_Method rq = ''GET'' \<Longrightarrow> rq_Path rq = [''t-cone''] \<Longrightarrow>
   Handler W s rt rq = handleGetTCone W [] rt rq (cors_headers s)"
  by (simp add: Handler_def corsMiddleware_def serve_mux_def read_routes_def hdc_route_def route_def
      route_methods_def)

lemma at_param_number:
  assumes "- (2 ^ 63) \<le> T" "T < 2 ^ 63" "query rq ''at'' = string_of_int T"
  shows "snd (at_param W rt rq) = Inr T"
  using assms by (simp add: at_param_def TrimSpace_number string_of_int_ne Atoi_string_of_int split: prod.split)

lemma state_at_param: "rt_state (fst (at_param W rt rq)) = rt_state rt"
proof -
  obtain rt1 q where "at_param W rt rq = (rt1, q)" by force
  from same_kernel_at [OF this] this show ?thesis by (simp add: same_kernel_def)
qed

lemma hook_response:
  assumes "- (2 ^ 63) \<le> T" "T < 2 ^ 63" "u \<noteq> ''''"
  shows "(rs_Status (snd (Handler W s rt (hook_request u T))) = 200 \<longleftrightarrow>
      doc_field (batch_entry (State rt) T u) ''error'' = None) \<and>
    (rs_Status (snd (Handler W s rt (hook_request u T))) = 200 \<longrightarrow>
      rs_Body (snd (Handler W s rt (hook_request u T))) = Doc (batch_entry (State rt) T u))"
proof -
  obtain rt1 q where a: "at_param W rt (hook_request u T) = (rt1, q)" by force
  have q: "q = Inr T" using at_param_number [OF assms(1,2), of "hook_request u T" W rt] a
    by (simp add: query_def hook_request_def)
  have st: "rt_state rt1 = rt_state rt" using state_at_param [of W rt "hook_request u T"] a by simp
  show ?thesis
    unfolding batch_entry_error
    by (auto simp: Handler_hook [OF assms(3)] handleGetTHookEvaluate_def Let_def path_value_def Node_def a q st
        State_def writeJSON_def respond_json_def batch_entry_def split: option.splits)
qed

end
