(* ===== verification/HttpProperties.thy ===== *)
theory HttpProperties
  imports ConeSpec
begin

text \<open>
  The properties of internal/transport: who may write, which answers a page of another origin may
  read, what /fold, its stream, the t-cone, the batch evaluation and the twin protocol promise.
\<close>

section \<open>A server for the examples\<close>

definition ex_server :: "string \<Rightarrow> server" where
  "ex_server token = \<lparr> sv_registry = None, sv_altSvc = '''', sv_llmProxy = False, sv_authToken = token,
     sv_llmToken = '''' \<rparr>"

text \<open>A decoder that knows one body.\<close>

definition ex_web :: "jdoc \<Rightarrow> persisted_rewrite list web" where
  "ex_web d = \<lparr> w_kenv = ex_kenv, w_json = (\<lambda>text. if text = ''doc'' then Value d else Malformed),
     w_hdc = (\<lambda>_ _ _. (200, NoBody)), w_llm = (\<lambda>_. (200, ''text/plain'', NoBody)) \<rparr>"

definition ex_post :: "string list \<Rightarrow> string \<Rightarrow> request" where
  "ex_post path auth = \<lparr> rq_Method = ''POST'', rq_Path = path, rq_Query = [], rq_Auth = auth, rq_Body = ''doc'' \<rparr>"

definition ex_get :: "string list \<Rightarrow> (string \<times> string) list \<Rightarrow> request" where
  "ex_get path q = \<lparr> rq_Method = ''GET'', rq_Path = path, rq_Query = q, rq_Auth = '''', rq_Body = '''' \<rparr>"

lemma w_kenv_ex [simp]: "w_kenv (ex_web d) = ex_kenv"
  by (simp add: ex_web_def)

abbreviation ex_kernel :: "persisted_rewrite list runtime" where
  "ex_kernel \<equiv> ex_rt ex_ab_envs None"

section \<open>Who may write\<close>

lemma Handler_writes:
  assumes "Handler W s rt rq = (rt', r)" "State rt' \<noteq> State rt \<or> Log rt' \<noteq> Log rt"
  shows "rq_Method rq = ''POST'' \<and> rq_Path rq \<in> {[''rewrites''], [''programs''], [''twin'', ''ingest'']} \<and>
    (sv_authToken s = '''' \<or> validBearer (rq_Auth rq) (sv_authToken s)) \<and> rs_Status r = 200"
proof (cases rule: Handler_cases [of rq W s rt])
  case (writing f vals)
  then have path: "rq_Method rq = ''POST''" "rq_Path rq \<in> write_paths" by (simp_all add: gated_request_def)
  show ?thesis
  proof (cases rule: writeGate_cases [of s rq f vals rt "cors_headers s"])
    case refused
    with writing(5) assms show ?thesis by simp
  next
    case passed
    then have "f vals rt rq (mdel ''Access-Control-Allow-Origin'' (cors_headers s)) = (rt', r)"
      using writing(5) assms(1) by simp
    with writing(3) have "rs_Status r \<noteq> 200 \<longrightarrow> rt_state rt' = rt_state rt \<and> rt_log rt' = rt_log rt"
      unfolding commits_loudly_def by (metis fst_conv snd_conv)
    then show ?thesis using assms(2) passed(1) path by (auto simp: State_def Log_def write_paths_def)
  qed
next
  case (reading f vals)
  then have "same_kernel rt rt'" using assms(1) unfolding read_only_def by (metis fst_conv)
  with assms(2) show ?thesis by (simp add: same_kernel_def State_def Log_def)
next
  case (proxied vals)
  then have "same_kernel rt rt'"
    using assms(1) proxy_reads(1) [of W] unfolding llmGate_def read_only_def Let_def
    by (metis fst_conv same_kernel_refl)
  with assms(2) show ?thesis by (simp add: same_kernel_def State_def Log_def)
qed (use assms in simp_all)

text \<open>C14: if a request changes the state or the log of the kernel, it is a POST to one of the three
  writing routes, it carries the server's write token when one is configured, and it is answered
  200. The token of the LLM routes opens none of them.\<close>

theorem writes_need_bearer:
  assumes "Handler W s rt rq = (rt', r)" "State rt' \<noteq> State rt \<or> Log rt' \<noteq> Log rt"
  shows "rq_Method rq = ''POST'' \<and> rq_Path rq \<in> {[''rewrites''], [''programs''], [''twin'', ''ingest'']} \<and>
    (sv_authToken s = '''' \<or> validBearer (rq_Auth rq) (sv_authToken s)) \<and> rs_Status r = 200"
  using assms by (rule Handler_writes)

text \<open>With the token "key" the same rewrite lands with the header "bearer key" and not with "bearer door".\<close>

theorem writes_need_bearer_witness:
  "\<exists>rt' r. Handler (ex_web (json_envelope (ex_unlink ''r''))) (ex_server ''key'') ex_kernel
       (ex_post [''rewrites''] ''bearer key'') = (rt', r) \<and> Log rt' \<noteq> Log ex_kernel \<and>
     validBearer ''bearer key'' ''key'' \<and> rs_Status r = 200 \<and>
     rs_Status (snd (Handler (ex_web (json_envelope (ex_unlink ''r''))) (ex_server ''key'') ex_kernel
       (ex_post [''rewrites''] ''bearer door''))) = 401"
proof -
  let ?W = "ex_web (json_envelope (ex_unlink ''r''))"
  let ?H = "Handler ?W (ex_server ''key'') ex_kernel"
  have "length (rt_log (fst (?H (ex_post [''rewrites''] ''bearer key'')))) = 4" "length (rt_log ex_kernel) = 3"
    by code_simp+
  then have "Log (fst (?H (ex_post [''rewrites''] ''bearer key''))) \<noteq> Log ex_kernel" by (auto simp: Log_def)
  moreover from writes_need_bearer [OF prod.collapse [symmetric] disjI2 [OF this]]
  have "validBearer ''bearer key'' ''key''" "rs_Status (snd (?H (ex_post [''rewrites''] ''bearer key''))) = 200"
    by (simp_all add: ex_server_def ex_post_def)
  moreover have "rs_Status (snd (?H (ex_post [''rewrites''] ''bearer door''))) = 401" by code_simp
  ultimately show ?thesis by (metis prod.collapse)
qed

text \<open>The answer carries the header that lets a page of any origin read it exactly when the request
  is no POST to a gated route. A preflight is no such POST: the preflight of a writing route allows
  every origin, its method and its Authorization header.\<close>

theorem readable_by_any_origin:
  "mget (rs_Headers (snd (Handler W s rt rq))) ''Access-Control-Allow-Origin'' =
     (if gated_request s rq then None else Some ''*'')"
proof (cases rule: Handler_cases [of rq W s rt])
  case preflight
  then show ?thesis by (simp add: gated_request_def origin_cors)
next
  case (reading f vals)
  then show ?thesis by (simp add: keeps_origin_def origin_cors)
next
  case (writing f vals)
  then show ?thesis by (simp add: writeGate_origin)
next
  case (proxied vals)
  then show ?thesis by (simp add: llmGate_origin proxy_reads)
next
  case (missing r)
  then show ?thesis by (simp add: origin_cors)
qed


section \<open>The fold over time\<close>

text \<open>C17: GET /fold?to=n travels in time. If the log of a kernel once had n entries, then at any later
  moment, whatever was committed in between, the answer is the graph as it was at that moment.\<close>

theorem fold_time_travel:
  assumes "reachable (w_kenv W) rt0" "(kernel_step (w_kenv W))\<^sup>*\<^sup>* rt0 rt" "length (Log rt0) < 2 ^ 63"
    and "rq_Method rq = ''GET''" "rq_Path rq = [''fold'']"
    and "query rq ''to'' = string_of_int (int (length (Log rt0)))"
  shows "\<exists>r. Handler W s rt rq = (rt, r) \<and> rs_Status r = 200 \<and>
    rs_Body r = Doc (json_object ([(''t'', json_nat (length (Log rt0))), (''log_len'', json_nat (length (Log rt)))] @
      graph_fields W (State rt0)))"
proof -
  have "\<exists>new. rt_log rt = rt_log rt0 @ new" by (rule kernel_steps_prefix [OF assms(2)])
  then have prefix: "take (length (Log rt0)) (Log rt) = Log rt0" "length (Log rt0) \<le> length (Log rt)"
    by (auto simp: Log_def)
  have "Replay (Log rt0) = (State rt0, None)"
    using well_formed.inv_reachable [OF assms(1)] by (simp add: rt_ok_def Log_def State_def)
  moreover have "fold_position (TrimSpace (query rq ''to'')) (length (Log rt)) = length (Log rt0)"
    using assms(3,6) prefix(2) by (simp add: fold_position_number)
  ultimately show ?thesis
    using assms(4,5) prefix(1)
    by (simp add: Handler_fold handleGetFold_def Let_def respond_json_def writeJSON_def)
qed

text \<open>The second entry of the example's log added the second node; before it there was one.\<close>

theorem fold_time_travel_witness:
  "\<exists>r. Handler (ex_web JNull) (ex_server '''') (fst (Apply ex_kenv ex_kernel (ex_unlink ''r'')))
       (ex_get [''fold''] [(''to'', ''3'')]) = (fst (Apply ex_kenv ex_kernel (ex_unlink ''r'')), r) \<and>
     rs_Body r = Doc (json_object ([(''t'', json_nat 3), (''log_len'', json_nat 4)] @
       graph_fields (ex_web JNull) (State ex_kernel)))"
proof -
  let ?rt = "fst (Apply ex_kenv ex_kernel (ex_unlink ''r''))"
  have len: "length (Log ex_kernel) = 3" "length (Log ?rt) = 4" by code_simp+
  have steps: "(kernel_step (w_kenv (ex_web JNull)))\<^sup>*\<^sup>* ex_kernel ?rt"
    using Apply_is_step [of ex_kenv ex_kernel "ex_unlink ''r''"] by auto
  have "string_of_int (int (length (Log ex_kernel))) = ''3''" unfolding len by code_simp
  then have q: "query (ex_get [''fold''] [(''to'', ''3'')]) ''to'' = string_of_int (int (length (Log ex_kernel)))"
    by (simp add: query_def ex_get_def)
  have "reachable (w_kenv (ex_web JNull)) ex_kernel" by (simp add: reachable_ex)
  from fold_time_travel [OF this steps _ _ _ q, of "ex_server ''''"] len show ?thesis
    by (simp add: ex_get_def) blast
qed






section \<open>The t-cone and the hooks\<close>

text \<open>C16: the t-cone is exact. For a session with a live seat and an occupant it lists, in URN order,
  precisely the nodes that own a hook open at T and that the occupant may see, each with precisely its
  open hooks; a node of an admin-scope type is shown only to an occupant with the superadmin
  capability, whatever hooks it owns.\<close>

theorem t_cone_exact:
  assumes "reachable (w_kenv W) rt" "rq_Method rq = ''GET''" "rq_Path rq = [''t-cone'']"
    and "TrimSpace (query rq ''session'') = sess" "sess \<noteq> ''''"
    and "query rq ''at'' = string_of_int T" "- (2 ^ 63) \<le> T" "T < 2 ^ 63"
    and "Node rt sess = Some nd" "n_TypeID nd = ''session''" "seat_role nd \<in> {''occupier'', ''delegate''}"
    and "ResolveSessionOccupant (State rt) sess = Some occupant"
  shows "\<exists>rt' r. Handler W s rt rq = (rt', r) \<and> rs_Status r = 200 \<and>
    rs_Body r = Doc (cone_doc T sess (Some occupant)
      (map (owner_doc (State rt) T)
        (sorted_list_of_set (shown_owners (State rt) (CheckAdminCapability (State rt) occupant) T))))"
proof -
  obtain rt1 q where a: "at_param W rt rq = (rt1, q)" by force
  have q: "q = Inr T" using at_param_number [OF assms(7,8,6), of W rt] a by simp
  have st: "rt_state rt1 = rt_state rt" using state_at_param [of W rt rq] a by simp
  have "good_state (rt_state rt)" using well_formed.inv_reachable [OF assms(1)] by simp
  note view = cone_nodes_view [OF this, unfolded cone_view_def]
  show ?thesis
    using assms(4,5,9-12) view
    by (auto simp: Handler_tcone [OF assms(2,3)] handleGetTCone_def Let_def a q st Node_def State_def
        writeJSON_def respond_json_def)
qed

text \<open>A session s seated by u, with a hook on a task and one on a role: u is no admin.\<close>

definition ex_hook :: "urn \<Rightarrow> urn \<Rightarrow> envelope" where
  "ex_hook u owner = ex_add u ''t_hook'' [(''owner_urn'', ex_prop (VStr owner) ''immutable''),
     (''predicate'', ex_prop (VObj [(''kind'', VStr ''fires_at''), (''t'', VInt 5)]) ''immutable'')]"

abbreviation ex_cone_envs :: "envelope list" where
  "ex_cone_envs \<equiv> [ex_add ''s'' ''session'' [(''seat_role'', ex_prop (VStr ''occupier'') ''mutable'')],
     ex_add ''u'' ''user'' [], ex_link ''occ'' ''WF19'' ''s'' ''has-occupant'' ''u'' ''is-occupant-of'',
     ex_add ''job'' ''task'' [], ex_add ''boss'' ''role'' [], ex_hook ''h1'' ''job'', ex_hook ''h2'' ''boss'']"

lemma reachable_cone: "reachable ex_kenv (ex_rt ex_cone_envs None)"
proof (rule reachable.boot [OF ex_rt_boot])
  show "snd (Replay (map ex_entry ex_cone_envs)) = None" by code_simp
qed

definition ex_cone_request :: request where
  "ex_cone_request = ex_get [''t-cone''] [(''session'', ''s''), (''at'', ''7'')]"

theorem t_cone_exact_witness:
  "\<exists>rt' r. Handler (ex_web JNull) (ex_server '''') (ex_rt ex_cone_envs None) ex_cone_request = (rt', r) \<and>
     rs_Body r = Doc (cone_doc 7 ''s'' (Some ''u'') [owner_doc (State (ex_rt ex_cone_envs None)) 7 ''job''])"
proof -
  let ?rt = "ex_rt ex_cone_envs None"
  let ?st = "State ?rt"
  have occ: "ResolveSessionOccupant ?st ''s'' = Some ''u''" "\<not> CheckAdminCapability ?st ''u''" by code_simp+
  have "case Node ?rt ''s'' of None \<Rightarrow> False | Some nd \<Rightarrow> n_TypeID nd = ''session'' \<and> seat_role nd = ''occupier''"
    by code_simp
  then obtain nd where nd: "Node ?rt ''s'' = Some nd" "n_TypeID nd = ''session''" "seat_role nd \<in> {''occupier'', ''delegate''}"
    by (auto split: option.splits)
  have num: "string_of_int 7 = ''7''" by code_simp
  have trim: "TrimSpace ''s'' = ''s''" by (rule TrimSpace_plain) (simp add: spaces_def)
  have types: "map_option n_TypeID (mget (Nodes ?st) ''job'') = Some ''task''"
    "map_option n_TypeID (mget (Nodes ?st) ''boss'') = Some ''role''" by code_simp+
  have hooks: "u \<in> {''h1'', ''h2''} \<longleftrightarrow> u \<in> set (NodesOfType ?st ''t_hook'')" for u
  proof -
    have "NodesOfType ?st ''t_hook'' = [''h2'', ''h1''] \<or> NodesOfType ?st ''t_hook'' = [''h1'', ''h2'']" by code_simp
    then show ?thesis by auto
  qed
  have "list_all (\<lambda>u. open_hook ?st 7 u = Some (if u = ''h1'' then ''job'' else ''boss'', hook_firing ?st u)) [''h1'', ''h2'']"
    by code_simp
  then have opens: "\<forall>u\<in>{''h1'', ''h2''}. open_hook ?st 7 u = Some (if u = ''h1'' then ''job'' else ''boss'', hook_firing ?st u)"
    by simp
  have good: "good_state ?st" using well_formed.inv_reachable [OF reachable_cone] by (simp add: State_def)
  have sets: "open_hooks ?st 7 owner = {u \<in> {''h1'', ''h2''}. (if u = ''h1'' then ''job'' else ''boss'') = owner}"
    if "owner \<noteq> ''''" for owner
  proof (rule set_eqI)
    fix u
    show "u \<in> open_hooks ?st 7 owner \<longleftrightarrow> u \<in> {u \<in> {''h1'', ''h2''}. (if u = ''h1'' then ''job'' else ''boss'') = owner}"
      using opens hooks [of u] that open_hook_Some [OF good, of u 7 owner "hook_firing ?st u"]
        open_hooks_listed [OF good, of 7 owner] by auto
  qed
  have "shown_owners ?st False 7 = {''job''}"
    using types unfolding shown_owners_def adminScopeTypes_def
    by (auto simp: sets split: if_splits)
  with occ have "sorted_list_of_set (shown_owners ?st (CheckAdminCapability ?st ''u'') 7) = [''job'']" by simp
  with t_cone_exact [where W = "ex_web JNull" and rt = ?rt and rq = ex_cone_request and s = "ex_server ''''" and T = 7,
      OF _ _ _ _ _ _ _ _ nd occ(1)] reachable_cone num trim
  have "\<exists>rt' r. Handler (ex_web JNull) (ex_server '''') ?rt ex_cone_request = (rt', r) \<and> rs_Status r = 200 \<and>
     rs_Body r = Doc (cone_doc 7 ''s'' (Some ''u'') [owner_doc ?st 7 ''job''])"
    by (simp add: ex_cone_request_def ex_get_def query_def)
  then show ?thesis by blast
qed

text \<open>Evaluating a batch of hooks is evaluating each alone. The answer has one entry per URN, in the
  order of the request; the entry is the document GET /t-hook/evaluate gives for that URN at the same
  T, or carries an error exactly when that request is refused.\<close>

theorem batch_agrees_with_single:
  assumes "rq_Method rq = ''POST''" "rq_Path rq = [''t-hook'', ''evaluate'']"
    and "read_batch W (rq_Body rq) = Inr \<lparr> br_URNs = Some urns, br_At = Some T \<rparr>" "- (2 ^ 63) \<le> T" "T < 2 ^ 63"
  shows "\<exists>rt' r docs. Handler W s rt rq = (rt', r) \<and> rs_Status r = 200 \<and> rs_Body r = Doc (JArr docs) \<and>
    length docs = length urns \<and>
    (\<forall>i<length urns. urns ! i \<noteq> '''' \<longrightarrow>
       (let one = snd (Handler W s rt (hook_request (urns ! i) T))
        in (rs_Status one = 200 \<longleftrightarrow> doc_field (docs ! i) ''error'' = None) \<and>
           (rs_Status one = 200 \<longrightarrow> rs_Body one = Doc (docs ! i))))"
proof -
  obtain t rt1 where c: "currentTDay W rt = (t, rt1)" by force
  have st: "rt_state rt1 = rt_state rt" using same_kernel_tday [OF c] by (simp add: same_kernel_def)
  have "\<exists>r. Handler W s rt rq = (rt1, r) \<and> rs_Status r = 200 \<and>
      rs_Body r = Doc (JArr (map (batch_entry (State rt) T) urns))"
    using assms(3) st
    by (auto simp: Handler_batch [OF assms(1,2)] handleBatchTHookEvaluate_def c Let_def State_def
        writeJSON_def respond_json_def)
  then show ?thesis using hook_response [OF assms(4,5), of _ W s rt] by (auto simp: Let_def)
qed

definition ex_batch :: jdoc where
  "ex_batch = JObj [(''urns'', JArr [JStr ''h1'', JStr ''job'', JStr ''nobody'']), (''at'', JNum 7 0)]"

theorem batch_agrees_with_single_witness:
  "\<exists>rt' r docs. Handler (ex_web ex_batch) (ex_server '''') (ex_rt ex_cone_envs None) (ex_post [''t-hook'', ''evaluate''] '''') = (rt', r) \<and>
     rs_Body r = Doc (JArr docs) \<and> length docs = 3 \<and> doc_field (docs ! 1) ''error'' \<noteq> None \<and>
     rs_Body (snd (Handler (ex_web ex_batch) (ex_server '''') (ex_rt ex_cone_envs None) (hook_request ''h1'' 7))) = Doc (docs ! 0)"
proof -
  let ?W = "ex_web ex_batch" let ?rt = "ex_rt ex_cone_envs None" let ?rq = "ex_post [''t-hook'', ''evaluate''] ''''"
  have "dec_batch_request ex_batch \<lparr> br_URNs = None, br_At = None \<rparr> =
      Inr \<lparr> br_URNs = Some [''h1'', ''job'', ''nobody''], br_At = Some 7 \<rparr>"
    by code_simp
  then have b: "read_batch ?W (rq_Body ?rq) = Inr \<lparr> br_URNs = Some [''h1'', ''job'', ''nobody''], br_At = Some 7 \<rparr>"
    by (simp add: read_batch_def ex_web_def ex_post_def batchEvaluateMaxBodyBytes_def)
  have st: "rs_Status (snd (Handler ?W (ex_server '''') ?rt (hook_request ''h1'' 7))) = 200"
    "rs_Status (snd (Handler ?W (ex_server '''') ?rt (hook_request ''job'' 7))) = 400" by code_simp+
  obtain rt' r docs where d: "Handler ?W (ex_server '''') ?rt ?rq = (rt', r)" "rs_Body r = Doc (JArr docs)" "length docs = 3"
    and one: "\<forall>i<3. [''h1'', ''job'', ''nobody''] ! i \<noteq> '''' \<longrightarrow>
       (let one = snd (Handler ?W (ex_server '''') ?rt (hook_request ([''h1'', ''job'', ''nobody''] ! i) 7))
        in (rs_Status one = 200 \<longleftrightarrow> doc_field (docs ! i) ''error'' = None) \<and>
           (rs_Status one = 200 \<longrightarrow> rs_Body one = Doc (docs ! i)))"
    using batch_agrees_with_single [OF _ _ b, of "ex_server ''''" ?rt] by (auto simp: ex_post_def numeral_3_eq_3)
  have "rs_Body (snd (Handler ?W (ex_server '''') ?rt (hook_request ''h1'' 7))) = Doc (docs ! 0)"
    using one [rule_format, of 0] st by (simp add: Let_def)
  moreover have "doc_field (docs ! 1) ''error'' \<noteq> None"
    using one [rule_format, of 1] st by (simp add: Let_def)
  ultimately show ?thesis using d by blast
qed


section \<open>Twins\<close>

text \<open>C18: what a kernel forwards to a twin is what the twin applies. If the twin has no write token, its
  /twin/ingest decodes a forwarded request to the envelope of the log entry, with numbers and key order
  made canonical, and answers with the outcome of applying it as a program of one.\<close>

theorem twin_applies_forward:
  assumes "(endpoint, rq) \<in> set (forwardToEagerTwins print rt pr)" "wf_envelope (pr_Envelope pr)"
    and "w_json W (print (twin_document (pr_Envelope pr))) = Value (twin_document (pr_Envelope pr))"
    and "sv_authToken s = ''''"
  shows "case ApplyProgram (w_kenv W) peer [canon_envelope (pr_Envelope pr)] of
      (peer', Inl err) \<Rightarrow> \<exists>r. Handler W s peer rq = (peer', r) \<and> rs_Status r = 422 \<and> rs_Body r = Failed (Rejected err)
    | (peer', Inr results) \<Rightarrow> \<exists>r. Handler W s peer rq = (peer', r) \<and> rs_Status r = 200 \<and>
        rs_Body r = Doc (JArr (map json_eval_result results))"
proof -
  have rq: "rq = twinPost print (pr_Envelope pr)" using assms(1) by (auto simp: forwardToEagerTwins_def)
  have "decode_body W dec_envelopes None (rq_Body rq) = Inr (Some [canon_envelope (pr_Envelope pr)])"
    using assms(3) dec_envelope_json [OF assms(2)]
    by (simp add: decode_body_def rq twinPost_def twin_document_def dec_envelopes_def)
  moreover have "Handler W s peer rq = handleTwinIngest W [] peer rq (mdel ''Access-Control-Allow-Origin'' (cors_headers s))"
    using assms(4)
    by (simp add: rq Handler_def corsMiddleware_def serve_mux_def read_routes_def gated_routes_def hdc_route_def
        route_def route_methods_def twinPost_def writeGate_def Let_def)
  ultimately show ?thesis
    by (auto simp: handleTwinIngest_def writeJSON_def writeError_def respond_json_def split: prod.split sum.split)
qed

text \<open>C19: a twin with a write token refuses every forward. The forwarding kernel sends no Authorization
  header, so the gate of /twin/ingest answers 401 and the twin stays as it was: two kernels cannot
  sync once the receiving one is protected.\<close>

theorem protected_twin_never_syncs:
  assumes "(endpoint, rq) \<in> set (forwardToEagerTwins print rt pr)" "sv_authToken s \<noteq> ''''"
  shows "\<exists>r. Handler W s peer rq = (peer, r) \<and> rs_Status r = 401"
proof -
  have rq: "rq = twinPost print (pr_Envelope pr)" using assms(1) by (auto simp: forwardToEagerTwins_def)
  have "\<not> validBearer (rq_Auth rq) (sv_authToken s)" by (simp add: rq twinPost_def validBearer_def)
  then show ?thesis using assms(2)
    by (simp add: rq Handler_def corsMiddleware_def serve_mux_def read_routes_def gated_routes_def hdc_route_def
        route_def route_methods_def twinPost_def writeGate_def Let_def)
qed

text \<open>A kernel with one eager twin, and a printer that knows one document.\<close>

definition ex_twin :: "persisted_rewrite list runtime" where
  "ex_twin = ex_rt [ex_add ''tw'' ''twin_link'' [(''sync_mode'', ex_prop (VStr ''eager'') ''mutable''),
     (''status'', ex_prop (VStr ''active'') ''mutable''),
     (''remote_endpoint'', ex_prop (VStr ''http://peer'') ''mutable'')]] None"

lemma ex_twin_forward:
  "(''http://peer'', twinPost (\<lambda>_. ''doc'') (pr_Envelope pr)) \<in> set (forwardToEagerTwins (\<lambda>_. ''doc'') ex_twin pr)"
proof -
  have "map (\<lambda>nd. twinPropStr nd ''remote_endpoint'') (filter eager_twin (rt_Nodes ex_twin)) = [''http://peer'']"
    by code_simp
  then have "''http://peer'' \<in> (\<lambda>nd. twinPropStr nd ''remote_endpoint'') ` set (filter eager_twin (rt_Nodes ex_twin))"
    by (metis list.set_intros(1) list.set_map)
  then show ?thesis by (auto simp: forwardToEagerTwins_def)
qed

lemma wf_ex_unlink: "wf_envelope (ex_unlink u)" "canon_envelope (ex_unlink u) = ex_unlink u"
  by (simp_all add: wf_envelope_def canon_envelope_def ex_unlink_def zero_envelope_def wf_properties_def
      rewrite_type_of_def)

theorem twin_applies_forward_witness:
  "\<exists>peer' r. Handler (ex_web (twin_document (ex_unlink ''r''))) (ex_server '''') ex_kernel
       (twinPost (\<lambda>_. ''doc'') (ex_unlink ''r'')) = (peer', r) \<and> rs_Status r = 200 \<and>
     mget (Relations (State peer')) ''r'' = None"
proof -
  let ?W = "ex_web (twin_document (ex_unlink ''r''))"
  let ?res = "ApplyProgram ex_kenv ex_kernel [ex_unlink ''r'']"
  have "case ?res of (_, Inl _) \<Rightarrow> False | (peer', Inr _) \<Rightarrow> Option.is_none (mget (Relations (rt_state peer')) ''r'')"
    by code_simp
  then obtain peer' results where a: "?res = (peer', Inr results)" "mget (Relations (rt_state peer')) ''r'' = None"
    by (auto simp: Option.is_none_def split: prod.splits sum.splits)
  have "pr_Envelope (ex_entry (ex_unlink ''r'')) = ex_unlink ''r''" by (simp add: ex_entry_def)
  moreover have "w_json ?W ''doc'' = Value (twin_document (ex_unlink ''r''))" by (simp add: ex_web_def)
  ultimately show ?thesis
    using twin_applies_forward [OF ex_twin_forward, of "ex_entry (ex_unlink ''r'')" ?W "ex_server ''''" ex_kernel] a
    by (auto simp: wf_ex_unlink ex_server_def State_def)
qed

theorem protected_twin_never_syncs_witness:
  "rs_Status (snd (Handler (ex_web (twin_document (ex_unlink ''r''))) (ex_server ''key'') ex_kernel
     (twinPost (\<lambda>_. ''doc'') (ex_unlink ''r'')))) = 401"
proof -
  have env: "pr_Envelope (ex_entry (ex_unlink ''r'')) = ex_unlink ''r''" by (simp add: ex_entry_def)
  have key: "sv_authToken (ex_server ''key'') \<noteq> ''''" by (simp add: ex_server_def)
  obtain r where "Handler (ex_web (twin_document (ex_unlink ''r''))) (ex_server ''key'') ex_kernel
     (twinPost (\<lambda>_. ''doc'') (ex_unlink ''r'')) = (ex_kernel, r)" "rs_Status r = 401"
    using protected_twin_never_syncs [OF ex_twin_forward [of "ex_entry (ex_unlink ''r'')", unfolded env] key] by blast
  then show ?thesis by simp
qed

end
