(* ===== verification/LlmProxy.thy ===== *)
theory LlmProxy
  imports Routes
begin

text \<open>
  internal/transport/llmproxy.go: the proxy that forwards chat requests to an external service with a
  key read from a secret manager. What is outside, the gcloud command and the service, is a record of
  functions on a world \<open>'w\<close>; the text of a request body is parsed and printed by \<open>ou_parse\<close> and \<open>ou_print\<close>.
\<close>

record command_result =
  cr_Failed :: bool
  cr_Stdout :: string
  cr_Stderr :: string

record upstream_reply =
  ur_Status :: nat
  ur_ContentType :: string
  ur_Body :: string

record 'w outside =
  ou_gcloud :: "string list \<Rightarrow> 'w \<Rightarrow> 'w \<times> command_result"
  ou_post :: "string \<Rightarrow> string \<Rightarrow> string \<Rightarrow> 'w \<Rightarrow> 'w \<times> upstream_reply option"
  ou_read :: "request \<Rightarrow> string option"
  ou_parse :: "string \<Rightarrow> jdoc option"
  ou_print :: "jdoc \<Rightarrow> string"

definition geminiUpstreamURL :: string where
  "geminiUpstreamURL = ''https://generativelanguage.googleapis.com/v1beta/openai/chat/completions''"

definition maxProxyBody :: nat where
  "maxProxyBody = 20 * 2 ^ 20"

section \<open>The key\<close>

datatype key_error = GcloudFailed string | EmptySecret string string | EmptyKey

record gcloudKeyFetcher =
  gk_project :: string
  gk_secret :: string

definition gcloud_args :: "gcloudKeyFetcher \<Rightarrow> string list" where
  "gcloud_args g = [''secrets'', ''versions'', ''access'', ''latest'',
     ''--secret='' @ gk_secret g, ''--project='' @ gk_project g]"

definition fetchKey :: "'w outside \<Rightarrow> gcloudKeyFetcher \<Rightarrow> 'w \<Rightarrow> 'w \<times> (key_error + string)" where
  "fetchKey X g w =
     (case ou_gcloud X (gcloud_args g) w of
        (w', out) \<Rightarrow> (w',
          if cr_Failed out then Inl (GcloudFailed (TrimSpace (cr_Stderr out)))
          else let key = TrimSpace (cr_Stdout out)
            in if key = '''' then Inl (EmptySecret (gk_project g) (gk_secret g)) else Inr key))"

record geminiProxy =
  gp_defaultModel :: string
  gp_upstreamURL :: string
  gp_fetch :: gcloudKeyFetcher
  gp_key :: string

definition newGeminiProxy :: "string \<Rightarrow> string \<Rightarrow> string \<Rightarrow> geminiProxy" where
  "newGeminiProxy project secretName defaultModel =
     \<lparr> gp_defaultModel = defaultModel, gp_upstreamURL = geminiUpstreamURL,
       gp_fetch = \<lparr> gk_project = project, gk_secret = secretName \<rparr>, gp_key = '''' \<rparr>"

text \<open>The route of the proxy is there from now on.\<close>

definition EnableLLMProxy :: "string \<Rightarrow> string \<Rightarrow> string \<Rightarrow> server \<Rightarrow> server \<times> geminiProxy" where
  "EnableLLMProxy project secretName defaultModel s =
     (s\<lparr> sv_llmProxy := True \<rparr>, newGeminiProxy project secretName defaultModel)"

definition getKey ::
  "'w outside \<Rightarrow> bool \<Rightarrow> geminiProxy \<times> 'w \<Rightarrow> (geminiProxy \<times> 'w) \<times> (key_error + string)" where
  "getKey X forceRefresh pw =
     (case pw of (p, w) \<Rightarrow>
        if gp_key p \<noteq> '''' \<and> \<not> forceRefresh then ((p, w), Inr (gp_key p))
        else case fetchKey X (gp_fetch p) w of
            (w', Inl err) \<Rightarrow> ((p, w'), Inl err)
          | (w', Inr k) \<Rightarrow>
              let p' = p\<lparr> gp_key := TrimSpace k \<rparr>
              in ((p', w'), if gp_key p' = '''' then Inl EmptyKey else Inr (gp_key p')))"

section \<open>The request body\<close>

text \<open>
  The body goes out as it came, except that an object without a model gets the default one; the keys of
  the map are printed sorted. A body that is the document null leaves the map nil, and the assignment to
  it panics: None.
\<close>

definition applyDefaultModel :: "'w outside \<Rightarrow> geminiProxy \<Rightarrow> string \<Rightarrow> string option" where
  "applyDefaultModel X p text =
     (if gp_defaultModel p = '''' then Some text
      else case ou_parse X text of
          Some (JObj kvs) \<Rightarrow>
            let m = copy_into kvs []
            in if mget m ''model'' \<noteq> None then Some text
               else Some (ou_print X (json_object (mput ''model'' (JStr (gp_defaultModel p)) m)))
        | Some JNull \<Rightarrow> None
        | _ \<Rightarrow> Some text)"

section \<open>Forwarding\<close>

definition forward :: "'w outside \<Rightarrow> string \<Rightarrow> string \<Rightarrow> geminiProxy \<times> 'w \<Rightarrow> (geminiProxy \<times> 'w) \<times> upstream_reply option" where
  "forward X text key pw =
     (case pw of (p, w) \<Rightarrow>
        (case ou_post X (gp_upstreamURL p) (''Bearer '' @ TrimSpace key) text w of
           (w', reply) \<Rightarrow> ((p, w'), reply)))"

datatype chat_error =
    UnreadableBody
  | BodyTooLarge
  | KeyUnavailable
  | UpstreamUnreachable

datatype chat_outcome = Panicked | Refused chat_error | Answered upstream_reply

text \<open>After a reply: one refresh of the key and one more try, when the key was refused.\<close>

definition retry_once ::
  "'w outside \<Rightarrow> string \<Rightarrow> geminiProxy \<times> 'w \<Rightarrow> upstream_reply \<Rightarrow> (geminiProxy \<times> 'w) \<times> chat_outcome" where
  "retry_once X text pw resp =
     (if ur_Status resp = 401 \<or> ur_Status resp = 403
      then case getKey X True pw of
          (pw1, Inl _) \<Rightarrow> (pw1, Refused KeyUnavailable)
        | (pw1, Inr key) \<Rightarrow>
            (case forward X text key pw1 of
               (pw2, None) \<Rightarrow> (pw2, Refused UpstreamUnreachable)
             | (pw2, Some resp') \<Rightarrow> (pw2, Answered resp'))
      else (pw, Answered resp))"

text \<open>The text that goes out, or why nothing does.\<close>

definition request_text :: "'w outside \<Rightarrow> geminiProxy \<Rightarrow> request \<Rightarrow> chat_outcome + string" where
  "request_text X p rq =
     (case ou_read X rq of
        None \<Rightarrow> Inl (Refused UnreadableBody)
      | Some sent \<Rightarrow>
          let text = take (Suc maxProxyBody) sent
          in if length text > maxProxyBody then Inl (Refused BodyTooLarge)
             else case applyDefaultModel X p text of None \<Rightarrow> Inl Panicked | Some text' \<Rightarrow> Inr text')"

definition converse_upstream :: "'w outside \<Rightarrow> string \<Rightarrow> geminiProxy \<times> 'w \<Rightarrow> (geminiProxy \<times> 'w) \<times> chat_outcome" where
  "converse_upstream X text pw =
     (case getKey X False pw of
        (pw1, Inl _) \<Rightarrow> (pw1, Refused KeyUnavailable)
      | (pw1, Inr key) \<Rightarrow>
          (case forward X text key pw1 of
             (pw2, None) \<Rightarrow> (pw2, Refused UpstreamUnreachable)
           | (pw2, Some resp) \<Rightarrow> retry_once X text pw2 resp))"

definition chat_completions :: "'w outside \<Rightarrow> request \<Rightarrow> geminiProxy \<times> 'w \<Rightarrow> (geminiProxy \<times> 'w) \<times> chat_outcome" where
  "chat_completions X rq pw =
     (case request_text X (fst pw) rq of Inl out \<Rightarrow> (pw, out) | Inr text \<Rightarrow> converse_upstream X text pw)"

fun chat_status :: "chat_error \<Rightarrow> nat" where
  "chat_status UnreadableBody = 400"
| "chat_status BodyTooLarge = 413"
| "chat_status KeyUnavailable = 503"
| "chat_status UpstreamUnreachable = 502"

fun chat_text :: "chat_error \<Rightarrow> string" where
  "chat_text UnreadableBody = ''failed to read request body''"
| "chat_text BodyTooLarge = ''request body too large''"
| "chat_text KeyUnavailable = ''gemini proxy: API key unavailable from Secret Manager''"
| "chat_text UpstreamUnreachable = ''gemini proxy: upstream unreachable''"

text \<open>
  What the client gets: the reply of the service as it is, or an error. The connection of a handler
  that panics is closed without an answer: None.
\<close>

definition handleChatCompletions ::
  "'w outside \<Rightarrow> headers \<Rightarrow> request \<Rightarrow> geminiProxy \<times> 'w \<Rightarrow> (geminiProxy \<times> 'w) \<times> response option" where
  "handleChatCompletions X h rq pw =
     (if rq_Method rq \<noteq> ''POST'' then (pw, Some (writeError h 405 (Text ''method not allowed'')))
      else case chat_completions X rq pw of
          (pw', Panicked) \<Rightarrow> (pw', None)
        | (pw', Refused err) \<Rightarrow> (pw', Some (writeError h (chat_status err) (Text (chat_text err))))
        | (pw', Answered resp) \<Rightarrow>
            (pw', Some \<lparr> rs_Status = ur_Status resp,
               rs_Headers = mput ''Content-Type''
                 (if ur_ContentType resp \<noteq> '''' then ur_ContentType resp else ''application/json'') h,
               rs_Body = Plain (ur_Body resp) \<rparr>))"

end
