(* ===== verification/Mcp.thy ===== *)
theory Mcp
  imports Routes
begin

text \<open>
  internal/mcp: JSON-RPC over three transports, newline-delimited on stdio, POST to an open event
  stream's session, POST with the answer in the body. Messages are the decoded structs of protocol.go;
  the text inside a tool result is a document that is printed, or a plain sentence.
\<close>

section \<open>protocol.go\<close>

record rpc_request =
  mq_JSONRPC :: string
  mq_ID :: val
  mq_Method :: string
  mq_Params :: "jdoc option"

text \<open>A RawMessage keeps whatever document it meets, null included.\<close>

definition dec_raw :: "jdoc option dec" where
  "dec_raw d old = Inr (Some d)"

definition request_fields :: "(string \<times> rpc_request dec) list" where
  "request_fields = [
     (''jsonrpc'', on_field mq_JSONRPC mq_JSONRPC_update dec_string),
     (''id'', on_field mq_ID mq_ID_update dec_val),
     (''method'', on_field mq_Method mq_Method_update dec_string),
     (''params'', on_field mq_Params mq_Params_update dec_raw)]"

definition dec_request :: "rpc_request dec" where
  "dec_request = dec_struct request_fields"

definition no_request :: rpc_request where
  "no_request = \<lparr> mq_JSONRPC = '''', mq_ID = VNil, mq_Method = '''', mq_Params = None \<rparr>"

datatype tool_text = Sentence string | Printed jdoc | PrintedError kernel_error

record tool_result =
  tr_Text :: tool_text
  tr_IsError :: bool

datatype rpc_result = Document jdoc | Tool tool_result

datatype rpc_message = Said string | JSONError json_failure

record rpc_error =
  re_Code :: int
  re_Message :: rpc_message

record rpc_response =
  rr_ID :: val
  rr_Result :: "rpc_result option"
  rr_Error :: "rpc_error option"

definition RPCParseError :: int where "RPCParseError = -32700"
definition RPCInvalidRequest :: int where "RPCInvalidRequest = -32600"
definition RPCMethodNotFound :: int where "RPCMethodNotFound = -32601"
definition RPCInvalidParams :: int where "RPCInvalidParams = -32602"

definition errResponse :: "val \<Rightarrow> int \<Rightarrow> rpc_message \<Rightarrow> rpc_response" where
  "errResponse i code msg =
     \<lparr> rr_ID = i, rr_Result = None, rr_Error = Some \<lparr> re_Code = code, re_Message = msg \<rparr> \<rparr>"

definition okResponse :: "val \<Rightarrow> rpc_result \<Rightarrow> rpc_response" where
  "okResponse i result = \<lparr> rr_ID = i, rr_Result = Some result, rr_Error = None \<rparr>"

record tool_params =
  tp_Name :: string
  tp_Arguments :: "(string, val) gomap option"

definition tool_fields :: "(string \<times> tool_params dec) list" where
  "tool_fields = [
     (''name'', on_field tp_Name tp_Name_update dec_string),
     (''arguments'', on_field tp_Arguments tp_Arguments_update (dec_map VNil dec_val))]"

text \<open>json.Unmarshal of the parameters; when the request has none the text is empty, an error.\<close>

definition dec_tool_params :: "jdoc option \<Rightarrow> json_failure + tool_params" where
  "dec_tool_params params =
     (case params of
        None \<Rightarrow> Inl Unreadable
      | Some d \<Rightarrow>
          (case dec_struct tool_fields d \<lparr> tp_Name = '''', tp_Arguments = None \<rparr> of
             Inl err \<Rightarrow> Inl (WrongShape err) | Inr p \<Rightarrow> Inr p))"

definition argument :: "tool_params \<Rightarrow> string \<Rightarrow> val" where
  "argument p k = (case mget (elems (tp_Arguments p)) k of None \<Rightarrow> VNil | Some v \<Rightarrow> v)"

section \<open>Methods\<close>

definition MCPProtocolVersion :: string where
  "MCPProtocolVersion = ''2024-11-05''"

definition handleInitialize :: "rpc_request \<Rightarrow> rpc_response" where
  "handleInitialize req = okResponse (mq_ID req) (Document (JObj
     [(''protocolVersion'', JStr MCPProtocolVersion),
      (''serverInfo'', json_object [(''name'', JStr ''moos-kernel''), (''version'', JStr ''1.0.0'')]),
      (''capabilities'', JObj [(''tools'', JObj [(''listChanged'', JBool False)])])]))"

definition tool_definition :: "string \<Rightarrow> string \<Rightarrow> (string \<times> jdoc) list \<Rightarrow> string list \<Rightarrow> jdoc" where
  "tool_definition name description properties required =
     JObj [(''name'', JStr name), (''description'', JStr description),
       (''inputSchema'', json_object ([(''type'', JStr ''object''), (''properties'', json_object properties)]
          @ (if required = [] then [] else [(''required'', JArr (map JStr required))])))]"

definition handleToolsList :: "rpc_request \<Rightarrow> rpc_response" where
  "handleToolsList req =
     (let typed = (\<lambda>t. JObj [(''type'', JStr t)])
      in okResponse (mq_ID req) (Document (JObj [(''tools'', JArr
       [tool_definition ''graph_state'' ''Return the full current graph state (all nodes and relations).'' [] [],
        tool_definition ''node_lookup'' ''Fetch a single node by URN.'' [(''urn'', typed ''string'')] [''urn''],
        tool_definition ''apply_rewrite'' ''Submit a single rewrite Envelope (ADD, LINK, MUTATE, UNLINK).''
          [(''envelope'', typed ''object'')] [''envelope''],
        tool_definition ''apply_program'' ''Submit an atomic batch of rewrite Envelopes. All or nothing.''
          [(''envelopes'', json_object [(''type'', JStr ''array''), (''items'', typed ''object'')])] [''envelopes''],
        tool_definition ''operad_registry''
          ''Introspect the type system: node types, WF01-WF15 rewrite categories, port colors.'' [] []])])))"

definition json_graph_state :: "golib \<Rightarrow> graph_state \<Rightarrow> jdoc" where
  "json_graph_state lib state =
     JObj [(''nodes'', json_of_map (json_node lib) (Nodes state)),
           (''relations'', json_of_map (json_relation lib) (Relations state))]"

definition tool_ok :: "rpc_request \<Rightarrow> jdoc \<Rightarrow> rpc_response" where
  "tool_ok req d = okResponse (mq_ID req) (Tool \<lparr> tr_Text = Printed d, tr_IsError = False \<rparr>)"

definition tool_failed :: "rpc_request \<Rightarrow> tool_text \<Rightarrow> rpc_response" where
  "tool_failed req t = okResponse (mq_ID req) (Tool \<lparr> tr_Text = t, tr_IsError = True \<rparr>)"

text \<open>
  An argument is a value of Go's \<^verbatim>\<open>any\<close>; the writing tools print it and read the text back as an
  envelope.
\<close>

definition call_apply_rewrite :: "'s kenv \<Rightarrow> 's runtime \<Rightarrow> rpc_request \<Rightarrow> val \<Rightarrow> 's runtime \<times> rpc_response" where
  "call_apply_rewrite K rt req v =
     (case dec_envelope (json_val v) no_envelope of
        Inl err \<Rightarrow> (rt, errResponse (mq_ID req) RPCInvalidParams (JSONError (WrongShape err)))
      | Inr env \<Rightarrow>
          (case Apply K rt env of
             (rt', Inl err) \<Rightarrow> (rt', tool_failed req (PrintedError err))
           | (rt', Inr result) \<Rightarrow> (rt', tool_ok req (json_eval_result result))))"

definition call_apply_program :: "'s kenv \<Rightarrow> 's runtime \<Rightarrow> rpc_request \<Rightarrow> val \<Rightarrow> 's runtime \<times> rpc_response" where
  "call_apply_program K rt req v =
     (case dec_envelopes (json_val v) None of
        Inl err \<Rightarrow> (rt, errResponse (mq_ID req) RPCInvalidParams (JSONError (WrongShape err)))
      | Inr envs \<Rightarrow>
          (case ApplyProgram K rt (elems envs) of
             (rt', Inl err) \<Rightarrow> (rt', tool_failed req (PrintedError err))
           | (rt', Inr results) \<Rightarrow> (rt', tool_ok req (JArr (map json_eval_result results)))))"

definition handleToolsCall :: "'s kenv \<Rightarrow> 's runtime \<Rightarrow> rpc_request \<Rightarrow> 's runtime \<times> rpc_response" where
  "handleToolsCall K rt req =
     (case dec_tool_params (mq_Params req) of
        Inl err \<Rightarrow> (rt, errResponse (mq_ID req) RPCInvalidParams (JSONError err))
      | Inr params \<Rightarrow>
          if tp_Name params = ''graph_state'' then (rt, tool_ok req (json_graph_state (k_lib K) (State rt)))
          else if tp_Name params = ''node_lookup''
          then let urnStr = string_or_empty (argument params ''urn'')
            in (case Node rt urnStr of
                  None \<Rightarrow> (rt, tool_failed req (Sentence (''node not found: '' @ urnStr)))
                | Some nd \<Rightarrow> (rt, tool_ok req (json_node (k_lib K) nd)))
          else if tp_Name params = ''apply_rewrite'' then call_apply_rewrite K rt req (argument params ''envelope'')
          else if tp_Name params = ''apply_program'' then call_apply_program K rt req (argument params ''envelopes'')
          else if tp_Name params = ''operad_registry''
          then (rt, tool_ok req (JObj [(''note'', JStr ''use GET /operad/* HTTP routes for registry introspection'')]))
          else (rt, errResponse (mq_ID req) RPCMethodNotFound (Said (''unknown tool: '' @ tp_Name params))))"

definition dispatch :: "'s kenv \<Rightarrow> 's runtime \<Rightarrow> rpc_request \<Rightarrow> 's runtime \<times> rpc_response" where
  "dispatch K rt req =
     (if mq_Method req = ''initialize'' then (rt, handleInitialize req)
      else if mq_Method req = ''ping'' then (rt, okResponse (mq_ID req) (Document (JObj [])))
      else if mq_Method req = ''tools/list'' then (rt, handleToolsList req)
      else if mq_Method req = ''tools/call'' then handleToolsCall K rt req
      else if length (mq_Method req) > 14 \<and> take 14 (mq_Method req) = ''notifications/''
      then (rt, okResponse (mq_ID req) (Document (JObj [])))
      else (rt, errResponse (mq_ID req) RPCMethodNotFound (Said (''method not found: '' @ mq_Method req))))"

section \<open>The HTTP transports\<close>

record mcp_server =
  mc_sessions :: "(string, rpc_response list) gomap"
  mc_authToken :: string

definition mcp_NewServer :: mcp_server where
  "mcp_NewServer = \<lparr> mc_sessions = [], mc_authToken = '''' \<rparr>"

definition mcp_SetAuthToken :: "string \<Rightarrow> mcp_server \<Rightarrow> mcp_server" where
  "mcp_SetAuthToken v s = s\<lparr> mc_authToken := v \<rparr>"

datatype mcp_body = NoBytes | OkText | RPC rpc_response | Opened string | MuxError

record mcp_reply =
  mr_Status :: nat
  mr_ContentType :: string
  mr_Body :: mcp_body

definition isWriteCall :: "rpc_request \<Rightarrow> bool" where
  "isWriteCall req =
     (if mq_Method req \<noteq> ''tools/call'' then False
      else case dec_tool_params (mq_Params req) of
          Inl _ \<Rightarrow> False
        | Inr params \<Rightarrow> tp_Name params = ''apply_rewrite'' \<or> tp_Name params = ''apply_program'')"

definition mcp_validBearer :: "string \<Rightarrow> string \<Rightarrow> bool" where
  "mcp_validBearer header token =
     (if length header \<le> length ''Bearer '' \<or> \<not> EqualFold (take (length ''Bearer '') header) ''Bearer ''
      then False
      else let got = TrimSpace (drop (length ''Bearer '') header) in got = token)"

definition refused_write :: "mcp_server \<Rightarrow> rpc_request \<Rightarrow> request \<Rightarrow> bool" where
  "refused_write s req rq \<longleftrightarrow>
     mc_authToken s \<noteq> '''' \<and> isWriteCall req \<and> \<not> mcp_validBearer (rq_Auth rq) (mc_authToken s)"

definition unauthorized :: "rpc_request \<Rightarrow> mcp_reply" where
  "unauthorized req =
     \<lparr> mr_Status = 401, mr_ContentType = ''application/json'',
       mr_Body = RPC (errResponse (mq_ID req) RPCInvalidRequest
         (Said ''unauthorized: bearer token required for write tools'')) \<rparr>"

definition bare :: "nat \<Rightarrow> mcp_reply" where
  "bare status = \<lparr> mr_Status = status, mr_ContentType = '''', mr_Body = NoBytes \<rparr>"

definition answered :: "rpc_response \<Rightarrow> mcp_reply" where
  "answered resp = \<lparr> mr_Status = 200, mr_ContentType = ''application/json'', mr_Body = RPC resp \<rparr>"

text \<open>An open stream has a channel of 64 messages under a name made of the clock.\<close>

definition handleSSE :: "'s kenv \<Rightarrow> mcp_server \<Rightarrow> 's runtime \<Rightarrow> (mcp_server \<times> 's runtime) \<times> mcp_reply" where
  "handleSSE K s rt0 =
     (case read_clock K rt0 of
        (t, rt) \<Rightarrow>
          let sessionID = ''s'' @ string_of_int t
          in ((s\<lparr> mc_sessions := mput sessionID [] (mc_sessions s) \<rparr>, rt),
              \<lparr> mr_Status = 200, mr_ContentType = ''text/event-stream'', mr_Body = Opened sessionID \<rparr>))"

definition closeSSE :: "string \<Rightarrow> mcp_server \<Rightarrow> mcp_server" where
  "closeSSE sessionID s = s\<lparr> mc_sessions := mdel sessionID (mc_sessions s) \<rparr>"

definition send_message :: "mcp_server \<Rightarrow> string \<Rightarrow> rpc_response \<Rightarrow> mcp_server" where
  "send_message s sessionID resp =
     (if sessionID = '''' then s
      else case mget (mc_sessions s) sessionID of
          None \<Rightarrow> s
        | Some ch \<Rightarrow> if length ch < 64 then s\<lparr> mc_sessions := mput sessionID (ch @ [resp]) (mc_sessions s) \<rparr> else s)"

text \<open>The loop of a stream sends the oldest message.\<close>

definition sse_step :: "string \<Rightarrow> mcp_server \<Rightarrow> mcp_server \<times> rpc_response option" where
  "sse_step sessionID s =
     (case mget (mc_sessions s) sessionID of
        Some (resp # rest) \<Rightarrow> (s\<lparr> mc_sessions := mput sessionID rest (mc_sessions s) \<rparr>, Some resp)
      | _ \<Rightarrow> (s, None))"

definition handleMessage ::
  "'s web \<Rightarrow> request \<Rightarrow> mcp_server \<Rightarrow> 's runtime \<Rightarrow> (mcp_server \<times> 's runtime) \<times> mcp_reply" where
  "handleMessage W rq s rt =
     (case decode_body W dec_request no_request (rq_Body rq) of
        Inl _ \<Rightarrow> ((s, rt), bare 400)
      | Inr req \<Rightarrow>
          if refused_write s req rq then ((s, rt), unauthorized req)
          else case dispatch (w_kenv W) rt req of
              (rt', resp) \<Rightarrow> ((send_message s (query rq ''sessionId'') resp, rt'), answered resp))"

definition handleStreamableHTTP ::
  "'s web \<Rightarrow> request \<Rightarrow> mcp_server \<Rightarrow> 's runtime \<Rightarrow> (mcp_server \<times> 's runtime) \<times> mcp_reply" where
  "handleStreamableHTTP W rq s rt =
     (case decode_body W dec_request no_request (rq_Body rq) of
        Inl _ \<Rightarrow> ((s, rt), bare 400)
      | Inr req \<Rightarrow>
          if mq_ID req = VNil then ((s, rt), bare 202)
          else if refused_write s req rq then ((s, rt), unauthorized req)
          else case dispatch (w_kenv W) rt req of (rt', resp) \<Rightarrow> ((s, rt'), answered resp))"

text \<open>The route table: a known path under another method is 405, any other 404.\<close>

definition mcp_Handler ::
  "'s web \<Rightarrow> request \<Rightarrow> mcp_server \<Rightarrow> 's runtime \<Rightarrow> (mcp_server \<times> 's runtime) \<times> mcp_reply" where
  "mcp_Handler W rq s rt =
     (let get = rq_Method rq \<in> {''GET'', ''HEAD''}; post = rq_Method rq = ''POST'';
          known = rq_Path rq \<in> {[''healthz''], [''sse''], [''message'']}
      in if rq_Path rq = [''healthz''] \<and> get
         then ((s, rt), \<lparr> mr_Status = 200, mr_ContentType = '''', mr_Body = OkText \<rparr>)
         else if rq_Path rq = [''sse''] \<and> get then handleSSE (w_kenv W) s rt
         else if rq_Path rq = [''sse''] \<and> post then handleStreamableHTTP W rq s rt
         else if rq_Path rq = [''message''] \<and> post then handleMessage W rq s rt
         else ((s, rt), \<lparr> mr_Status = (if known then 405 else 404), mr_ContentType = ''text/plain; charset=utf-8'',
                 mr_Body = MuxError \<rparr>))"

section \<open>stdio\<close>

text \<open>
  A bufio.Scanner gives up on a line that does not fit its 64 KiB, and the loop returns. A line that is
  no request is answered, a notification is not.
\<close>

definition MaxScanTokenSize :: nat where
  "MaxScanTokenSize = 64 * 1024"

definition read_request :: "(string \<Rightarrow> jdoc option) \<Rightarrow> string \<Rightarrow> json_failure + rpc_request" where
  "read_request parse line =
     (case parse line of
        None \<Rightarrow> Inl Unreadable
      | Some d \<Rightarrow> (case dec_request d no_request of Inl err \<Rightarrow> Inl (WrongShape err) | Inr req \<Rightarrow> Inr req))"

fun stdio_loop ::
  "'s kenv \<Rightarrow> (string \<Rightarrow> jdoc option) \<Rightarrow> string list \<Rightarrow> 's runtime \<Rightarrow> 's runtime \<times> rpc_response list" where
  "stdio_loop K parse [] rt = (rt, [])"
| "stdio_loop K parse (line # rest) rt =
     (if length line \<ge> MaxScanTokenSize then (rt, [])
      else case read_request parse (drop_cr line) of
          Inl err \<Rightarrow>
            (case stdio_loop K parse rest rt of
               (rt', out) \<Rightarrow> (rt', errResponse VNil RPCParseError (JSONError err) # out))
        | Inr req \<Rightarrow>
            if mq_ID req = VNil then stdio_loop K parse rest rt
            else case dispatch K rt req of
                (rt1, resp) \<Rightarrow>
                  (case stdio_loop K parse rest rt1 of (rt', out) \<Rightarrow> (rt', resp # out)))"

definition HandleStdio ::
  "'s kenv \<Rightarrow> (string \<Rightarrow> jdoc option) \<Rightarrow> string \<Rightarrow> 's runtime \<Rightarrow> 's runtime \<times> rpc_response list" where
  "HandleStdio K parse input rt = stdio_loop K parse (scan_lines input) rt"

end
