(* ===== verification/Boot.thy ===== *)
theory Boot
  imports LlmProxy Mcp Loader
begin

text \<open>
  cmd/moos/main.go: from the command line to a running kernel and its servers. The machine the command
  runs on is the record \<open>host\<close>: environment variables, files, the log file and its lock. A
  log.Fatalf is a value of \<open>boot_error\<close>; what the goroutines started at the end do is modelled by the
  definitions of their packages.
\<close>

section \<open>The command line\<close>

record flags =
  fl_ontology :: string
  fl_log :: string
  fl_allow_shared_log :: bool
  fl_listen :: string
  fl_mcp_addr :: string
  fl_mcp_stdio :: bool
  fl_stdio_only :: bool
  fl_seed :: bool
  fl_seed_user :: string
  fl_seed_ws :: string
  fl_kernel_urn :: string
  fl_quic_addr :: string
  fl_tls_cert :: string
  fl_tls_key :: string
  fl_sweep_interval :: int
  fl_enable_llm_proxy :: bool
  fl_gemini_secret_project :: string
  fl_gemini_secret_name :: string
  fl_gemini_model :: string
  fl_auth_token_file :: string
  fl_llm_token_file :: string

text \<open>A duration counts nanoseconds.\<close>

definition default_flags :: flags where
  "default_flags =
     \<lparr> fl_ontology = '''', fl_log = '''', fl_allow_shared_log = False, fl_listen = '':8000'', fl_mcp_addr = '':8080'',
       fl_mcp_stdio = False, fl_stdio_only = False, fl_seed = False, fl_seed_user = ''sam'',
       fl_seed_ws = ''hp-laptop'', fl_kernel_urn = '''', fl_quic_addr = '''', fl_tls_cert = '''', fl_tls_key = '''',
       fl_sweep_interval = 30 * 10 ^ 9, fl_enable_llm_proxy = False,
       fl_gemini_secret_project = ''mailmind-ai-djbuw'', fl_gemini_secret_name = ''gemini-api-key'',
       fl_gemini_model = '''', fl_auth_token_file = '''', fl_llm_token_file = '''' \<rparr>"

section \<open>The host\<close>

text \<open>A store is one of the two implementations of the interface.\<close>

datatype store = OnDisk logstore | InMemory "persisted_rewrite list"

definition any_ops :: "golib \<Rightarrow> store store_ops" where
  "any_ops lib =
     \<lparr> so_Append = (\<lambda>s es. case s of
         OnDisk l \<Rightarrow> (case LogStore_Append lib l es of (l', ok) \<Rightarrow> (OnDisk l', ok))
       | InMemory m \<Rightarrow> (case MemStore_Append m es of (m', ok) \<Rightarrow> (InMemory m', ok))),
       so_ReadAll = (\<lambda>s. case s of OnDisk l \<Rightarrow> LogStore_ReadAll lib l | InMemory m \<Rightarrow> MemStore_ReadAll m),
       so_SingleWriter = (\<lambda>s. case s of OnDisk l \<Rightarrow> LogStore_SingleWriter l | InMemory m \<Rightarrow> MemStore_SingleWriter m) \<rparr>"

text \<open>\<open>ho_lock p\<close>: nobody else holds the lock of the log at \<open>p\<close>; \<open>ho_quote\<close> is fmt's \<^verbatim>\<open>%q\<close>.\<close>

record host =
  ho_lib :: golib
  ho_drifted :: "graph_state \<Rightarrow> drift_row list"
  ho_Getenv :: "string \<Rightarrow> string"
  ho_ReadFile :: "string \<Rightarrow> string option"
  ho_parse :: "string \<Rightarrow> jdoc option"
  ho_lock :: "string \<Rightarrow> bool"
  ho_disk :: "nat option list"
  ho_proc_version :: bool
  ho_GOARCH :: string
  ho_quote :: "string \<Rightarrow> string"

definition host_env :: "host \<Rightarrow> store kenv" where
  "host_env H = \<lparr> k_lib = ho_lib H, k_ops = any_ops (ho_lib H), k_drifted = ho_drifted H \<rparr>"

datatype boot_error =
    TokenFileUnreadable string
  | TokenFileEmpty string
  | OntologyFailed load_error
  | StoreFailed string
  | RuntimeFailed kernel_error
  | SeedFailed string kernel_error
  | QuicNeedsTLS string

text \<open>A token: the file wins over the variable; an unreadable or blank file stops the command.\<close>

definition resolve_token :: "host \<Rightarrow> string \<Rightarrow> string \<Rightarrow> boot_error + string" where
  "resolve_token H variable file =
     (if file \<noteq> ''''
      then case ho_ReadFile H file of
          None \<Rightarrow> Inl (TokenFileUnreadable file)
        | Some raw \<Rightarrow> let token = TrimSpace raw in if token = '''' then Inl (TokenFileEmpty file) else Inr token
      else Inr (TrimSpace (ho_Getenv H variable)))"

definition open_store :: "host \<Rightarrow> flags \<Rightarrow> boot_error + store" where
  "open_store H fl =
     (if fl_log fl = '''' then Inr (InMemory NewMemStore)
      else if fl_allow_shared_log fl then Inr (OnDisk (NewSharedLogStore (ho_ReadFile H (fl_log fl)) (ho_disk H)))
      else case NewLogStore (ho_ReadFile H (fl_log fl)) (ho_lock H (fl_log fl)) (ho_disk H) of
          None \<Rightarrow> Inl (StoreFailed (fl_log fl))
        | Some l \<Rightarrow> Inr (OnDisk l))"

section \<open>Identity\<close>

definition resolveKernelIdentity :: "'s runtime \<Rightarrow> string \<Rightarrow> urn" where
  "resolveKernelIdentity rt flagURN =
     (let kernels = map n_URN (filter (\<lambda>n. n_TypeID n = ''kernel'') (rt_Nodes rt));
          explicit = TrimSpace flagURN
      in case kernels of
           [k] \<Rightarrow> k
         | _ \<Rightarrow> if explicit \<noteq> '''' then explicit else '''')"

section \<open>Seeding\<close>

definition detectOS :: "host \<Rightarrow> string" where
  "detectOS H = (if ho_proc_version H then ''linux'' else ''windows'')"

definition detectArch :: "host \<Rightarrow> string" where
  "detectArch H = ho_GOARCH H"

definition seed_prop :: "string \<Rightarrow> string \<Rightarrow> string \<Rightarrow> property" where
  "seed_prop v mutability scope =
     \<lparr> p_Value = VStr v, p_Mutability = mutability, p_AuthorityScope = scope, p_StratumOrigin = stratum_int S2,
       p_ValidationType = '''' \<rparr>"

definition seed_user_urn :: "string \<Rightarrow> urn" where
  "seed_user_urn user = ''urn:moos:user:'' @ user"

definition seed_ws_urn :: "string \<Rightarrow> urn" where
  "seed_ws_urn ws = ''urn:moos:workstation:'' @ ws"

definition seed_kernel_urn :: "string \<Rightarrow> urn" where
  "seed_kernel_urn ws = ''urn:moos:kernel:'' @ ws @ ''.primary''"

definition seed_node :: "string \<Rightarrow> urn \<Rightarrow> type_id \<Rightarrow> (string, property) gomap \<Rightarrow> envelope" where
  "seed_node user u t props =
     (zero_envelope ADD (seed_user_urn user))\<lparr> e_NodeURN := u, e_TypeID := t, e_Properties := props \<rparr>"

definition seed_nodes :: "host \<Rightarrow> string \<Rightarrow> string \<Rightarrow> string \<Rightarrow> (string \<times> envelope) list" where
  "seed_nodes H user ws now =
     [(''user'', seed_node user (seed_user_urn user) ''user''
        [(''name'', seed_prop user ''immutable'' ''''), (''created_at'', seed_prop now ''immutable'' '''')]),
      (''workstation'', seed_node user (seed_ws_urn ws) ''workstation''
        [(''hostname'', seed_prop ws ''immutable'' ''''), (''os'', seed_prop (detectOS H) ''immutable'' ''''),
         (''arch'', seed_prop (detectArch H) ''immutable'' '''')]),
      (''kernel'', seed_node user (seed_kernel_urn ws) ''kernel''
        [(''version'', seed_prop ''1.0.0'' ''immutable'' ''''), (''status'', seed_prop ''active'' ''mutable'' ''kernel''),
         (''created_at'', seed_prop now ''immutable'' '''')])]"

definition seed_link ::
  "string \<Rightarrow> rewrite_category \<Rightarrow> urn \<Rightarrow> urn \<Rightarrow> string \<Rightarrow> urn \<Rightarrow> string \<Rightarrow> envelope" where
  "seed_link user cat rel src sport tgt tport =
     (zero_envelope LINK (seed_user_urn user))\<lparr> e_RewriteCategory := cat, e_RelationURN := rel, e_SrcURN := src,
        e_SrcPort := sport, e_TgtURN := tgt, e_TgtPort := tport \<rparr>"

definition seed_links :: "string \<Rightarrow> string \<Rightarrow> (string \<times> envelope) list" where
  "seed_links user ws =
     [(''WF01 owns'', seed_link user ''WF01'' (''urn:moos:rel:'' @ user @ ''.owns.'' @ ws)
        (seed_user_urn user) ''owns'' (seed_ws_urn ws) ''child''),
      (''WF03 hosts'', seed_link user ''WF03'' (''urn:moos:rel:'' @ ws @ ''.hosts.primary'')
        (seed_ws_urn ws) ''hosts'' (seed_kernel_urn ws) ''hosted-on'')]"

fun seed_all :: "'s kenv \<Rightarrow> (string \<times> envelope) list \<Rightarrow> 's runtime \<Rightarrow> 's runtime \<times> boot_error option" where
  "seed_all K [] rt = (rt, None)"
| "seed_all K ((desc, env) # rest) rt =
     (case SeedIfAbsent K rt env of
        (rt', Some err) \<Rightarrow> (rt', Some (SeedFailed desc err))
      | (rt', None) \<Rightarrow> seed_all K rest rt')"

definition seedInfrastructure ::
  "'s kenv \<Rightarrow> host \<Rightarrow> 's runtime \<Rightarrow> string \<Rightarrow> string \<Rightarrow> 's runtime \<times> boot_error option" where
  "seedInfrastructure K H rt0 user ws =
     (case read_clock K rt0 of
        (t, rt) \<Rightarrow> seed_all K (seed_nodes H user ws (rfc3339 (k_lib K) t) @ seed_links user ws) rt)"

section \<open>The command\<close>

text \<open>What runs when the command has started: in stdio-only mode there are no HTTP servers.\<close>

record booted =
  bo_rt :: "store runtime"
  bo_http :: "server option"
  bo_llm :: "geminiProxy option"
  bo_mcp :: mcp_server
  bo_stdio :: bool
  bo_quic :: "string option"
  bo_sweep :: "int option"

definition boot_kernel :: "host \<Rightarrow> flags \<Rightarrow> boot_error + registry \<times> store runtime" where
  "boot_kernel H fl =
     (case LoadRegistry (ho_ReadFile H) (ho_parse H) (fl_ontology fl) of
        Inl err \<Rightarrow> Inl (OntologyFailed err)
      | Inr (registry, _) \<Rightarrow>
          ebind (open_store H fl) (\<lambda>st.
            case NewRuntime (host_env H) st (Some registry) of
              Inl err \<Rightarrow> Inl (RuntimeFailed err)
            | Inr rt \<Rightarrow>
                if fl_seed fl
                then case seedInfrastructure (host_env H) H rt (fl_seed_user fl) (fl_seed_ws fl) of
                    (_, Some err) \<Rightarrow> Inl err
                  | (rt', None) \<Rightarrow> Inr (registry, rt')
                else Inr (registry, rt)))"

definition configure_http :: "flags \<Rightarrow> registry \<Rightarrow> string \<Rightarrow> string \<Rightarrow> server \<times> geminiProxy option" where
  "configure_http fl registry authToken llmToken =
     (let s0 = NewServer (Some registry);
          s1 = (if authToken \<noteq> '''' then SetAuthToken authToken s0 else s0);
          s2 = (if llmToken \<noteq> '''' then SetLLMToken llmToken s1 else s1)
      in if fl_enable_llm_proxy fl
         then case EnableLLMProxy (fl_gemini_secret_project fl) (fl_gemini_secret_name fl) (fl_gemini_model fl) s2 of
             (s3, proxy) \<Rightarrow> (s3, Some proxy)
         else (s2, None))"

definition moos_main :: "host \<Rightarrow> flags \<Rightarrow> boot_error + booted" where
  "moos_main H fl =
     ebind (resolve_token H ''MOOS_AUTH_TOKEN'' (fl_auth_token_file fl)) (\<lambda>authToken.
     ebind (resolve_token H ''MOOS_LLM_TOKEN'' (fl_llm_token_file fl)) (\<lambda>llmToken.
     ebind (boot_kernel H fl) (\<lambda>(registry, rt0).
       let rt = SetKernelURN rt0 (resolveKernelIdentity rt0 (fl_kernel_urn fl))
       in if fl_stdio_only fl
          then Inr \<lparr> bo_rt = rt, bo_http = None, bo_llm = None, bo_mcp = mcp_NewServer, bo_stdio = True,
                     bo_quic = None, bo_sweep = None \<rparr>
          else case configure_http fl registry authToken llmToken of
            (s, proxy) \<Rightarrow>
              let m = (if authToken \<noteq> '''' then mcp_SetAuthToken authToken mcp_NewServer else mcp_NewServer);
                  b = \<lparr> bo_rt = (if fl_seed fl then SetSweepActor rt (seed_kernel_urn (fl_seed_ws fl)) else rt),
                        bo_http = Some s, bo_llm = proxy, bo_mcp = m, bo_stdio = fl_mcp_stdio fl, bo_quic = None,
                        bo_sweep = (if fl_sweep_interval fl \<le> 0 then None else Some (fl_sweep_interval fl)) \<rparr>
              in if fl_quic_addr fl = '''' then Inr b
                 else if fl_tls_cert fl = '''' \<or> fl_tls_key fl = '''' then Inl (QuicNeedsTLS (fl_quic_addr fl))
                 else Inr (b\<lparr> bo_http := Some (SetAltSvc (''h3='' @ ho_quote H (fl_quic_addr fl) @ ''; ma=2592000'') s),
                              bo_quic := Some (fl_quic_addr fl) \<rparr>))))"

end
