(* ===== verification/WireOrder.thy ===== *)
theory WireOrder
  imports WireSpec "HOL-Library.Sublist"
begin

text \<open>
  An envelope that passes through a Go \<^verbatim>\<open>any\<close> is decoded to the same envelope: the printer sorts the keys
  of every object, and the order of distinct keys does not matter to the decoder of a struct. This is
  the way an envelope takes as the argument of an MCP tool.
\<close>

section \<open>Steps that commute\<close>

definition commutes :: "'r dec \<Rightarrow> 'r dec \<Rightarrow> bool" where
  "commutes f g \<longleftrightarrow>
     (\<forall>d d' r r1 r2. f d r = Inr r1 \<longrightarrow> g d' r1 = Inr r2 \<longrightarrow> (\<exists>r3. g d' r = Inr r3 \<and> f d r3 = Inr r2))"

lemma on_field_commutes:
  assumes "\<And>x r. get' (upd (\<lambda>_. x) r) = get' r" "\<And>x r. get (upd' (\<lambda>_. x) r) = get r"
    and "\<And>x y r. upd (\<lambda>_. x) (upd' (\<lambda>_. y) r) = upd' (\<lambda>_. y) (upd (\<lambda>_. x) r)"
  shows "commutes (on_field get upd f) (on_field get' upd' g)"
  using assms by (auto simp: commutes_def on_field_def ok_simps)

text \<open>Every two different attributes of a struct commute.\<close>

definition independent :: "(string \<times> 'r dec) list \<Rightarrow> bool" where
  "independent fs \<longleftrightarrow> sorted_wrt (\<lambda>a b. commutes (snd a) (snd b) \<and> commutes (snd b) (snd a)) fs"

lemma independent_commutes:
  assumes "independent fs" "map_of fs k = Some f" "map_of fs k' = Some g" "k \<noteq> k'"
  shows "commutes f g"
proof -
  obtain i where i: "i < length fs" "fs ! i = (k, f)" using map_of_SomeD [OF assms(2)] by (metis in_set_conv_nth)
  obtain j where j: "j < length fs" "fs ! j = (k', g)" using map_of_SomeD [OF assms(3)] by (metis in_set_conv_nth)
  have "i \<noteq> j" using i j assms(4) by auto
  then consider "i < j" | "j < i" by linarith
  then show ?thesis
  proof cases
    case 1
    then show ?thesis using sorted_wrt_nth_less [OF assms(1) [unfolded independent_def] 1 j(1)] i(2) j(2) by simp
  next
    case 2
    then show ?thesis using sorted_wrt_nth_less [OF assms(1) [unfolded independent_def] 2 i(1)] i(2) j(2) by simp
  qed
qed

definition struct_step :: "(string \<times> 'r dec) list \<Rightarrow> string \<times> jdoc \<Rightarrow> 'r \<Rightarrow> decode_error + 'r" where
  "struct_step fs = (\<lambda>(k, d) r. case map_of fs k of None \<Rightarrow> Inr r | Some f \<Rightarrow> f d r)"

lemma struct_step_swap:
  assumes "independent fs" "fst a \<noteq> fst b" "struct_step fs a r = Inr r1" "struct_step fs b r1 = Inr r2"
  shows "\<exists>r3. struct_step fs b r = Inr r3 \<and> struct_step fs a r3 = Inr r2"
proof -
  obtain k d k' d' where ab: "a = (k, d)" "b = (k', d')" by force
  show ?thesis
  proof (cases "map_of fs k")
    case None
    with assms ab show ?thesis by (auto simp: struct_step_def)
  next
    case f: (Some f)
    show ?thesis
    proof (cases "map_of fs k'")
      case None
      with assms ab f show ?thesis by (auto simp: struct_step_def)
    next
      case (Some g)
      with independent_commutes [OF assms(1) f Some] assms(2-4) ab f show ?thesis
        by (auto simp: struct_step_def commutes_def)
    qed
  qed
qed

lemma efold_to_front:
  assumes "independent fs" "fst y \<notin> fst ` set as" "efold (struct_step fs) (as @ y # bs) r = Inr r'"
  shows "efold (struct_step fs) (y # as @ bs) r = Inr r'"
  using assms(2,3)
proof (induction as arbitrary: r)
  case Nil
  then show ?case by simp
next
  case (Cons a as)
  then obtain r1 where r1: "struct_step fs a r = Inr r1" "efold (struct_step fs) (as @ y # bs) r1 = Inr r'"
    by (auto simp: ok_simps)
  from Cons.IH [OF _ r1(2)] Cons.prems(1) obtain r2 where
    r2: "struct_step fs y r1 = Inr r2" "efold (struct_step fs) (as @ bs) r2 = Inr r'" by (auto simp: ok_simps)
  from struct_step_swap [OF assms(1) _ r1(1) r2(1)] Cons.prems(1) obtain r3 where
    "struct_step fs y r = Inr r3" "struct_step fs a r3 = Inr r2" by auto
  with r2 show ?case by simp
qed

lemma efold_permuted:
  assumes "independent fs" "mset xs = mset ys" "distinct (map fst xs)" "efold (struct_step fs) xs r = Inr r'"
  shows "efold (struct_step fs) ys r = Inr r'"
  using assms(2-4)
proof (induction ys arbitrary: xs r)
  case Nil
  then show ?case by simp
next
  case (Cons y ys)
  then have "y \<in> set xs" by (metis list.set_intros(1) set_mset_mset)
  then obtain as bs where xs: "xs = as @ y # bs" by (metis split_list)
  have "fst y \<notin> fst ` set as" using Cons.prems(2) by (auto simp: xs)
  from efold_to_front [OF assms(1) this Cons.prems(3) [unfolded xs]] obtain r1 where
    "struct_step fs y r = Inr r1" "efold (struct_step fs) (as @ bs) r1 = Inr r'" by (auto simp: ok_simps)
  moreover have "mset (as @ bs) = mset ys" "distinct (map fst (as @ bs))" using Cons.prems(1,2) by (auto simp: xs)
  ultimately show ?case using Cons.IH [of "as @ bs" r1] by simp
qed

section \<open>Through any and back\<close>

definition reread :: "jdoc \<Rightarrow> jdoc" where
  "reread d = json_val (dec_any d)"

definition reread_entry :: "string \<times> jdoc \<Rightarrow> string \<times> jdoc" where
  "reread_entry kd = (fst kd, reread (snd kd))"

lemma reread_simps [simp]:
  "reread JNull = JNull" "reread (JBool b) = JBool b" "reread (JNum m e) = JNum m e" "reread (JStr s) = JStr s"
  "reread (JArr ds) = JArr (map reread ds)"
  by (simp_all add: reread_def o_def)

lemma reread_int [simp]: "reread (json_int i) = json_int i"
  by (simp add: json_int_def split: prod.split)

lemma reread_object: "distinct (map fst kvs) \<Longrightarrow> reread (JObj kvs) = JObj (sort_key fst (map reread_entry kvs))"
proof -
  assume d: "distinct (map fst kvs)"
  then have "wf_map (map (\<lambda>kv. (fst kv, dec_any (snd kv))) kvs)" by (simp add: wf_map_def o_def)
  moreover have "map (\<lambda>kv. (fst kv, json_val (snd kv))) (map (\<lambda>kv. (fst kv, dec_any (snd kv))) kvs) = map reread_entry kvs"
    by (simp add: reread_entry_def reread_def)
  ultimately show ?thesis by (simp add: reread_def json_object_def del: map_map)
qed

lemma canon_val_idem [simp]: "canon_val (canon_val v) = canon_val v"
proof (induction v)
  case (VObj kvs)
  let ?c = "\<lambda>kv. (fst kv, canon_val (snd kv))"
  have "map ?c (map ?c kvs) = map ?c kvs" using VObj by auto
  moreover have "map ?c (sort_key fst (map ?c kvs)) = sort_key fst (map ?c (map ?c kvs))"
    by (rule sort_map_snd [symmetric])
  ultimately have "map ?c (sort_key fst (map ?c kvs)) = sort_key fst (map ?c kvs)" by (simp only:)
  then show ?case by (simp add: sort_key_id_if_sorted del: map_map)
qed (auto simp: canon_float_def split: prod.splits)

lemma wf_canon_val: "wf_val v \<Longrightarrow> wf_val (canon_val v)"
proof (induction v)
  case (VObj kvs)
  then have "wf_map (map (\<lambda>kv. (fst kv, canon_val (snd kv))) kvs)" by (simp add: wf_map_def o_def)
  with VObj show ?case by (auto simp: list_all_iff)
qed (auto simp: list_all_iff canon_float_def split: prod.splits)

lemma dec_any_reread: "wf_val v \<Longrightarrow> dec_any (reread (json_val v)) = canon_val v"
  by (simp add: reread_def dec_any_json_val wf_canon_val)

lemma dec_struct_reread:
  assumes "independent fs" "distinct (map fst kvs)" "\<forall>n\<in>set (map fst fs). plain n" "\<forall>n\<in>set (map fst kvs). plain n"
    and "efold (struct_step fs) (map reread_entry kvs) r = Inr r'"
  shows "dec_struct fs (reread (JObj kvs)) r = Inr r'"
proof -
  let ?kvs = "sort_key fst (map reread_entry kvs)"
  have keys: "map fst (map reread_entry kvs) = map fst kvs" by (simp add: reread_entry_def o_def)
  have "mset (map reread_entry kvs) = mset ?kvs" by simp
  then have "efold (struct_step fs) ?kvs r = Inr r'"
    using assms(1,2,5) keys by (metis efold_permuted)
  moreover have "\<forall>n\<in>set (map fst ?kvs). plain n" using assms(4) keys by (metis set_map set_sort)
  ultimately show ?thesis
    using dec_struct_plain [OF assms(3)] by (simp add: reread_object assms(2) struct_step_def)
qed

lemma property_independent: "independent property_fields"
  unfolding independent_def property_fields_def
  by (simp del: conj_assoc) (intro conjI on_field_commutes; simp)

lemma dec_property_reread:
  assumes "wf_property p"
  shows "dec_property (reread (json_property p)) zero_property = Inr (canon_property p)"
proof -
  let ?kvs = "[(''value'', json_val (p_Value p)), (''mutability'', JStr (p_Mutability p)),
     (''authority_scope'', JStr (p_AuthorityScope p)), (''stratum_origin'', json_int (p_StratumOrigin p))]
     @ opt_str ''validation_type'' (p_ValidationType p)"
  have plain: "\<forall>n\<in>set (map fst ?kvs). plain n"
    using property_names_plain by (simp add: property_fields_def opt_str_def opt_def)
  have "distinct (map fst ?kvs)" by (simp add: opt_str_def opt_def)
  from dec_struct_reread [OF property_independent this property_names_plain plain, of zero_property "canon_property p"] assms
  show ?thesis unfolding dec_property_def json_property_def
    by (cases p) (simp add: reread_entry_def struct_step_def property_fields_def on_field_def dec_val_def dec_any_reread
        dec_int_json wf_property_def opt_str_def opt_def zero_property_def canon_property_def)
qed

lemma dec_properties_reread:
  assumes "wf_properties m"
  shows "dec_properties (reread (json_of_map json_property m)) [] = Inr (canon_properties m)"
proof -
  let ?k = "sort_key fst m" and ?e = "\<lambda>(k, p). (k, json_property p)"
  let ?g = "\<lambda>d. case dec_property d zero_property of Inr p \<Rightarrow> p | Inl _ \<Rightarrow> zero_property"
  have p: "wf_property p" if "(k, p) \<in> set m" for k p
    using assms that by (auto simp: wf_properties_def)
  have dist: "distinct (map fst ?k)" using assms by (simp add: wf_properties_def wf_map_def distinct_sort_key)
  have sorted: "sort_key fst (map reread_entry (map ?e ?k)) = map (\<lambda>(k, p). (k, reread (json_property p))) ?k"
  proof -
    have "map reread_entry (map ?e ?k) = map (\<lambda>(k, p). (k, reread (json_property p))) ?k"
      by (auto simp: reread_entry_def)
    moreover have "sort_key fst (map (\<lambda>(k, p). (k, reread (json_property p))) ?k) =
        map (\<lambda>(k, p). (k, reread (json_property p))) ?k"
      by (simp add: sort_map_kv sort_key_id_if_sorted)
    ultimately show ?thesis by (simp only:)
  qed
  have "distinct (map fst (map ?e ?k))" using dist by (simp add: split_def o_def)
  then have "reread (JObj (map ?e ?k)) = JObj (map (\<lambda>(k, p). (k, reread (json_property p))) ?k)"
    by (simp only: reread_object sorted)
  moreover have "json_of_map json_property m = JObj (map ?e ?k)"
    by (simp add: json_of_map_def json_object_def sort_map_kv)
  ultimately have doc: "reread (json_of_map json_property m) = JObj (map (\<lambda>(k, p). (k, reread (json_property p))) ?k)"
    by (simp only:)
  have "efold (dec_entry zero_property dec_property) (map (\<lambda>(k, p). (k, reread (json_property p))) ?k) [] =
      Inr ([] @ map (\<lambda>(k, d). (k, ?g d)) (map (\<lambda>(k, p). (k, reread (json_property p))) ?k))"
  proof (rule dec_entries)
    show "distinct (map fst [] @ map fst (map (\<lambda>(k, p). (k, reread (json_property p))) ?k))"
      using dist by (simp add: split_def o_def)
  qed (auto simp: dec_property_reread p)
  also have "map (\<lambda>(k, d). (k, ?g d)) (map (\<lambda>(k, p). (k, reread (json_property p))) ?k) =
      map (\<lambda>(k, p). (k, canon_property p)) ?k"
    using p by (auto simp: dec_property_reread)
  finally show ?thesis by (simp add: dec_properties_def doc sort_map_kv canon_properties_def)
qed

section \<open>Envelopes\<close>

lemma envelope_independent: "independent envelope_fields"
  unfolding independent_def envelope_fields_def
  by (simp del: conj_assoc) (intro conjI on_field_commutes; simp)

text \<open>The keys of a printed envelope come in the order of the attributes, so none is repeated.\<close>

lemma subseq_opt: "subseq (map fst xs) ns \<Longrightarrow> subseq (map fst (opt c k d @ xs)) (k # ns)"
  by (auto simp: opt_def)

lemma subseq_opt_str: "subseq (map fst xs) ns \<Longrightarrow> subseq (map fst (opt_str k v @ xs)) (k # ns)"
  unfolding opt_str_def by (rule subseq_opt)

lemma subseq_keeps_distinct: "subseq xs ys \<Longrightarrow> distinct ys \<Longrightarrow> distinct xs"
proof (induction rule: list_emb.induct)
  case (list_emb_Cons2 x y xs ys)
  then show ?case by (auto dest: list_emb_set)
qed simp_all

lemma envelope_keys_subseq:
  assumes "json_envelope e = JObj kvs"
  shows "subseq (map fst kvs) (map fst envelope_fields)"
proof -
  have spec: "subseq (map fst (case q of None \<Rightarrow> [] | Some p \<Rightarrow> [(''property_spec'', json_property p)])) [''property_spec'']" for q
    by (cases q) auto
  show ?thesis
    unfolding assms [unfolded json_envelope_def jdoc.inject, symmetric] envelope_fields_def list.map fst_conv
    by (intro subseq_Cons2 subseq_opt subseq_opt_str spec)
qed

lemma map_reread_opt: "map reread_entry (opt c k d @ xs) = opt c k (reread d) @ map reread_entry xs"
  by (simp add: opt_def reread_entry_def)

lemma map_reread_opt_str: "map reread_entry (opt_str k v @ xs) = opt_str k v @ map reread_entry xs"
  by (cases "v = ''''") (simp_all add: opt_str_def opt_def reread_entry_def)

lemma env_step_reread:
  "wf_properties m \<Longrightarrow> e_Properties r = [] \<Longrightarrow>
   efold env_step (opt (m \<noteq> []) ''properties'' (reread (json_of_map json_property m)) @ xs) r =
   efold env_step xs (r\<lparr> e_Properties := canon_properties m \<rparr>)"
  "wf_val v \<Longrightarrow> e_NewValue r = VNil \<Longrightarrow>
   efold env_step (opt (v \<noteq> VNil) ''new_value'' (reread (json_val v)) @ xs) r =
   efold env_step xs (r\<lparr> e_NewValue := canon_val v \<rparr>)"
  by (cases r; auto simp: opt_def env_step_def envelope_fields_def on_field_def dec_properties_reread dec_val_def
      dec_any_reread)+

lemma env_step_spec_reread:
  assumes "\<forall>p. q = Some p \<longrightarrow> wf_property p" "e_PropertySpec r = None"
  shows "efold env_step (map reread_entry (case q of None \<Rightarrow> [] | Some p \<Rightarrow> [(''property_spec'', json_property p)])) r =
     Inr (r\<lparr> e_PropertySpec := map_option canon_property q \<rparr>)"
proof (cases q)
  case (Some p)
  have "\<exists>kvs. reread (json_property p) = JObj kvs"
    by (auto simp: json_property_def reread_def json_object_def)
  then have "dec_ptr zero_property dec_property (reread (json_property p)) None = Inr (Some (canon_property p))"
    using assms(1) Some dec_property_reread [of p] by auto
  with Some assms(2) show ?thesis
    by (cases r) (simp add: env_step_def envelope_fields_def on_field_def reread_entry_def)
next
  case None
  with assms(2) show ?thesis by (cases r) simp
qed

lemma dec_envelope_reread:
  assumes "wf_envelope e"
  shows "dec_envelope (reread (json_envelope e)) no_envelope = Inr (canon_envelope e)"
proof -
  obtain kvs where kvs: "json_envelope e = JObj kvs" by (simp add: json_envelope_def)
  note entries = kvs [unfolded json_envelope_def jdoc.inject, symmetric]
  have plain: "\<forall>n\<in>set (map fst kvs). plain n" using envelope_keys [OF kvs] envelope_names_plain by blast
  have names: "distinct (map fst envelope_fields)" by (simp add: envelope_fields_def)
  have dist: "distinct (map fst kvs)" using subseq_keeps_distinct [OF envelope_keys_subseq [OF kvs] names] .
  have "efold env_step (map reread_entry kvs) no_envelope = Inr (canon_envelope e)"
    using assms unfolding entries wf_envelope_def list.map map_reread_opt map_reread_opt_str
    by (cases e) (simp add: env_step_types env_step_strings env_step_reread env_step_version reread_entry_def
        env_step_spec_reread no_envelope_def canon_envelope_def)
  then have "efold (struct_step envelope_fields) (map reread_entry kvs) no_envelope = Inr (canon_envelope e)"
    by (simp add: env_step_def struct_step_def)
  from dec_struct_reread [OF envelope_independent dist envelope_names_plain plain this] show ?thesis
    by (simp add: dec_envelope_def kvs)
qed

end
