(* ===== verification/BootProperties.thy ===== *)
theory BootProperties
  imports Boot McpProperties
begin

text \<open>
  The properties of the command: what restarting with --seed does to a kernel that has its
  infrastructure, and that a token file closes every writing route of both servers.
\<close>

section \<open>Seeding what is there\<close>

text \<open>An envelope whose subject is in the state already.\<close>

definition settled :: "graph_state \<Rightarrow> envelope \<Rightarrow> bool" where
  "settled s env \<longleftrightarrow> validateEnvelopeStructure env = None \<and>
     (e_RewriteType env = ADD \<and> mget (Nodes s) (e_NodeURN env) \<noteq> None \<or>
      e_RewriteType env = LINK \<and> mget (Relations s) (e_RelationURN env) \<noteq> None \<and>
        mget (Nodes s) (e_SrcURN env) \<noteq> None \<and> mget (Nodes s) (e_TgtURN env) \<noteq> None)"

definition admitted :: "'s runtime \<Rightarrow> envelope \<Rightarrow> bool" where
  "admitted rt env \<longleftrightarrow> validate (rt_registry rt) env = None \<and>
     (e_RewriteType env = LINK \<longrightarrow>
        link_gates (rt_registry rt) env (rt_state rt) = None \<and> checkGatesLocked rt env = None)"

definition same_but_reads :: "'s runtime \<Rightarrow> 's runtime \<Rightarrow> bool" where
  "same_but_reads rt rt' \<longleftrightarrow> (\<exists>n. rt' = rt\<lparr> rt_reads := n \<rparr>)"

lemma same_but_reads_refl [simp]: "same_but_reads rt rt"
  by (metis same_but_reads_def runtime.surjective runtime.update_convs(11))

lemma same_but_reads_trans: "same_but_reads rt rt1 \<Longrightarrow> same_but_reads rt1 rt2 \<Longrightarrow> same_but_reads rt rt2"
  by (auto simp: same_but_reads_def)

lemma same_but_reads_clock: "same_but_reads rt (snd (read_clock K rt))"
  by (auto simp: same_but_reads_def read_clock_def)

lemma same_but_reads_fields:
  assumes "same_but_reads rt rt'"
  shows "rt_state rt' = rt_state rt" "rt_log rt' = rt_log rt" "admitted rt' = admitted rt"
  using assms by (auto simp: same_but_reads_def admitted_def checkGatesLocked_def fun_eq_iff)

lemma EvaluateAt_settled:
  assumes "settled s env"
  shows "\<exists>u. EvaluateAt s env t = Inl (ErrNodeExists u) \<or> EvaluateAt s env t = Inl (ErrRelationExists u)"
  using assms
  by (auto simp: settled_def EvaluateAt_def evaluateInPlace_def applyADD_def applyLINK_def split: option.splits)

lemma Seed_settled:
  assumes "settled (rt_state rt) env" "SeedIfAbsent K rt env = (rt', res)"
  shows "same_but_reads rt rt' \<and> (res = None \<longleftrightarrow> admitted rt env)"
proof (cases "validate (rt_registry rt) env")
  case (Some err)
  with assms(2) show ?thesis by (auto simp: SeedIfAbsent_def applyWithOptions_def apply_check_def admitted_def)
next
  case None
  obtain t where c: "read_clock K rt = (t, snd (read_clock K rt))" by (metis prod.collapse)
  have st: "rt_state (snd (read_clock K rt)) = rt_state rt" by (simp add: read_clock_def)
  have prep: "prepare_mutate rt env = Inr env" using assms(1) by (auto simp: settled_def prepare_mutate_def)
  have add: "link_gates (rt_registry rt) env (rt_state rt) = None \<and> checkGatesLocked rt env = None" if "e_RewriteType env = ADD"
    using that by (simp add: link_gates_def checkGatesLocked_def checkGatesAgainstState_def gate_targets_def)
  have kind: "e_RewriteType env = ADD \<or> e_RewriteType env = LINK" using assms(1) by (auto simp: settled_def)
  obtain u where "EvaluateAt (rt_state rt) env t = Inl (ErrNodeExists u) \<or> EvaluateAt (rt_state rt) env t = Inl (ErrRelationExists u)"
    using EvaluateAt_settled [OF assms(1)] by blast
  then have e: "(case EvaluateAt (rt_state rt) env t of Inl err \<Rightarrow> (snd (read_clock K rt), Inl (FoldErr err))
      | Inr (nx, q) \<Rightarrow> f nx q) = (snd (read_clock K rt), Inl (FoldErr (ErrNodeExists u))) \<or>
    (case EvaluateAt (rt_state rt) env t of Inl err \<Rightarrow> (snd (read_clock K rt), Inl (FoldErr err))
      | Inr (nx, q) \<Rightarrow> f nx q) = (snd (read_clock K rt), Inl (FoldErr (ErrRelationExists u)))" for f
    by auto
  show ?thesis
  proof (cases "link_gates (rt_registry rt) env (rt_state rt)")
    case (Some err)
    with assms(2) None prep kind add show ?thesis
      by (auto simp: SeedIfAbsent_def applyWithOptions_def apply_check_def apply_locked_def admitted_def)
  next
    case lg: None
    show ?thesis
    proof (cases "checkGatesLocked rt env")
      case (Some err)
      with assms(2) None prep kind add lg show ?thesis
        by (auto simp: SeedIfAbsent_def applyWithOptions_def apply_check_def apply_locked_def admitted_def)
    next
      case cg: None
      have "apply_locked K rt env = (snd (read_clock K rt), Inl (FoldErr (ErrNodeExists u))) \<or>
          apply_locked K rt env = (snd (read_clock K rt), Inl (FoldErr (ErrRelationExists u)))"
        unfolding apply_locked_def prep sum.case lg cg option.case
        by (subst (1 2) c) (simp only: prod.case st e)
      with assms(2) None lg cg same_but_reads_clock [of rt K] show ?thesis
        by (auto simp: SeedIfAbsent_def applyWithOptions_def apply_check_def admitted_def)
    qed
  qed
qed

lemma seed_all_settled:
  assumes "\<forall>(d, env)\<in>set es. settled (rt_state rt) env" "seed_all K es rt = (rt', res)"
  shows "same_but_reads rt rt' \<and> (res = None \<longleftrightarrow> (\<forall>(d, env)\<in>set es. admitted rt env))"
  using assms
proof (induction es arbitrary: rt)
  case Nil
  then show ?case by simp
next
  case (Cons de es)
  obtain d env where de: "de = (d, env)" by force
  obtain rt1 r where s: "SeedIfAbsent K rt env = (rt1, r)" by force
  have one: "same_but_reads rt rt1" "r = None \<longleftrightarrow> admitted rt env"
    using Seed_settled [OF _ s] Cons.prems(1) de by auto
  show ?case
  proof (cases r)
    case (Some err)
    with s one Cons.prems(2) de show ?thesis by auto
  next
    case None
    then have "seed_all K es rt1 = (rt', res)" using s Cons.prems(2) de by simp
    moreover have "\<forall>(d, env)\<in>set es. settled (rt_state rt1) env"
      using Cons.prems(1) same_but_reads_fields [OF one(1)] by simp
    ultimately have "same_but_reads rt1 rt' \<and> (res = None \<longleftrightarrow> (\<forall>(d, env)\<in>set es. admitted rt1 env))"
      by (rule Cons.IH [rotated])
    then show ?thesis using one None de same_but_reads_fields [OF one(1)] same_but_reads_trans by auto
  qed
qed

text \<open>C23: restarting with --seed a kernel that has its user, workstation, kernel and the two relations
  changes neither the state nor the log. It succeeds exactly when the ontology still admits the five
  envelopes and every guard of the three nodes still holds: one failing gate on them, and the
  command ends with a fatal error although there is nothing to seed.\<close>

theorem reseeding_exact:
  assumes "mget (Nodes (State rt)) (seed_user_urn user) \<noteq> None" "mget (Nodes (State rt)) (seed_ws_urn ws) \<noteq> None"
    "mget (Nodes (State rt)) (seed_kernel_urn ws) \<noteq> None"
    and "\<forall>(d, env)\<in>set (seed_links user ws). mget (Relations (State rt)) (e_RelationURN env) \<noteq> None"
    and "seedInfrastructure K H rt user ws = (rt', res)"
  shows "State rt' = State rt \<and> Log rt' = Log rt \<and>
    (res = None \<longleftrightarrow>
      (\<forall>(d, env)\<in>set (seed_nodes H user ws (rfc3339 (k_lib K) (fst (read_clock K rt))) @ seed_links user ws).
         validate (rt_registry rt) env = None) \<and>
      (\<forall>(d, env)\<in>set (seed_links user ws).
         link_gates (rt_registry rt) env (State rt) = None \<and> checkGatesAgainstState env (State rt) = None))"
proof -
  let ?now = "rfc3339 (k_lib K) (fst (read_clock K rt))" and ?rt = "snd (read_clock K rt)"
  let ?es = "seed_nodes H user ws ?now @ seed_links user ws"
  have clock: "same_but_reads rt ?rt" by (rule same_but_reads_clock)
  have run: "seed_all K ?es ?rt = (rt', res)"
    using assms(5) by (simp add: seedInfrastructure_def split: prod.splits)
  have "\<forall>(d, env)\<in>set ?es. settled (rt_state ?rt) env"
    using assms(1-4) same_but_reads_fields(1) [OF clock]
    by (simp add: seed_nodes_def seed_links_def seed_node_def seed_link_def settled_def validateEnvelopeStructure_def
        State_def seed_user_urn_def seed_ws_urn_def seed_kernel_urn_def)
  from seed_all_settled [OF this run] have all:
    "same_but_reads ?rt rt'" "res = None \<longleftrightarrow> (\<forall>(d, env)\<in>set ?es. admitted rt env)"
    using same_but_reads_fields(3) [OF clock] by simp_all
  have kinds: "\<forall>(d, env)\<in>set (seed_nodes H user ws ?now). e_RewriteType env = ADD"
    "\<forall>(d, env)\<in>set (seed_links user ws). e_RewriteType env = LINK"
    by (simp_all add: seed_nodes_def seed_links_def seed_node_def seed_link_def)
  have "(\<forall>(d, env)\<in>set ?es. admitted rt env) \<longleftrightarrow> (\<forall>(d, env)\<in>set ?es. validate (rt_registry rt) env = None) \<and>
    (\<forall>(d, env)\<in>set (seed_links user ws). link_gates (rt_registry rt) env (rt_state rt) = None \<and> checkGatesLocked rt env = None)"
    using kinds by (fastforce simp: admitted_def)
  with all same_but_reads_fields [OF same_but_reads_trans [OF clock all(1)]] show ?thesis
    by (simp add: State_def Log_def checkGatesLocked_def)
qed

section \<open>A token file\<close>

lemma configure_http_token: "configure_http fl registry token llm = (s, p) \<Longrightarrow> sv_authToken s = token"
  by (auto simp: configure_http_def NewServer_def SetAuthToken_def SetLLMToken_def EnableLLMProxy_def Let_def split: if_splits)

lemma moos_main_token:
  assumes "moos_main H fl = Inr b" "bo_http b = Some s"
  shows "\<exists>token. resolve_token H ''MOOS_AUTH_TOKEN'' (fl_auth_token_file fl) = Inr token \<and>
    sv_authToken s = token \<and> mc_authToken (bo_mcp b) = token"
proof -
  obtain token where t: "resolve_token H ''MOOS_AUTH_TOKEN'' (fl_auth_token_file fl) = Inr token"
    using assms(1) by (cases "resolve_token H ''MOOS_AUTH_TOKEN'' (fl_auth_token_file fl)") (simp_all add: moos_main_def)
  obtain llm where l: "resolve_token H ''MOOS_LLM_TOKEN'' (fl_llm_token_file fl) = Inr llm"
    using assms(1) t by (cases "resolve_token H ''MOOS_LLM_TOKEN'' (fl_llm_token_file fl)") (simp_all add: moos_main_def)
  obtain registry rt0 where k: "boot_kernel H fl = Inr (registry, rt0)"
    using assms(1) t l by (cases "boot_kernel H fl") (auto simp: moos_main_def)
  obtain s0 p where c: "configure_http fl registry token llm = (s0, p)" by force
  have "\<not> fl_stdio_only fl" using assms t l k by (auto simp: moos_main_def Let_def)
  with assms t l k c have "sv_authToken s = sv_authToken s0 \<and>
      mc_authToken (bo_mcp b) = mc_authToken (if token \<noteq> '''' then mcp_SetAuthToken token mcp_NewServer else mcp_NewServer)"
    by (simp add: moos_main_def Let_def split: if_splits) (auto simp: SetAltSvc_def)
  with t configure_http_token [OF c] show ?thesis by (simp add: mcp_SetAuthToken_def mcp_NewServer_def)
qed

text \<open>C20: a command started with --auth-token-file and serving HTTP holds the trimmed contents of that
  file, which are not empty, and no request to either server, HTTP or MCP, changes the state or the
  log of the kernel without that token in its Authorization header.\<close>

theorem token_file_closes_writes:
  assumes "moos_main H fl = Inr b" "fl_auth_token_file fl \<noteq> ''''" "bo_http b = Some s"
  shows "\<exists>raw. ho_ReadFile H (fl_auth_token_file fl) = Some raw \<and> TrimSpace raw \<noteq> '''' \<and>
    (\<forall>(W :: 's web) rt rq rt' r. Handler W s rt rq = (rt', r) \<longrightarrow> State rt' \<noteq> State rt \<or> Log rt' \<noteq> Log rt \<longrightarrow>
       validBearer (rq_Auth rq) (TrimSpace raw)) \<and>
    (\<forall>(V :: 't web) m rt rq m' rt' r. mc_authToken m = mc_authToken (bo_mcp b) \<longrightarrow> mcp_Handler V rq m rt = ((m', rt'), r) \<longrightarrow>
       State rt' \<noteq> State rt \<or> Log rt' \<noteq> Log rt \<longrightarrow> mcp_validBearer (rq_Auth rq) (TrimSpace raw))"
proof -
  obtain token where t: "resolve_token H ''MOOS_AUTH_TOKEN'' (fl_auth_token_file fl) = Inr token"
    "sv_authToken s = token" "mc_authToken (bo_mcp b) = token" using moos_main_token [OF assms(1,3)] by blast
  then obtain raw where raw: "ho_ReadFile H (fl_auth_token_file fl) = Some raw" "token = TrimSpace raw" "token \<noteq> ''''"
    using assms(2) by (auto simp: resolve_token_def Let_def split: option.splits if_splits)
  have http: "validBearer (rq_Auth rq) token" if "Handler W s rt rq = (rt', r)" "State rt' \<noteq> State rt \<or> Log rt' \<noteq> Log rt"
    for W :: "'s web" and rt rq rt' r
    using Handler_writes [OF that] t(2) raw(3) by simp
  have mcp: "mcp_validBearer (rq_Auth rq) token" if "mc_authToken m = mc_authToken (bo_mcp b)"
      "mcp_Handler V rq m rt = ((m', rt'), r)" "State rt' \<noteq> State rt \<or> Log rt' \<noteq> Log rt"
    for V :: "'t web" and m rt rq m' rt' r
    using mcp_Handler_writes [OF that(2,3)] that(1) t(3) raw(3) by simp
  show ?thesis
  proof (rule exI [of _ raw], intro conjI allI impI)
    show "ho_ReadFile H (fl_auth_token_file fl) = Some raw" "TrimSpace raw \<noteq> ''''" using raw by simp_all
  next
    fix W :: "'s web" and rt rq rt' r
    assume "Handler W s rt rq = (rt', r)" "State rt' \<noteq> State rt \<or> Log rt' \<noteq> Log rt"
    from http [OF this] raw(2) show "validBearer (rq_Auth rq) (TrimSpace raw)" by simp
  next
    fix V :: "'t web" and m rt rq m' rt' r
    assume "mc_authToken m = mc_authToken (bo_mcp b)" "mcp_Handler V rq m rt = ((m', rt'), r)"
      "State rt' \<noteq> State rt \<or> Log rt' \<noteq> Log rt"
    from mcp [OF this] raw(2) show "mcp_validBearer (rq_Auth rq) (TrimSpace raw)" by simp
  qed
qed

section \<open>No ontology\<close>





section \<open>Examples\<close>

text \<open>A host with a token in the file \<open>t\<close>, and a command line that names it.\<close>

definition ex_host :: host where
  "ex_host = \<lparr> ho_lib = ex_golib, ho_drifted = (\<lambda>_. []), ho_Getenv = (\<lambda>_. ''''),
     ho_ReadFile = (\<lambda>p. if p = ''t'' then Some ''key'' else None), ho_parse = (\<lambda>_. None), ho_lock = (\<lambda>_. True),
     ho_disk = [], ho_proc_version = True, ho_GOARCH = ''amd64'', ho_quote = id \<rparr>"

definition ex_flags :: flags where
  "ex_flags = default_flags\<lparr> fl_auth_token_file := ''t'' \<rparr>"


definition ex_seeded :: "persisted_rewrite list runtime" where
  "ex_seeded = fst (seedInfrastructure ex_kenv ex_host (ex_rt [] None) ''sam'' ''hp'')"

text \<open>A first start writes five rewrites, a second one none.\<close>

lemma ex_seeded_log: "length (rt_log ex_seeded) = 5"
  by code_simp

theorem reseeding_exact_witness:
  "Log (fst (seedInfrastructure ex_kenv ex_host ex_seeded ''sam'' ''hp'')) = Log ex_seeded"
proof -
  obtain rt' res where run: "seedInfrastructure ex_kenv ex_host ex_seeded ''sam'' ''hp'' = (rt', res)" by force
  have "\<not> Option.is_none (mget (Nodes (rt_state ex_seeded)) (seed_user_urn ''sam''))"
    "\<not> Option.is_none (mget (Nodes (rt_state ex_seeded)) (seed_ws_urn ''hp''))"
    "\<not> Option.is_none (mget (Nodes (rt_state ex_seeded)) (seed_kernel_urn ''hp''))"
    "list_all (\<lambda>(d, env). \<not> Option.is_none (mget (Relations (rt_state ex_seeded)) (e_RelationURN env))) (seed_links ''sam'' ''hp'')"
    by code_simp+
  then have "mget (Nodes (State ex_seeded)) (seed_user_urn ''sam'') \<noteq> None"
    "mget (Nodes (State ex_seeded)) (seed_ws_urn ''hp'') \<noteq> None"
    "mget (Nodes (State ex_seeded)) (seed_kernel_urn ''hp'') \<noteq> None"
    "\<forall>(d, env)\<in>set (seed_links ''sam'' ''hp''). mget (Relations (State ex_seeded)) (e_RelationURN env) \<noteq> None"
    by (auto simp: State_def list_all_iff Option.is_none_def)
  from reseeding_exact [OF this run] run show ?thesis by simp
qed

theorem token_file_closes_writes_witness:
  "\<exists>b s. moos_main ex_host ex_flags = Inr b \<and> bo_http b = Some s \<and>
     \<not> (\<exists>(W :: persisted_rewrite list web) rt rq rt' r. rq_Auth rq = '''' \<and> Handler W s rt rq = (rt', r) \<and> Log rt' \<noteq> Log rt)"
proof -
  have "case moos_main ex_host ex_flags of Inl _ \<Rightarrow> False | Inr b \<Rightarrow> \<not> Option.is_none (bo_http b)" by code_simp
  then obtain b s where b: "moos_main ex_host ex_flags = Inr b" "bo_http b = Some s"
    by (auto simp: Option.is_none_def split: sum.splits)
  have "fl_auth_token_file ex_flags \<noteq> ''''" by (simp add: ex_flags_def)
  from token_file_closes_writes [where 's = "persisted_rewrite list", OF b(1) this b(2)] obtain tok where
    "\<forall>(W :: persisted_rewrite list web) rt rq rt' r. Handler W s rt rq = (rt', r) \<longrightarrow>
       State rt' \<noteq> State rt \<or> Log rt' \<noteq> Log rt \<longrightarrow> validBearer (rq_Auth rq) tok" by blast
  moreover have "\<not> validBearer '''' tok" by (simp add: validBearer_def)
  ultimately show ?thesis using b by metis
qed

end
