(* ===== verification/Hdc.thy ===== *)
theory Hdc
  imports GoText GraphState "HOL-Library.Word"
begin

unbundle bit_operations_syntax

text \<open>
  internal/hdc/hdc.go and encode.go: hypervectors and the graded encoding of relations and nodes. Go's
  float32 and float64 are the types \<open>'f\<close> and \<open>'d\<close>, and their arithmetic, with package math and the coin
  of a seeded math/rand source, is the record \<open>mathlib\<close>: every theorem about encodings holds for any
  rounding. An array is a list of its length; sums are taken in the order of the loops. The codebook
  is passed through, as the code fills it on the way.
\<close>

record ('f, 'd) mathlib =
  zero32 :: 'f
  one32 :: 'f
  minus_one32 :: 'f
  add32 :: "'f \<Rightarrow> 'f \<Rightarrow> 'f"
  sub32 :: "'f \<Rightarrow> 'f \<Rightarrow> 'f"
  mul32 :: "'f \<Rightarrow> 'f \<Rightarrow> 'f"
  div32 :: "'f \<Rightarrow> 'f \<Rightarrow> 'f"
  widen :: "'f \<Rightarrow> 'd"
  narrow :: "'d \<Rightarrow> 'f"
  lit :: "int \<Rightarrow> int \<Rightarrow> 'd"
  add64 :: "'d \<Rightarrow> 'd \<Rightarrow> 'd"
  sub64 :: "'d \<Rightarrow> 'd \<Rightarrow> 'd"
  mul64 :: "'d \<Rightarrow> 'd \<Rightarrow> 'd"
  div64 :: "'d \<Rightarrow> 'd \<Rightarrow> 'd"
  neg64 :: "'d \<Rightarrow> 'd"
  less64 :: "'d \<Rightarrow> 'd \<Rightarrow> bool"
  leq64 :: "'d \<Rightarrow> 'd \<Rightarrow> bool"
  eq64 :: "'d \<Rightarrow> 'd \<Rightarrow> bool"
  Sqrt :: "'d \<Rightarrow> 'd"
  Abs64 :: "'d \<Rightarrow> 'd"
  Log64 :: "'d \<Rightarrow> 'd"
  Cos64 :: "'d \<Rightarrow> 'd"
  Sin64 :: "'d \<Rightarrow> 'd"
  Atan2 :: "'d \<Rightarrow> 'd \<Rightarrow> 'd"
  Min64 :: "'d \<Rightarrow> 'd \<Rightarrow> 'd"
  Max64 :: "'d \<Rightarrow> 'd \<Rightarrow> 'd"
  Intn2 :: "int \<Rightarrow> nat \<Rightarrow> nat"

text \<open>\<open>lit m e\<close> is the constant m * 10^e, \<open>Intn2 seed i\<close> the i-th \<^verbatim>\<open>Intn(2)\<close> of a source.\<close>

definition zero64 :: "('f, 'd) mathlib \<Rightarrow> 'd" where
  "zero64 M = lit M 0 0"

definition one64 :: "('f, 'd) mathlib \<Rightarrow> 'd" where
  "one64 M = lit M 1 0"

text \<open>\<^verbatim>\<open>var s float64; for i := range n { s += f(i) }\<close>\<close>

definition sum64 :: "('f, 'd) mathlib \<Rightarrow> (nat \<Rightarrow> 'd) \<Rightarrow> nat \<Rightarrow> 'd" where
  "sum64 M f n = foldl (\<lambda>s i. add64 M s (f i)) (zero64 M) [0..<n]"

text \<open>sort.Slice, by insertion: where the order is total on the elements every sort agrees.\<close>

fun insert_by :: "('a \<Rightarrow> 'a \<Rightarrow> bool) \<Rightarrow> 'a \<Rightarrow> 'a list \<Rightarrow> 'a list" where
  "insert_by lt x [] = [x]"
| "insert_by lt x (y # ys) = (if lt y x then y # insert_by lt x ys else x # y # ys)"

definition sort_slice :: "('a \<Rightarrow> 'a \<Rightarrow> bool) \<Rightarrow> 'a list \<Rightarrow> 'a list" where
  "sort_slice lt xs = foldr (insert_by lt) xs []"

section \<open>Hypervectors\<close>

definition Dimension :: nat where
  "Dimension = 10000"

type_synonym 'f hv = "'f list"

definition tabulate :: "(nat \<Rightarrow> 'f) \<Rightarrow> 'f hv" where
  "tabulate f = map f [0..<Dimension]"

definition zeroHV :: "('f, 'd) mathlib \<Rightarrow> 'f hv" where
  "zeroHV M = tabulate (\<lambda>_. zero32 M)"

type_synonym 'f codebook = "(urn, 'f hv) gomap"

definition NewCodebook :: "'f codebook" where
  "NewCodebook = []"

text \<open>FNV-1a over the bytes, read as a signed number.\<close>

definition urnSeed :: "urn \<Rightarrow> int" where
  "urnSeed u = sint (foldl (\<lambda>h c. (h XOR of_nat (of_char c)) * 1099511628211)
     (14695981039346656037 :: 64 word) u)"

definition basis :: "('f, 'd) mathlib \<Rightarrow> urn \<Rightarrow> 'f hv" where
  "basis M u = tabulate (\<lambda>i. if Intn2 M (urnSeed u) i = 0 then minus_one32 M else one32 M)"

definition Encode :: "('f, 'd) mathlib \<Rightarrow> 'f codebook \<Rightarrow> urn \<Rightarrow> 'f hv \<times> 'f codebook" where
  "Encode M cb u =
     (case mget cb u of
        Some v \<Rightarrow> (v, cb)
      | None \<Rightarrow> let v = basis M u in (v, mput u v cb))"

definition Bind :: "('f, 'd) mathlib \<Rightarrow> 'f hv \<Rightarrow> 'f hv \<Rightarrow> 'f hv" where
  "Bind M a b = tabulate (\<lambda>i. mul32 M (a ! i) (b ! i))"

definition Unbind :: "('f, 'd) mathlib \<Rightarrow> 'f hv \<Rightarrow> 'f hv \<Rightarrow> 'f hv" where
  "Unbind M bound key = Bind M bound key"

definition superpose :: "('f, 'd) mathlib \<Rightarrow> 'f hv list \<Rightarrow> 'f hv" where
  "superpose M vs = foldl (\<lambda>out v. tabulate (\<lambda>i. add32 M (out ! i) (v ! i))) (zeroHV M) vs"

definition Bundle :: "('f, 'd) mathlib \<Rightarrow> 'f hv list \<Rightarrow> 'f hv" where
  "Bundle M vs =
     (let out = superpose M vs;
          normSq = sum64 M (\<lambda>i. widen M (mul32 M (out ! i) (out ! i))) Dimension
      in if vs = [] \<or> eq64 M normSq (zero64 M) then out
         else let norm = narrow M (Sqrt M normSq) in tabulate (\<lambda>i. div32 M (out ! i) norm))"

text \<open>Go's remainder has the sign of the dividend.\<close>

definition Permute :: "('f, 'd) mathlib \<Rightarrow> 'f hv \<Rightarrow> int \<Rightarrow> 'f hv" where
  "Permute M v k =
     (let rem = (if k < 0 then - ((- k) mod int Dimension) else k mod int Dimension);
          shift = (if rem < 0 then rem + int Dimension else rem)
      in if shift = 0 then v
         else foldl (\<lambda>out i. out[(i + nat shift) mod Dimension := v ! i]) (zeroHV M) [0..<Dimension])"

definition Cosine :: "('f, 'd) mathlib \<Rightarrow> 'f hv \<Rightarrow> 'f hv \<Rightarrow> 'f" where
  "Cosine M a b =
     (let af = (\<lambda>i. widen M (a ! i)); bf = (\<lambda>i. widen M (b ! i));
          dot = sum64 M (\<lambda>i. mul64 M (af i) (bf i)) Dimension;
          na = sum64 M (\<lambda>i. mul64 M (af i) (af i)) Dimension;
          nb = sum64 M (\<lambda>i. mul64 M (bf i) (bf i)) Dimension
      in if eq64 M na (zero64 M) \<or> eq64 M nb (zero64 M) then zero32 M
         else narrow M (div64 M dot (mul64 M (Sqrt M na) (Sqrt M nb))))"

section \<open>Encoding relations and nodes\<close>

definition typeWeight :: nat where
  "typeWeight = 6"

definition roleSrcURN :: urn where "roleSrcURN = ''urn:moos:hdc:role:src''"
definition roleTgtURN :: urn where "roleTgtURN = ''urn:moos:hdc:role:tgt''"
definition roleWfURN :: urn where "roleWfURN = ''urn:moos:hdc:role:wf''"
definition roleSPort :: urn where "roleSPort = ''urn:moos:hdc:role:src_port''"
definition roleTPort :: urn where "roleTPort = ''urn:moos:hdc:role:tgt_port''"
definition roleTypeURN :: urn where "roleTypeURN = ''urn:moos:hdc:role:type''"
definition roleSelfURN :: urn where "roleSelfURN = ''urn:moos:hdc:role:self''"
definition dirInURN :: urn where "dirInURN = ''urn:moos:hdc:dir:in''"
definition dirOutURN :: urn where "dirOutURN = ''urn:moos:hdc:dir:out''"

definition tokenURN :: "string \<Rightarrow> string \<Rightarrow> urn" where
  "tokenURN pre val =
     (let v0 = ToLower (TrimSpace val);
          v = (if v0 = '''' then ''empty'' else v0)
      in ''urn:moos:hdc:'' @ pre @ '':'' @ map (\<lambda>c. if c \<in> set '' /:.-'' then CHR ''_'' else c) v)"

definition encode_bound :: "('f, 'd) mathlib \<Rightarrow> urn \<Rightarrow> urn \<Rightarrow> 'f codebook \<Rightarrow> 'f hv \<times> 'f codebook" where
  "encode_bound M role filler cb =
     (case Encode M cb role of
        (r, cb1) \<Rightarrow> (case Encode M cb1 filler of (f, cb2) \<Rightarrow> (Bind M r f, cb2)))"

definition EncodeRelation :: "('f, 'd) mathlib \<Rightarrow> relation \<Rightarrow> 'f codebook \<Rightarrow> 'f hv \<times> 'f codebook" where
  "EncodeRelation M rel cb =
     (case encode_bound M roleSrcURN (r_SrcURN rel) cb of (src, cb1) \<Rightarrow>
      (case encode_bound M roleTgtURN (r_TgtURN rel) cb1 of (tgt, cb2) \<Rightarrow>
      (case encode_bound M roleWfURN (tokenURN ''wf'' (r_RewriteCategory rel)) cb2 of (cat, cb3) \<Rightarrow>
      (case encode_bound M roleSPort (tokenURN ''port'' (r_SrcPort rel)) cb3 of (sPort, cb4) \<Rightarrow>
      (case encode_bound M roleTPort (tokenURN ''port'' (r_TgtPort rel)) cb4 of (tPort, cb5) \<Rightarrow>
         (Bundle M [src, tgt, cat, sPort, tPort], cb5))))))"

text \<open>One wire of a node: out when the node is its source, in when it is only its target.\<close>

definition encode_wire :: "('f, 'd) mathlib \<Rightarrow> urn \<Rightarrow> relation \<Rightarrow> 'f codebook \<Rightarrow> 'f hv \<times> 'f codebook" where
  "encode_wire M u rel cb =
     (case EncodeRelation M rel cb of (wire, cb1) \<Rightarrow>
        (case Encode M cb1 (if r_SrcURN rel = u then dirOutURN else dirInURN) of
           (dir, cb2) \<Rightarrow> (Bind M dir wire, cb2)))"

fun encode_wires :: "('f, 'd) mathlib \<Rightarrow> urn \<Rightarrow> relation list \<Rightarrow> 'f codebook \<Rightarrow> 'f hv list \<times> 'f codebook" where
  "encode_wires M u [] cb = ([], cb)"
| "encode_wires M u (rel # rels) cb =
     (case encode_wire M u rel cb of (wire, cb1) \<Rightarrow>
        (case encode_wires M u rels cb1 of (wires, cb2) \<Rightarrow> (wire # wires, cb2)))"

definition touches :: "urn \<Rightarrow> relation \<Rightarrow> bool" where
  "touches u rel \<longleftrightarrow> r_SrcURN rel = u \<or> r_TgtURN rel = u"

definition encode_with :: "('f, 'd) mathlib \<Rightarrow> node \<Rightarrow> urn \<Rightarrow> relation list \<Rightarrow> 'f codebook \<Rightarrow> 'f hv \<times> 'f codebook" where
  "encode_with M nd u rels cb =
     (case encode_bound M roleTypeURN (tokenURN ''type'' (n_TypeID nd)) cb of (typeVec, cb1) \<Rightarrow>
      (case encode_bound M roleSelfURN u cb1 of (selfVec, cb2) \<Rightarrow>
      (case encode_wires M u rels cb2 of (wires, cb3) \<Rightarrow>
         (Bundle M (replicate typeWeight typeVec @ selfVec # wires), cb3))))"

definition EncodeNode :: "('f, 'd) mathlib \<Rightarrow> graph_state \<Rightarrow> urn \<Rightarrow> 'f codebook \<Rightarrow> 'f hv \<times> 'f codebook" where
  "EncodeNode M state u cb =
     (case mget (Nodes state) u of
        None \<Rightarrow> (zeroHV M, cb)
      | Some nd \<Rightarrow> encode_with M nd u (filter (touches u) (map snd (Relations state))) cb)"

section \<open>The batch\<close>

definition append_at :: "urn \<Rightarrow> relation \<Rightarrow> (urn, relation list) gomap \<Rightarrow> (urn, relation list) gomap" where
  "append_at u rel adj = mput u ((case mget adj u of None \<Rightarrow> [] | Some rels \<Rightarrow> rels) @ [rel]) adj"

definition adjacency :: "graph_state \<Rightarrow> (urn, relation list) gomap" where
  "adjacency state =
     foldl (\<lambda>adj rel.
         let adj1 = append_at (r_SrcURN rel) rel adj
         in if r_SrcURN rel \<noteq> r_TgtURN rel then append_at (r_TgtURN rel) rel adj1 else adj1)
       [] (map snd (Relations state))"

fun encode_batch ::
  "('f, 'd) mathlib \<Rightarrow> graph_state \<Rightarrow> (urn, relation list) gomap \<Rightarrow> urn list \<Rightarrow>
   (urn, 'f hv) gomap \<times> 'f codebook \<Rightarrow> (urn, 'f hv) gomap \<times> 'f codebook" where
  "encode_batch M state adj [] (out, cb) = (out, cb)"
| "encode_batch M state adj (u # urns) (out, cb) =
     (case mget (Nodes state) u of
        None \<Rightarrow> encode_batch M state adj urns (mput u (zeroHV M) out, cb)
      | Some nd \<Rightarrow>
          (case encode_with M nd u (case mget adj u of None \<Rightarrow> [] | Some rels \<Rightarrow> rels) cb of
             (v, cb') \<Rightarrow> encode_batch M state adj urns (mput u v out, cb')))"

definition EncodeNodes ::
  "('f, 'd) mathlib \<Rightarrow> graph_state \<Rightarrow> urn list \<Rightarrow> 'f codebook \<Rightarrow> (urn, 'f hv) gomap \<times> 'f codebook" where
  "EncodeNodes M state urns cb = encode_batch M state (adjacency state) urns ([], cb)"

end
