(* ===== verification/HdcFiber.thy ===== *)
theory HdcFiber
  imports Hdc
begin

text \<open>
  internal/hdc/fiber.go: which kernel of a federation a node belongs to, the vectors of a kernel's
  fiber and of the federation, the kernel each node is nearest to, and the type distributions.
  A nil encoder is one with an empty codebook.
\<close>

section \<open>Placement\<close>

definition KernelURNs :: "graph_state \<Rightarrow> urn list" where
  "KernelURNs state = sort (map fst (filter (\<lambda>(u, n). n_TypeID n = ''kernel'') (Nodes state)))"

definition kernelAlias :: "urn \<Rightarrow> string" where
  "kernelAlias k =
     (if CHR ''.'' \<notin> set k then ''''
      else rev (takeWhile (\<lambda>c. c \<noteq> CHR ''.'') (rev k)))"

definition hasAliasSegment :: "string \<Rightarrow> string \<Rightarrow> bool" where
  "hasAliasSegment urnText alias =
     (let parts = Split urnText CHR '':''
      in 3 \<le> length parts \<and>
         list_ex (\<lambda>seg. seg = alias \<or> HasSuffix seg (''.'' @ alias) \<or> HasPrefix seg (alias @ ''.'') \<or>
           Contains seg (''.'' @ alias @ ''.'')) (drop 2 parts))"

definition primaryKernel :: "urn list \<Rightarrow> urn" where
  "primaryKernel kernels =
     (case find (\<lambda>k. HasSuffix k ''.primary'') kernels of
        Some k \<Rightarrow> k
      | None \<Rightarrow> (case kernels of [] \<Rightarrow> '''' | k # _ \<Rightarrow> k))"

text \<open>The prefix a shard_rule node routes; it must be a string that is not blank.\<close>

definition shard_prefix :: "node \<Rightarrow> string option" where
  "shard_prefix nd =
     (if n_TypeID nd \<noteq> ''shard_rule'' then None
      else case mget (n_Properties nd) ''urn_prefix'' of
          Some p \<Rightarrow> (case p_Value p of VStr s \<Rightarrow> if TrimSpace s = '''' then None else Some s | _ \<Rightarrow> None)
        | None \<Rightarrow> None)"

fun shard_routes :: "urn \<Rightarrow> string \<Rightarrow> urn list \<Rightarrow> relation list \<Rightarrow> (string, urn) gomap \<Rightarrow> (string, urn) gomap" where
  "shard_routes shard pre kernels [] out = out"
| "shard_routes shard pre kernels (rel # rels) out =
     shard_routes shard pre kernels rels
       (if r_SrcURN rel = shard \<and> r_SrcPort rel = ''routes-to'' \<and> r_TgtURN rel \<in> set kernels
        then mput pre (r_TgtURN rel) out else out)"

fun shard_map :: "(urn, node) gomap \<Rightarrow> relation list \<Rightarrow> urn list \<Rightarrow> (string, urn) gomap \<Rightarrow> (string, urn) gomap" where
  "shard_map [] rels kernels out = out"
| "shard_map ((u, nd) # nodes) rels kernels out =
     shard_map nodes rels kernels
       (case shard_prefix nd of None \<Rightarrow> out | Some pre \<Rightarrow> shard_routes u pre kernels rels out)"

definition shardPrefixToKernelMap :: "graph_state \<Rightarrow> urn list \<Rightarrow> (string, urn) gomap" where
  "shardPrefixToKernelMap state kernels = shard_map (Nodes state) (map snd (Relations state)) kernels []"

text \<open>The steps of the placement in their order: the kernel itself, what its URN prefixes, what names its
  alias, what a shard rule routes, the primary kernel.\<close>

definition inferCurrentKernel :: "graph_state \<Rightarrow> urn list \<Rightarrow> urn \<Rightarrow> urn" where
  "inferCurrentKernel state kernels u =
     (if kernels = [] then ''''
      else if u \<in> set kernels then u
      else case find (\<lambda>k. HasPrefix u (k @ '':'') \<or> HasPrefix u (k @ ''.'')) kernels of
          Some k \<Rightarrow> k
        | None \<Rightarrow>
            (case find (\<lambda>k. kernelAlias k \<noteq> '''' \<and> kernelAlias k \<noteq> ''primary'' \<and> hasAliasSegment u (kernelAlias k)) kernels of
               Some k \<Rightarrow> k
             | None \<Rightarrow>
                 (case find (\<lambda>(pre, _). HasPrefix u pre) (shardPrefixToKernelMap state kernels) of
                    Some (_, k) \<Rightarrow> k
                  | None \<Rightarrow> if primaryKernel kernels \<noteq> '''' then primaryKernel kernels else hd kernels)))"

definition NodesInKernel :: "graph_state \<Rightarrow> urn \<Rightarrow> urn list" where
  "NodesInKernel state k =
     sort (filter (\<lambda>u. inferCurrentKernel state (KernelURNs state) u = k) (map fst (Nodes state)))"

section \<open>Fibers\<close>

text \<open>A missing key of a Go map of arrays is the zero array.\<close>

definition vec_of :: "('f, 'd) mathlib \<Rightarrow> (urn, 'f hv) gomap \<Rightarrow> urn \<Rightarrow> 'f hv" where
  "vec_of M m u = (case mget m u of None \<Rightarrow> zeroHV M | Some v \<Rightarrow> v)"

definition EncodeFiber :: "('f, 'd) mathlib \<Rightarrow> graph_state \<Rightarrow> urn \<Rightarrow> 'f codebook \<Rightarrow> 'f hv \<times> 'f codebook" where
  "EncodeFiber M state k cb =
     (let nodeURNs = NodesInKernel state k
      in case EncodeNodes M state nodeURNs cb of
           (batch, cb') \<Rightarrow> (Bundle M (map (vec_of M batch) nodeURNs), cb'))"

definition EncodeFederation :: "('f, 'd) mathlib \<Rightarrow> (urn, 'f hv) gomap \<Rightarrow> 'f hv" where
  "EncodeFederation M fibers =
     (if fibers = [] then zeroHV M else Bundle M (map (vec_of M fibers) (sort (mkeys fibers))))"

fun fibers_from ::
  "('f, 'd) mathlib \<Rightarrow> graph_state \<Rightarrow> urn list \<Rightarrow> (urn, 'f hv) gomap \<times> 'f codebook \<Rightarrow> (urn, 'f hv) gomap \<times> 'f codebook" where
  "fibers_from M state [] (out, cb) = (out, cb)"
| "fibers_from M state (k # ks) (out, cb) =
     (case EncodeFiber M state k cb of (v, cb') \<Rightarrow> fibers_from M state ks (mput k v out, cb'))"

text \<open>With a nil encoder each fiber gets its own fresh codebook.\<close>

definition FiberVectorsByKernel ::
  "('f, 'd) mathlib \<Rightarrow> graph_state \<Rightarrow> 'f codebook option \<Rightarrow> (urn, 'f hv) gomap \<times> 'f codebook option" where
  "FiberVectorsByKernel M state enc =
     (case enc of
        Some cb \<Rightarrow> (case fibers_from M state (KernelURNs state) ([], cb) of (out, cb') \<Rightarrow> (out, Some cb'))
      | None \<Rightarrow> (foldl (\<lambda>out k. mput k (fst (EncodeFiber M state k NewCodebook)) out) [] (KernelURNs state), None))"

definition l2Distance :: "('f, 'd) mathlib \<Rightarrow> 'f hv \<Rightarrow> 'f hv \<Rightarrow> 'd" where
  "l2Distance M a b =
     Sqrt M (sum64 M (\<lambda>i. let d = widen M (sub32 M (a ! i) (b ! i)) in mul64 M d d) Dimension)"

section \<open>Assignments\<close>

record 'd assignment =
  fa_URN :: urn
  fa_CurrentKernel :: urn
  fa_OptimalKernel :: urn
  fa_Distance :: 'd

fun nearest ::
  "('f, 'd) mathlib \<Rightarrow> 'f hv \<Rightarrow> (urn, 'f hv) gomap \<Rightarrow> urn list \<Rightarrow> urn \<times> 'd \<Rightarrow> urn \<times> 'd" where
  "nearest M v fibers [] best = best"
| "nearest M v fibers (k # ks) best =
     (let d = l2Distance M v (vec_of M fibers k)
      in nearest M v fibers ks (if less64 M d (snd best) then (k, d) else best))"

definition assignment_of ::
  "('f, 'd) mathlib \<Rightarrow> graph_state \<Rightarrow> urn list \<Rightarrow> (urn, 'f hv) gomap \<Rightarrow> (urn, 'f hv) gomap \<Rightarrow> urn \<Rightarrow> 'd assignment" where
  "assignment_of M state kernels fibers batch u =
     (let v = vec_of M batch u;
          best = nearest M v fibers (tl kernels) (hd kernels, l2Distance M v (vec_of M fibers (hd kernels)))
      in \<lparr> fa_URN = u, fa_CurrentKernel = inferCurrentKernel state kernels u, fa_OptimalKernel = fst best,
           fa_Distance = snd best \<rparr>)"

definition FiberAssignments ::
  "('f, 'd) mathlib \<Rightarrow> graph_state \<Rightarrow> 'f codebook \<Rightarrow> 'd assignment list \<times> 'f codebook" where
  "FiberAssignments M state cb =
     (let kernels = KernelURNs state
      in if kernels = [] then ([], cb)
         else case fibers_from M state kernels ([], cb) of
           (fibers, cb1) \<Rightarrow>
             let urns = sort (mkeys (Nodes state))
             in (case EncodeNodes M state urns cb1 of
                   (batch, cb2) \<Rightarrow> (map (assignment_of M state kernels fibers batch) urns, cb2)))"

section \<open>Distributions\<close>

type_synonym 'd dist = "(type_id, 'd) gomap"

definition weight_of :: "('f, 'd) mathlib \<Rightarrow> 'd dist \<Rightarrow> type_id \<Rightarrow> 'd" where
  "weight_of M p t = (case mget p t of None \<Rightarrow> zero64 M | Some x \<Rightarrow> x)"

definition count_types :: "('f, 'd) mathlib \<Rightarrow> node list \<Rightarrow> 'd dist" where
  "count_types M nds =
     foldl (\<lambda>counts nd. mput (n_TypeID nd) (add64 M (weight_of M counts (n_TypeID nd)) (one64 M)) counts) [] nds"

definition normalizeDistribution :: "('f, 'd) mathlib \<Rightarrow> 'd dist \<Rightarrow> 'd dist" where
  "normalizeDistribution M counts =
     (let total = foldl (\<lambda>s kv. add64 M s (snd kv)) (zero64 M) counts
      in if eq64 M total (zero64 M) then []
         else map (\<lambda>(t, x). (t, div64 M x total)) counts)"

definition klDivergence :: "('f, 'd) mathlib \<Rightarrow> 'd dist \<Rightarrow> 'd dist \<Rightarrow> 'd" where
  "klDivergence M p q =
     foldl (\<lambda>out (k, pv).
         if leq64 M pv (zero64 M) then out
         else let qv = weight_of M q k
           in if leq64 M qv (zero64 M) then out
              else add64 M out (mul64 M pv (div64 M (Log64 M (div64 M pv qv)) (Log64 M (lit M 2 0)))))
       (zero64 M) p"

definition JensenShannonDivergence :: "('f, 'd) mathlib \<Rightarrow> 'd dist \<Rightarrow> 'd dist \<Rightarrow> 'd" where
  "JensenShannonDivergence M p q =
     (let keys = remdups (mkeys p @ mkeys q);
          m = map (\<lambda>k. (k, mul64 M (lit M 5 (-1)) (add64 M (weight_of M p k) (weight_of M q k)))) keys
      in add64 M (mul64 M (lit M 5 (-1)) (klDivergence M p m)) (mul64 M (lit M 5 (-1)) (klDivergence M q m)))"

record 'd distribution_entry =
  fd_Kernel :: urn
  fd_TypeHistogram :: "'d dist"
  fd_JSD :: 'd

definition distribution_of :: "('f, 'd) mathlib \<Rightarrow> graph_state \<Rightarrow> urn list \<Rightarrow> 'd dist \<Rightarrow> urn \<Rightarrow> 'd distribution_entry" where
  "distribution_of M state kernels federation k =
     (let dist = normalizeDistribution M (count_types M
            (map snd (filter (\<lambda>(u, nd). inferCurrentKernel state kernels u = k) (Nodes state))))
      in \<lparr> fd_Kernel = k, fd_TypeHistogram = dist, fd_JSD = JensenShannonDivergence M dist federation \<rparr>)"

definition FiberDistribution :: "('f, 'd) mathlib \<Rightarrow> graph_state \<Rightarrow> 'd distribution_entry list" where
  "FiberDistribution M state =
     (let kernels = KernelURNs state;
          federation = normalizeDistribution M (count_types M (map snd (Nodes state)))
      in sort_slice (\<lambda>a b. fd_Kernel a < fd_Kernel b) (map (distribution_of M state kernels federation) kernels))"

section \<open>Responses\<close>

record 'f fiber_response =
  fr_Kernel :: urn
  fr_NodeCount :: nat
  fr_Vector :: "'f list"

definition FiberVectorForKernel :: "('f, 'd) mathlib \<Rightarrow> graph_state \<Rightarrow> urn \<Rightarrow> 'f codebook \<Rightarrow> 'f fiber_response \<times> 'f codebook" where
  "FiberVectorForKernel M state k cb =
     (case EncodeFiber M state k cb of
        (v, cb') \<Rightarrow> (\<lparr> fr_Kernel = k, fr_NodeCount = length (NodesInKernel state k), fr_Vector = v \<rparr>, cb'))"

definition FederationVector ::
  "('f, 'd) mathlib \<Rightarrow> graph_state \<Rightarrow> 'f codebook option \<Rightarrow> (nat \<times> 'f list) \<times> 'f codebook option" where
  "FederationVector M state enc =
     (case FiberVectorsByKernel M state enc of
        (fibers, enc') \<Rightarrow> ((length fibers, EncodeFederation M fibers), enc'))"

end
