(* ===== verification/HdcSpectral.thy ===== *)
theory HdcSpectral
  imports Hdc
begin

text \<open>
  internal/hdc/spectral.go and live_index.go: the similarity of all nodes, its graph Laplacian, the
  Jacobi eigenvalue iteration, the Fiedler partition and the Cheeger estimate, type coherence, type
  expression and drift, and the index that keeps the latest rows. A matrix is the list of its rows;
  every function that takes an encoder is given its codebook and returns it filled.
\<close>

definition eps :: "('f, 'd) mathlib \<Rightarrow> 'd" where
  "eps M = lit M 1 (-9)"

record 'd similarity_entry =
  se_Src :: urn
  se_Tgt :: urn
  se_Cos :: 'd

record 'd fiedler_entry =
  fe_URN :: urn
  fe_Sign :: string
  fe_Value :: 'd

record 'd drift_entry =
  td_URN :: urn
  td_DriftScore :: 'd

record 'd type_score =
  ts_TypeID :: type_id
  ts_Cos :: 'd

record 'd type_expression =
  te_URN :: urn
  te_DeclaredType :: type_id
  te_ExpressedType :: type_id
  te_Drift :: 'd
  te_Top3Types :: "'d type_score list"

record 'd type_coherence =
  tc_TypeID :: type_id
  tc_CentroidNorm :: 'd
  tc_Nodes :: "'d drift_entry list"

record 'f embedding =
  em_urn :: urn
  em_typeID :: type_id
  em_vector :: "'f hv"

section \<open>Similarity and its Laplacian\<close>

fun embed_nodes ::
  "('f, 'd) mathlib \<Rightarrow> graph_state \<Rightarrow> urn list \<Rightarrow> 'f codebook \<Rightarrow> 'f embedding list \<times> 'f codebook" where
  "embed_nodes M state [] cb = ([], cb)"
| "embed_nodes M state (u # urns) cb =
     (case EncodeNode M state u cb of
        (v, cb1) \<Rightarrow>
          (case embed_nodes M state urns cb1 of
             (es, cb2) \<Rightarrow>
               (\<lparr> em_urn = u, em_typeID = (case mget (Nodes state) u of None \<Rightarrow> '''' | Some nd \<Rightarrow> n_TypeID nd),
                  em_vector = v \<rparr> # es, cb2)))"

definition embeddingsFromState ::
  "('f, 'd) mathlib \<Rightarrow> graph_state \<Rightarrow> 'f codebook \<Rightarrow> 'f embedding list \<times> 'f codebook" where
  "embeddingsFromState M state cb = embed_nodes M state (sort (mkeys (Nodes state))) cb"

type_synonym 'd matrix = "'d list list"

definition cos_of :: "('f, 'd) mathlib \<Rightarrow> 'f embedding \<Rightarrow> 'f embedding \<Rightarrow> 'd" where
  "cos_of M e e' = widen M (Cosine M (em_vector e) (em_vector e'))"

definition similarity_rows :: "('f, 'd) mathlib \<Rightarrow> 'f embedding list \<Rightarrow> 'd matrix" where
  "similarity_rows M es = map (\<lambda>e. map (cos_of M e) es) es"

definition similarity_entries :: "('f, 'd) mathlib \<Rightarrow> 'f embedding list \<Rightarrow> 'd similarity_entry list" where
  "similarity_entries M es =
     concat (map (\<lambda>e. map (\<lambda>e'. \<lparr> se_Src = em_urn e, se_Tgt = em_urn e', se_Cos = cos_of M e e' \<rparr>) es) es)"

definition SimilarityMatrix ::
  "('f, 'd) mathlib \<Rightarrow> graph_state \<Rightarrow> 'f codebook \<Rightarrow>
   (urn list \<times> type_id list \<times> 'd matrix \<times> 'd similarity_entry list) \<times> 'f codebook" where
  "SimilarityMatrix M state cb =
     (case embeddingsFromState M state cb of
        (es, cb') \<Rightarrow> ((map em_urn es, map em_typeID es, similarity_rows M es, similarity_entries M es), cb'))"

text \<open>The weight of an edge: a negative similarity counts as none.\<close>

definition edge :: "('f, 'd) mathlib \<Rightarrow> 'd matrix \<Rightarrow> nat \<Rightarrow> nat \<Rightarrow> 'd" where
  "edge M similarity i j =
     (let w = similarity ! i ! j in if less64 M w (zero64 M) then zero64 M else w)"

definition degree :: "('f, 'd) mathlib \<Rightarrow> 'd matrix \<Rightarrow> nat \<Rightarrow> 'd" where
  "degree M similarity i =
     foldl (\<lambda>d j. if i = j then d else add64 M d (edge M similarity i j)) (zero64 M) [0..<length similarity]"

definition Laplacian :: "('f, 'd) mathlib \<Rightarrow> 'd matrix \<Rightarrow> 'd matrix" where
  "Laplacian M similarity =
     map (\<lambda>i. map (\<lambda>j. if i = j then degree M similarity i else neg64 M (edge M similarity i j))
            [0..<length similarity]) [0..<length similarity]"

section \<open>The Jacobi iteration\<close>

definition set2 :: "'d matrix \<Rightarrow> nat \<Rightarrow> nat \<Rightarrow> 'd \<Rightarrow> 'd matrix" where
  "set2 a i j x = a[i := (a ! i)[j := x]]"

definition identityMatrix :: "('f, 'd) mathlib \<Rightarrow> nat \<Rightarrow> 'd matrix" where
  "identityMatrix M n = map (\<lambda>i. map (\<lambda>j. if i = j then one64 M else zero64 M) [0..<n]) [0..<n]"

definition maxOffDiagonal :: "('f, 'd) mathlib \<Rightarrow> 'd matrix \<Rightarrow> nat \<times> nat \<times> 'd" where
  "maxOffDiagonal M a =
     (let n = length a
      in foldl (\<lambda>(p, q, maxAbs) (i, j).
            let v = Abs64 M (a ! i ! j) in if less64 M maxAbs v then (i, j, v) else (p, q, maxAbs))
          (0, 0, zero64 M) (concat (map (\<lambda>i. map (Pair i) [Suc i..<n]) [0..<n])))"

text \<open>Columns and rows p and q away from the crossing.\<close>

definition rotate_sides :: "('f, 'd) mathlib \<Rightarrow> 'd \<Rightarrow> 'd \<Rightarrow> nat \<Rightarrow> nat \<Rightarrow> 'd matrix \<Rightarrow> nat \<Rightarrow> 'd matrix" where
  "rotate_sides M c s p q a i =
     (if i = p \<or> i = q then a
      else let aip = a ! i ! p; aiq = a ! i ! q;
               x = sub64 M (mul64 M c aip) (mul64 M s aiq);
               y = add64 M (mul64 M s aip) (mul64 M c aiq)
           in set2 (set2 (set2 (set2 a i p x) p i x) i q y) q i y)"

text \<open>The crossing of rows and columns p and q.\<close>

definition rotate_cross :: "('f, 'd) mathlib \<Rightarrow> 'd \<Rightarrow> 'd \<Rightarrow> nat \<Rightarrow> nat \<Rightarrow> 'd matrix \<Rightarrow> 'd matrix" where
  "rotate_cross M c s p q a =
     (let app = a ! p ! p; aqq = a ! q ! q; apq = a ! p ! q;
          cc = mul64 M c c; ss = mul64 M s s; sc2 = mul64 M (mul64 M (lit M 2 0) s) c;
          x = add64 M (sub64 M (mul64 M cc app) (mul64 M sc2 apq)) (mul64 M ss aqq);
          y = add64 M (add64 M (mul64 M ss app) (mul64 M sc2 apq)) (mul64 M cc aqq)
      in set2 (set2 (set2 (set2 a p p x) q q y) p q (zero64 M)) q p (zero64 M))"

definition rotate_vector :: "('f, 'd) mathlib \<Rightarrow> 'd \<Rightarrow> 'd \<Rightarrow> nat \<Rightarrow> nat \<Rightarrow> 'd matrix \<Rightarrow> nat \<Rightarrow> 'd matrix" where
  "rotate_vector M c s p q v i =
     (let vip = v ! i ! p; viq = v ! i ! q
      in set2 (set2 v i p (sub64 M (mul64 M c vip) (mul64 M s viq))) i q (add64 M (mul64 M s vip) (mul64 M c viq)))"

definition jacobi_step :: "('f, 'd) mathlib \<Rightarrow> nat \<Rightarrow> nat \<Rightarrow> 'd matrix \<times> 'd matrix \<Rightarrow> 'd matrix \<times> 'd matrix" where
  "jacobi_step M p q av =
     (let (a, v) = av;
          phi = mul64 M (lit M 5 (-1))
                  (Atan2 M (mul64 M (lit M 2 0) (a ! p ! q)) (sub64 M (a ! q ! q) (a ! p ! p)));
          c = Cos64 M phi; s = Sin64 M phi
      in (rotate_cross M c s p q (foldl (rotate_sides M c s p q) a [0..<length a]),
          foldl (rotate_vector M c s p q) v [0..<length a]))"

fun jacobi :: "('f, 'd) mathlib \<Rightarrow> nat \<Rightarrow> 'd matrix \<times> 'd matrix \<Rightarrow> 'd matrix \<times> 'd matrix" where
  "jacobi M 0 av = av"
| "jacobi M (Suc iters) av =
     (case maxOffDiagonal M (fst av) of
        (p, q, maxOffDiag) \<Rightarrow>
          if less64 M maxOffDiag (lit M 1 (-10)) then av else jacobi M iters (jacobi_step M p q av))"

definition sortEigenpairs :: "('f, 'd) mathlib \<Rightarrow> 'd list \<Rightarrow> 'd matrix \<Rightarrow> 'd list \<times> 'd matrix" where
  "sortEigenpairs M vals vectors =
     (let order = sort_slice (\<lambda>i j. less64 M (vals ! i) (vals ! j)) [0..<length vals]
      in (map (\<lambda>idx. vals ! idx) order, map (\<lambda>row. map (\<lambda>idx. row ! idx) order) vectors))"

definition maxIter :: "nat \<Rightarrow> nat" where
  "maxIter n = 50 * n * n"

definition EigenDecompositionSymmetric :: "('f, 'd) mathlib \<Rightarrow> 'd matrix \<Rightarrow> 'd list \<times> 'd matrix" where
  "EigenDecompositionSymmetric M matrix =
     (let n = length matrix
      in if n = 0 then ([], [])
         else case jacobi M (maxIter n) (matrix, identityMatrix M n) of
           (a, v) \<Rightarrow> sortEigenpairs M (map (\<lambda>i. a ! i ! i) [0..<n]) v)"

section \<open>Partition and conductance\<close>

definition fiedler_sign :: "('f, 'd) mathlib \<Rightarrow> 'd \<Rightarrow> string" where
  "fiedler_sign M v =
     (if less64 M (eps M) v then ''positive''
      else if less64 M v (neg64 M (eps M)) then ''negative'' else ''zero'')"

definition FiedlerPartition :: "('f, 'd) mathlib \<Rightarrow> urn list \<Rightarrow> 'd list \<Rightarrow> 'd matrix \<Rightarrow> 'd fiedler_entry list" where
  "FiedlerPartition M urns eigenvalues eigenvectors =
     (let n = length urns
      in if n = 0 \<or> length eigenvalues < 2 \<or> length eigenvectors \<noteq> n then []
         else map (\<lambda>i. let v = eigenvectors ! i ! 1
                  in \<lparr> fe_URN = urns ! i, fe_Sign = fiedler_sign M v, fe_Value = v \<rparr>)
                (filter (\<lambda>i. 1 < length (eigenvectors ! i)) [0..<n]))"

definition in_cut :: "('f, 'd) mathlib \<Rightarrow> 'd matrix \<Rightarrow> nat \<Rightarrow> bool" where
  "in_cut M eigenvectors i \<longleftrightarrow>
     1 < length (eigenvectors ! i) \<and> leq64 M (zero64 M) (eigenvectors ! i ! 1)"

definition cut_weight :: "('f, 'd) mathlib \<Rightarrow> 'd matrix \<Rightarrow> (nat \<Rightarrow> bool) \<Rightarrow> 'd" where
  "cut_weight M similarity inS =
     (let n = length similarity
      in foldl (\<lambda>cut (i, j). if i \<noteq> j \<and> inS i \<noteq> inS j then add64 M cut (edge M similarity i j) else cut)
           (zero64 M) (concat (map (\<lambda>i. map (Pair i) [0..<n]) [0..<n])))"

definition volume :: "('f, 'd) mathlib \<Rightarrow> 'd matrix \<Rightarrow> (nat \<Rightarrow> bool) \<Rightarrow> 'd" where
  "volume M similarity inS =
     foldl (\<lambda>vol i. if inS i then add64 M vol (degree M similarity i) else vol) (zero64 M) [0..<length similarity]"

definition CheegerConstant :: "('f, 'd) mathlib \<Rightarrow> 'd matrix \<Rightarrow> 'd list \<Rightarrow> 'd matrix \<Rightarrow> 'd" where
  "CheegerConstant M similarity eigenvalues eigenvectors =
     (let n = length similarity
      in if n = 0 \<or> length eigenvalues < 2 \<or> length eigenvectors \<noteq> n then zero64 M
         else let inS = in_cut M eigenvectors;
                  cut = div64 M (cut_weight M similarity inS) (lit M 2 0);
                  denom = Min64 M (volume M similarity inS) (volume M similarity (\<lambda>i. \<not> inS i))
           in if leq64 M denom (eps M) then zero64 M else div64 M cut denom)"

definition ClusterCountByEpsilon :: "('f, 'd) mathlib \<Rightarrow> 'd list \<Rightarrow> 'd \<Rightarrow> nat" where
  "ClusterCountByEpsilon M eigenvalues threshold =
     (let th = (if leq64 M threshold (zero64 M) then lit M 1 (-6) else threshold)
      in length (filter (\<lambda>v. leq64 M (Abs64 M v) th) eigenvalues))"

section \<open>Coherence and expression of types\<close>

definition l2Norm :: "('f, 'd) mathlib \<Rightarrow> 'f hv \<Rightarrow> 'd" where
  "l2Norm M v = Sqrt M (sum64 M (\<lambda>i. mul64 M (widen M (v ! i)) (widen M (v ! i))) Dimension)"

definition group_by_type :: "'f embedding list \<Rightarrow> (type_id, 'f embedding list) gomap" where
  "group_by_type es =
     foldl (\<lambda>g e. mput (em_typeID e) ((case mget g (em_typeID e) of None \<Rightarrow> [] | Some l \<Rightarrow> l) @ [e]) g) [] es"

definition scale :: "('f, 'd) mathlib \<Rightarrow> 'd \<Rightarrow> 'f hv \<Rightarrow> 'f hv" where
  "scale M norm raw =
     (if less64 M (eps M) norm
      then let inv = narrow M (div64 M (one64 M) norm) in tabulate (\<lambda>i. mul32 M (raw ! i) inv)
      else raw)"

definition drift_before :: "('f, 'd) mathlib \<Rightarrow> 'd drift_entry \<Rightarrow> 'd drift_entry \<Rightarrow> bool" where
  "drift_before M x y =
     (if eq64 M (td_DriftScore x) (td_DriftScore y) then td_URN x < td_URN y
      else less64 M (td_DriftScore y) (td_DriftScore x))"

definition coherence_of :: "('f, 'd) mathlib \<Rightarrow> type_id \<times> 'f embedding list \<Rightarrow> 'd type_coherence" where
  "coherence_of M g =
     (let raw = superpose M (map em_vector (snd g));
          centroidNorm = l2Norm M raw;
          centroid = scale M centroidNorm raw;
          nodes = map (\<lambda>e. \<lparr> td_URN = em_urn e,
              td_DriftScore = (if less64 M (eps M) centroidNorm
                then sub64 M (one64 M) (widen M (Cosine M (em_vector e) centroid)) else one64 M) \<rparr>) (snd g)
      in \<lparr> tc_TypeID = fst g, tc_CentroidNorm = centroidNorm, tc_Nodes = sort_slice (drift_before M) nodes \<rparr>)"

definition TypeCoherence ::
  "('f, 'd) mathlib \<Rightarrow> graph_state \<Rightarrow> 'f codebook \<Rightarrow> 'd type_coherence list \<times> 'f codebook" where
  "TypeCoherence M state cb =
     (case embeddingsFromState M state cb of
        (es, cb') \<Rightarrow>
          (sort_slice (\<lambda>x y. tc_TypeID x < tc_TypeID y) (map (coherence_of M) (group_by_type es)), cb'))"

definition centroid_of :: "('f, 'd) mathlib \<Rightarrow> 'f embedding list \<Rightarrow> 'f hv" where
  "centroid_of M es = (let raw = superpose M (map em_vector es) in scale M (l2Norm M raw) raw)"

definition score_before :: "('f, 'd) mathlib \<Rightarrow> 'd type_score \<Rightarrow> 'd type_score \<Rightarrow> bool" where
  "score_before M x y =
     (if eq64 M (ts_Cos x) (ts_Cos y) then ts_TypeID x < ts_TypeID y
      else less64 M (ts_Cos y) (ts_Cos x))"

definition scores_of :: "('f, 'd) mathlib \<Rightarrow> (type_id, 'f hv) gomap \<Rightarrow> 'f hv \<Rightarrow> 'd type_score list" where
  "scores_of M centroids v =
     sort_slice (score_before M)
       (map (\<lambda>t. \<lparr> ts_TypeID = t,
                   ts_Cos = widen M (Cosine M v (case mget centroids t of None \<Rightarrow> zeroHV M | Some x \<Rightarrow> x)) \<rparr>)
          (sort (mkeys centroids)))"

definition expression_of ::
  "('f, 'd) mathlib \<Rightarrow> (type_id, 'f hv) gomap \<Rightarrow> 'f embedding \<Rightarrow> 'd type_expression" where
  "expression_of M centroids e =
     (let scores = scores_of M centroids (em_vector e)
      in \<lparr> te_URN = em_urn e, te_DeclaredType = em_typeID e,
           te_ExpressedType = (case scores of [] \<Rightarrow> em_typeID e | x # _ \<Rightarrow> ts_TypeID x),
           te_Drift = (case mget centroids (em_typeID e) of
               None \<Rightarrow> one64 M
             | Some centroid \<Rightarrow> sub64 M (one64 M) (widen M (Cosine M (em_vector e) centroid))),
           te_Top3Types = take 3 scores \<rparr>)"

definition TypeExpressions ::
  "('f, 'd) mathlib \<Rightarrow> graph_state \<Rightarrow> 'f codebook \<Rightarrow> 'd type_expression list \<times> 'f codebook" where
  "TypeExpressions M state cb =
     (case embeddingsFromState M state cb of
        (es, cb') \<Rightarrow>
          (let centroids = map (\<lambda>(t, g). (t, centroid_of M g)) (group_by_type es)
           in (sort_slice (\<lambda>x y. if te_URN x = te_URN y then less64 M (te_Drift y) (te_Drift x) else te_URN x < te_URN y)
                 (map (expression_of M centroids) es), cb')))"

definition over_threshold :: "('f, 'd) mathlib \<Rightarrow> 'd \<Rightarrow> 'd type_expression list \<Rightarrow> 'd type_expression list" where
  "over_threshold M threshold rows = filter (\<lambda>row. less64 M threshold (te_Drift row)) rows"

definition drift_threshold :: "('f, 'd) mathlib \<Rightarrow> 'd \<Rightarrow> 'd" where
  "drift_threshold M threshold = (if leq64 M threshold (zero64 M) then lit M 3 (-1) else threshold)"

definition DriftedTypeExpressions ::
  "('f, 'd) mathlib \<Rightarrow> graph_state \<Rightarrow> 'f codebook \<Rightarrow> 'd \<Rightarrow> 'd type_expression list \<times> 'f codebook" where
  "DriftedTypeExpressions M state cb threshold =
     (case TypeExpressions M state cb of
        (rows, cb') \<Rightarrow> (over_threshold M (drift_threshold M threshold) rows, cb'))"

section \<open>The live index\<close>

record 'd live_index =
  li_threshold :: 'd
  li_expressions :: "'d type_expression list"

definition NewLiveIndex :: "('f, 'd) mathlib \<Rightarrow> 'd \<Rightarrow> 'd live_index" where
  "NewLiveIndex M threshold = \<lparr> li_threshold = drift_threshold M threshold, li_expressions = [] \<rparr>"

definition Recompute ::
  "('f, 'd) mathlib \<Rightarrow> graph_state \<Rightarrow> 'd live_index \<times> 'f codebook \<Rightarrow> 'd live_index \<times> 'f codebook" where
  "Recompute M state li_cb =
     (case TypeExpressions M state (snd li_cb) of
        (rows, cb') \<Rightarrow> ((fst li_cb)\<lparr> li_expressions := rows \<rparr>, cb'))"

definition Expressions :: "'d live_index \<Rightarrow> 'd type_expression list" where
  "Expressions li = li_expressions li"

definition Drifted :: "('f, 'd) mathlib \<Rightarrow> 'd live_index \<Rightarrow> 'd type_expression list" where
  "Drifted M li = over_threshold M (li_threshold li) (li_expressions li)"

end
