(* ===== verification/HdcCrosswalk.thy ===== *)
theory HdcCrosswalk
  imports HdcSpectral
begin

text \<open>
  internal/hdc/crosswalk.go: the classification schemes of a graph, the rotations that take one scheme
  onto another, the check of their composition, the links that are missing and the projection of the
  schemes to three dimensions. A vector is a list of its length, a matrix the list of its rows.
\<close>

definition crosswalkDim :: nat where
  "crosswalkDim = 64"

section \<open>Vectors and matrices\<close>

definition sum_list64 :: "('f, 'd) mathlib \<Rightarrow> 'd list \<Rightarrow> 'd" where
  "sum_list64 M xs = foldl (add64 M) (zero64 M) xs"

definition dot :: "('f, 'd) mathlib \<Rightarrow> 'd list \<Rightarrow> 'd list \<Rightarrow> 'd" where
  "dot M a b = sum64 M (\<lambda>i. mul64 M (a ! i) (b ! i)) (length a)"

definition l2 :: "('f, 'd) mathlib \<Rightarrow> 'd list \<Rightarrow> 'd" where
  "l2 M v = Sqrt M (sum_list64 M (map (\<lambda>x. mul64 M x x) v))"

definition normalize :: "('f, 'd) mathlib \<Rightarrow> 'd list \<Rightarrow> 'd list" where
  "normalize M v = (let n = l2 M v in if eq64 M n (zero64 M) then v else map (\<lambda>x. div64 M x n) v)"

definition clamp :: "('f, 'd) mathlib \<Rightarrow> 'd \<Rightarrow> 'd \<Rightarrow> 'd \<Rightarrow> 'd" where
  "clamp M x lo hi = (if less64 M x lo then lo else if less64 M hi x then hi else x)"

definition matVecMul :: "('f, 'd) mathlib \<Rightarrow> 'd matrix \<Rightarrow> 'd list \<Rightarrow> 'd list" where
  "matVecMul M m v = map (\<lambda>row. dot M row v) m"

definition matMul :: "('f, 'd) mathlib \<Rightarrow> 'd matrix \<Rightarrow> 'd matrix \<Rightarrow> 'd matrix" where
  "matMul M a b =
     map (\<lambda>row. map (\<lambda>j. sum64 M (\<lambda>k. mul64 M (row ! k) (b ! k ! j)) (length b)) [0..<length (hd b)]) a"

definition frobeniusNorm :: "('f, 'd) mathlib \<Rightarrow> 'd matrix \<Rightarrow> 'd" where
  "frobeniusNorm M m = Sqrt M (sum_list64 M (map (\<lambda>x. mul64 M x x) (concat m)))"

definition frobeniusNormDiff :: "('f, 'd) mathlib \<Rightarrow> 'd matrix \<Rightarrow> 'd matrix \<Rightarrow> 'd" where
  "frobeniusNormDiff M a b =
     Sqrt M (sum_list64 M (concat (map (\<lambda>i. map (\<lambda>j. let d = sub64 M (a ! i ! j) (b ! i ! j) in mul64 M d d)
       [0..<length (a ! i)]) [0..<length a])))"

definition orthogonalBasisVector :: "('f, 'd) mathlib \<Rightarrow> 'd list \<Rightarrow> 'd list" where
  "orthogonalBasisVector M u =
     (let n = length u
      in if n = 0 then []
         else let k = fst (foldl (\<lambda>(k, minAbs) i.
                    if less64 M (Abs64 M (u ! i)) minAbs then (i, Abs64 M (u ! i)) else (k, minAbs))
                  (0, Abs64 M (u ! 0)) [1..<n]);
                v = (replicate n (zero64 M))[k := one64 M];
                proj = dot M v u
           in map (\<lambda>i. sub64 M (v ! i) (mul64 M proj (u ! i))) [0..<n])"

text \<open>The rotation by the angle between u and v in the plane they span.\<close>

definition plane_rotation :: "('f, 'd) mathlib \<Rightarrow> 'd \<Rightarrow> 'd \<Rightarrow> 'd list \<Rightarrow> 'd list \<Rightarrow> nat \<Rightarrow> 'd matrix" where
  "plane_rotation M c s u v n =
     map (\<lambda>i. map (\<lambda>j.
         add64 M (if i = j then one64 M else zero64 M)
           (add64 M
             (mul64 M (sub64 M c (one64 M)) (add64 M (mul64 M (u ! i) (u ! j)) (mul64 M (v ! i) (v ! j))))
             (mul64 M s (sub64 M (mul64 M (v ! i) (u ! j)) (mul64 M (u ! i) (v ! j))))))
       [0..<n]) [0..<n]"

definition OrthogonalRotation :: "('f, 'd) mathlib \<Rightarrow> 'd list \<Rightarrow> 'd list \<Rightarrow> 'd matrix" where
  "OrthogonalRotation M a b =
     (let n = length a
      in if n = 0 \<or> length b \<noteq> n then identityMatrix M n
         else let u = normalize M a; vTarget = normalize M b
           in if eq64 M (l2 M u) (zero64 M) \<or> eq64 M (l2 M vTarget) (zero64 M) then identityMatrix M n
              else let c = clamp M (dot M u vTarget) (lit M (-1) 0) (one64 M)
                in if less64 M (Abs64 M (sub64 M (one64 M) c)) (lit M 1 (-12)) then identityMatrix M n
                   else let vRaw0 = map (\<lambda>i. sub64 M (vTarget ! i) (mul64 M c (u ! i))) [0..<n];
                            vRaw = (if less64 M (l2 M vRaw0) (lit M 1 (-12)) then orthogonalBasisVector M u else vRaw0);
                            v = normalize M vRaw;
                            s = Sqrt M (Max64 M (zero64 M) (sub64 M (one64 M) (mul64 M c c)))
                     in plane_rotation M c s u v n)"

definition normalizedResidual :: "('f, 'd) mathlib \<Rightarrow> 'd matrix \<Rightarrow> 'd list \<Rightarrow> 'd list \<Rightarrow> 'd" where
  "normalizedResidual M r a b =
     (let ra = matVecMul M r a;
          delta = map (\<lambda>i. sub64 M (ra ! i) (b ! i)) [0..<length a];
          den = (if eq64 M (l2 M b) (zero64 M) then one64 M else l2 M b)
      in div64 M (l2 M delta) den)"

definition normalizedMatrixError :: "('f, 'd) mathlib \<Rightarrow> 'd matrix \<Rightarrow> 'd matrix \<Rightarrow> 'd" where
  "normalizedMatrixError M a b =
     (let den = (if eq64 M (frobeniusNorm M b) (zero64 M) then one64 M else frobeniusNorm M b)
      in div64 M (frobeniusNormDiff M a b) den)"

definition reduceHV :: "('f, 'd) mathlib \<Rightarrow> 'f hv \<Rightarrow> int \<Rightarrow> 'd list" where
  "reduceHV M v dim =
     (let d = (if dim \<le> 0 \<or> int Dimension < dim then Dimension else nat dim)
      in map (\<lambda>i. widen M (v ! i)) [0..<d])"

section \<open>Schemes\<close>

definition InferScheme :: "urn \<Rightarrow> node option \<Rightarrow> string" where
  "InferScheme u nd =
     (let declared = (case nd of None \<Rightarrow> ''''
          | Some n \<Rightarrow> (case mget (n_Properties n) ''scheme'' of None \<Rightarrow> ''''
              | Some p \<Rightarrow> TrimSpace (ToLower (string_or_empty (p_Value p)))))
      in if declared \<noteq> '''' then declared
         else case find (\<lambda>k. Contains (ToLower u) k) [''arxiv'', ''lcc'', ''ifrs'', ''iso'', ''dewey''] of
             Some k \<Rightarrow> k
           | None \<Rightarrow> '''')"

record 'f scheme_vector =
  sv_Name :: string
  sv_Members :: "urn list"
  sv_Vector :: "'f hv"

definition scheme_groups :: "graph_state \<Rightarrow> (string, urn list) gomap" where
  "scheme_groups state =
     foldl (\<lambda>g (u, nd).
         let scheme = InferScheme u (Some nd)
         in if scheme = '''' then g
            else mput scheme ((case mget g scheme of None \<Rightarrow> [] | Some us \<Rightarrow> us) @ [u]) g)
       [] (Nodes state)"

definition SchemeVectors ::
  "('f, 'd) mathlib \<Rightarrow> graph_state \<Rightarrow> 'f codebook \<Rightarrow> (string, 'f scheme_vector) gomap \<times> 'f codebook" where
  "SchemeVectors M state cb =
     (let groups = scheme_groups state
      in case EncodeNodes M state (concat (map snd groups)) cb of
        (batch, cb') \<Rightarrow>
          (map (\<lambda>(scheme, us). (scheme,
               \<lparr> sv_Name = scheme, sv_Members = sort us,
                 sv_Vector = Bundle M (map (\<lambda>u. case mget batch u of None \<Rightarrow> zeroHV M | Some v \<Rightarrow> v) (sort us)) \<rparr>))
             groups, cb'))"

definition sortedSchemeNames :: "(string, 'f scheme_vector) gomap \<Rightarrow> string list" where
  "sortedSchemeNames schemes = sort (mkeys schemes)"

definition scheme_at :: "('f, 'd) mathlib \<Rightarrow> (string, 'f scheme_vector) gomap \<Rightarrow> string \<Rightarrow> 'f scheme_vector" where
  "scheme_at M schemes name =
     (case mget schemes name of
        Some s \<Rightarrow> s
      | None \<Rightarrow> \<lparr> sv_Name = '''', sv_Members = [], sv_Vector = zeroHV M \<rparr>)"

section \<open>Crosswalks\<close>

record 'd crosswalk =
  cw_From :: string
  cw_To :: string
  cw_Dimension :: nat
  cw_ResidualError :: 'd
  cw_Matrix :: "'d matrix"

definition ComputeCrosswalk ::
  "('f, 'd) mathlib \<Rightarrow> graph_state \<Rightarrow> string \<Rightarrow> string \<Rightarrow> 'f codebook \<Rightarrow> 'd crosswalk option \<times> 'f codebook" where
  "ComputeCrosswalk M state src tgt cb =
     (case SchemeVectors M state cb of
        (schemes, cb') \<Rightarrow>
          (case (mget schemes (ToLower (TrimSpace src)), mget schemes (ToLower (TrimSpace tgt))) of
             (Some fromVec, Some toVec) \<Rightarrow>
               let a = reduceHV M (sv_Vector fromVec) (int crosswalkDim);
                   b = reduceHV M (sv_Vector toVec) (int crosswalkDim);
                   rotation = OrthogonalRotation M a b
               in (Some \<lparr> cw_From = sv_Name fromVec, cw_To = sv_Name toVec, cw_Dimension = crosswalkDim,
                          cw_ResidualError = normalizedResidual M rotation a b, cw_Matrix = rotation \<rparr>, cb')
           | _ \<Rightarrow> (None, cb')))"

record 'd composition_check =
  cc_Chain :: string
  cc_Error :: 'd
  cc_Composed :: "'d matrix"
  cc_Direct :: "'d matrix"

definition composition_check ::
  "('f, 'd) mathlib \<Rightarrow> (string, 'f scheme_vector) gomap \<Rightarrow> string \<times> string \<times> string \<Rightarrow> 'd composition_check" where
  "composition_check M schemes t =
     (case t of (a, b, c) \<Rightarrow>
        let red = (\<lambda>x. reduceHV M (sv_Vector (scheme_at M schemes x)) (int crosswalkDim));
            rab = OrthogonalRotation M (red a) (red b);
            rbc = OrthogonalRotation M (red b) (red c);
            rac = OrthogonalRotation M (red a) (red c);
            composed = matMul M rbc rab
        in \<lparr> cc_Chain = sv_Name (scheme_at M schemes a) @ ''->'' @ sv_Name (scheme_at M schemes b) @ ''->''
               @ sv_Name (scheme_at M schemes c),
             cc_Error = normalizedMatrixError M composed rac, cc_Composed = composed, cc_Direct = rac \<rparr>)"

text \<open>The triples of different names, the loops over i, j and k.\<close>

definition chains :: "string list \<Rightarrow> (string \<times> string \<times> string) list" where
  "chains names =
     (let n = length names
      in concat (map (\<lambda>i. concat (map (\<lambda>j.
            if i = j then []
            else map (\<lambda>k. (names ! i, names ! j, names ! k)) (filter (\<lambda>k. k \<noteq> i \<and> k \<noteq> j) [0..<n]))
          [0..<n])) [0..<n]))"

definition check_before :: "('f, 'd) mathlib \<Rightarrow> 'd composition_check \<Rightarrow> 'd composition_check \<Rightarrow> bool" where
  "check_before M x y =
     (if eq64 M (cc_Error x) (cc_Error y) then cc_Chain x < cc_Chain y else less64 M (cc_Error x) (cc_Error y))"

definition CrosswalkCompositionChecks ::
  "('f, 'd) mathlib \<Rightarrow> graph_state \<Rightarrow> 'f codebook \<Rightarrow> 'd composition_check list \<times> 'f codebook" where
  "CrosswalkCompositionChecks M state cb =
     (case SchemeVectors M state cb of
        (schemes, cb') \<Rightarrow>
          (let names = sortedSchemeNames schemes
           in if length names < 3 then ([], cb')
              else (sort_slice (check_before M) (map (composition_check M schemes) (chains names)), cb')))"

section \<open>Suggestions\<close>

definition looksLikeCrosswalkRelation :: "relation \<Rightarrow> bool" where
  "looksLikeCrosswalkRelation rel \<longleftrightarrow>
     r_RewriteCategory rel = WF15 \<or>
     (let txt = ToLower (r_URN rel @ '':'' @ r_SrcPort rel @ '':'' @ r_TgtPort rel)
      in Contains txt ''crosswalk'' \<or> Contains txt ''map'' \<or> Contains txt ''align'')"

definition orderedPair :: "string \<Rightarrow> string \<Rightarrow> string" where
  "orderedPair a b = (if a < b then a @ ''|'' @ b else b @ ''|'' @ a)"

text \<open>The pair of schemes a relation links, when it links two.\<close>

definition linked_pair :: "graph_state \<Rightarrow> relation \<Rightarrow> string option" where
  "linked_pair state rel =
     (if \<not> looksLikeCrosswalkRelation rel then None
      else let a = InferScheme (r_SrcURN rel) (mget (Nodes state) (r_SrcURN rel));
               b = InferScheme (r_TgtURN rel) (mget (Nodes state) (r_TgtURN rel))
        in if a = '''' \<or> b = '''' \<or> a = b then None else Some (orderedPair a b))"

definition explicitCrosswalkPairs :: "graph_state \<Rightarrow> string set" where
  "explicitCrosswalkPairs state =
     set (concat (map (\<lambda>rel. case linked_pair state rel of None \<Rightarrow> [] | Some p \<Rightarrow> [p]) (map snd (Relations state))))"

record 'd suggestion =
  su_From :: string
  su_To :: string
  su_Cosine :: 'd

definition suggestion_before :: "('f, 'd) mathlib \<Rightarrow> 'd suggestion \<Rightarrow> 'd suggestion \<Rightarrow> bool" where
  "suggestion_before M x y =
     (if eq64 M (su_Cosine x) (su_Cosine y)
      then (if su_From x = su_From y then su_To x < su_To y else su_From x < su_From y)
      else less64 M (su_Cosine y) (su_Cosine x))"

definition suggest ::
  "('f, 'd) mathlib \<Rightarrow> (string, 'f scheme_vector) gomap \<Rightarrow> string set \<Rightarrow> 'd \<Rightarrow> string \<times> string \<Rightarrow> 'd suggestion list" where
  "suggest M schemes explicit th ab =
     (let a = scheme_at M schemes (fst ab); b = scheme_at M schemes (snd ab);
          cos = widen M (Cosine M (sv_Vector a) (sv_Vector b))
      in if less64 M cos th then []
         else if fst ab @ ''|'' @ snd ab \<in> explicit then []
         else [\<lparr> su_From = sv_Name a, su_To = sv_Name b, su_Cosine = cos \<rparr>])"

fun pairs_of :: "'a list \<Rightarrow> ('a \<times> 'a) list" where
  "pairs_of [] = []"
| "pairs_of (x # xs) = map (Pair x) xs @ pairs_of xs"

text \<open>None is the nil slice of a graph with fewer than two schemes.\<close>

definition CrosswalkSuggestions ::
  "('f, 'd) mathlib \<Rightarrow> graph_state \<Rightarrow> 'd \<Rightarrow> 'f codebook \<Rightarrow> 'd suggestion list option \<times> 'f codebook" where
  "CrosswalkSuggestions M state threshold cb =
     (let th = (if leq64 M threshold (zero64 M) then lit M 7 (-1) else threshold)
      in case SchemeVectors M state cb of
        (schemes, cb') \<Rightarrow>
          (let names = sortedSchemeNames schemes
           in if length names < 2 then (None, cb')
              else (Some (sort_slice (suggestion_before M)
                      (concat (map (suggest M schemes (explicitCrosswalkPairs state) th) (pairs_of names)))), cb')))"

section \<open>The classification space\<close>

definition centerRows :: "('f, 'd) mathlib \<Rightarrow> 'd matrix \<Rightarrow> 'd matrix" where
  "centerRows M rows =
     (let d = length (hd rows);
          means = map (\<lambda>j. div64 M (sum_list64 M (map (\<lambda>row. row ! j) rows)) (lit M (int (length rows)) 0)) [0..<d]
      in map (\<lambda>row. map (\<lambda>j. sub64 M (row ! j) (means ! j)) [0..<d]) rows)"

definition covariance :: "('f, 'd) mathlib \<Rightarrow> 'd matrix \<Rightarrow> 'd matrix" where
  "covariance M centered =
     (if centered = [] then []
      else let d = length (hd centered);
               n = int (length centered);
               den = (if n - 1 \<le> 0 then one64 M else lit M (n - 1) 0)
        in map (\<lambda>i. map (\<lambda>j. div64 M (sum_list64 M (map (\<lambda>row. mul64 M (row ! i) (row ! j)) centered)) den)
             [0..<d]) [0..<d])"

definition topEigenIndices :: "'d list \<Rightarrow> nat \<Rightarrow> nat list" where
  "topEigenIndices eigvals k = take k (rev [0..<length eigvals])"

definition projectToComponents :: "('f, 'd) mathlib \<Rightarrow> 'd list \<Rightarrow> 'd matrix \<Rightarrow> nat list \<Rightarrow> 'd list" where
  "projectToComponents M row eigvecs idx =
     map (\<lambda>col. foldl (\<lambda>s r. if col < length (eigvecs ! r) then add64 M s (mul64 M (row ! r) (eigvecs ! r ! col)) else s)
           (zero64 M) [0..<min (length row) (length eigvecs)]) idx"

definition explainedVariance :: "('f, 'd) mathlib \<Rightarrow> 'd list \<Rightarrow> nat list \<Rightarrow> 'd list" where
  "explainedVariance M eigvals idx =
     (if eigvals = [] then []
      else let total = foldl (\<lambda>t v. if less64 M (zero64 M) v then add64 M t v else t) (zero64 M) eigvals
        in if eq64 M total (zero64 M) then map (\<lambda>_. zero64 M) idx
           else map (\<lambda>j. let v = eigvals ! j
                  in div64 M (if less64 M v (zero64 M) then zero64 M else v) total) idx)"

record 'd classification_point =
  cp_Scheme :: string
  cp_Members :: nat
  cp_X :: 'd
  cp_Y :: 'd
  cp_Z :: 'd

definition coord :: "('f, 'd) mathlib \<Rightarrow> 'd list \<Rightarrow> nat \<Rightarrow> 'd" where
  "coord M coords i = (if i < length coords then coords ! i else zero64 M)"

definition ClassificationSpace ::
  "('f, 'd) mathlib \<Rightarrow> graph_state \<Rightarrow> 'f codebook \<Rightarrow> ('d classification_point list \<times> 'd list) \<times> 'f codebook" where
  "ClassificationSpace M state cb =
     (case SchemeVectors M state cb of
        (schemes, cb') \<Rightarrow>
          (let names = sortedSchemeNames schemes
           in if names = [] then (([], []), cb')
              else let centered = centerRows M
                         (map (\<lambda>name. reduceHV M (sv_Vector (scheme_at M schemes name)) (int crosswalkDim)) names)
                in (case EigenDecompositionSymmetric M (covariance M centered) of
                      (eigvals, eigvecs) \<Rightarrow>
                        let componentIdx = topEigenIndices eigvals 3;
                            points = map (\<lambda>i.
                              let sch = scheme_at M schemes (names ! i);
                                  coords = projectToComponents M (centered ! i) eigvecs componentIdx
                              in \<lparr> cp_Scheme = sv_Name sch, cp_Members = length (sv_Members sch),
                                   cp_X = coord M coords 0, cp_Y = coord M coords 1, cp_Z = coord M coords 2 \<rparr>)
                              [0..<length names]
                        in ((points, explainedVariance M eigvals componentIdx), cb'))))"

end
