(* ===== verification/HdcHttp.thy ===== *)
theory HdcHttp
  imports Routes HdcFiber HdcCrosswalk
begin

text \<open>
  The routes under /hdc of internal/transport/server.go, and the two ends of package hdc in the kernel:
  the rows the drift sweep annotates and the live index the type-expression route serves. A handler
  returns the status and the body, which \<open>hdc_answer\<close> gives the route table as its \<open>w_hdc\<close>. A float
  prints as its shortest decimal; NaN and the infinities have none, and a document that contains one
  has no text, so the response then has no body.
\<close>

record ('f, 'd) hdc_io = "('f, 'd) mathlib" +
  decimal32 :: "'f \<Rightarrow> (int \<times> int) option"
  decimal64 :: "'d \<Rightarrow> (int \<times> int) option"
  parse_float :: "string \<Rightarrow> 'd option"

section \<open>The kernel's side\<close>

abbreviation math :: "('f, 'd) hdc_io \<Rightarrow> ('f, 'd) mathlib" where
  "math \<equiv> mathlib.truncate"

text \<open>A row over the threshold has a drift that is a number.\<close>

definition drift_row_of :: "('f, 'd) hdc_io \<Rightarrow> 'd type_expression \<Rightarrow> drift_row" where
  "drift_row_of M row =
     (case (case decimal64 M (te_Drift row) of None \<Rightarrow> (0, 0) | Some me \<Rightarrow> me) of
        (m, e) \<Rightarrow> \<lparr> d_URN = te_URN row, d_DeclaredType = te_DeclaredType row,
                    d_ExpressedType = te_ExpressedType row, d_Mantissa = m, d_Exponent = e \<rparr>)"

text \<open>The index after a recomputation, and what it reports, for a state and a fresh codebook.\<close>

definition index_of :: "('f, 'd) hdc_io \<Rightarrow> graph_state \<Rightarrow> 'd live_index" where
  "index_of M state = fst (Recompute (math M) state (NewLiveIndex (math M) (lit M 3 (-1)), NewCodebook))"

definition drift_rows :: "('f, 'd) hdc_io \<Rightarrow> graph_state \<Rightarrow> drift_row list" where
  "drift_rows M state = map (drift_row_of M) (Drifted (math M) (index_of M state))"

definition HDCTypeExpressions :: "('f, 'd) hdc_io \<Rightarrow> 's runtime \<Rightarrow> 'd type_expression list" where
  "HDCTypeExpressions M rt = Expressions (index_of M (rt_state rt))"

section \<open>Documents\<close>

definition num64 :: "('f, 'd) hdc_io \<Rightarrow> 'd \<Rightarrow> jdoc option" where
  "num64 M x = map_option (\<lambda>(m, e). JNum m e) (decimal64 M x)"

definition num32 :: "('f, 'd) hdc_io \<Rightarrow> 'f \<Rightarrow> jdoc option" where
  "num32 M x = map_option (\<lambda>(m, e). JNum m e) (decimal32 M x)"

definition json_all :: "('a \<Rightarrow> jdoc option) \<Rightarrow> 'a list \<Rightarrow> jdoc option" where
  "json_all f xs = map_option JArr (those (map f xs))"

definition json_rows :: "('a \<Rightarrow> jdoc option) \<Rightarrow> 'a list \<Rightarrow> jdoc option" where
  "json_rows f xs = (if xs = [] then Some JNull else json_all f xs)"

definition json_fields :: "(string \<times> jdoc option) list \<Rightarrow> (string \<times> jdoc) list option" where
  "json_fields kvs = those (map (\<lambda>(k, d). map_option (Pair k) d) kvs)"

definition json_struct :: "(string \<times> jdoc option) list \<Rightarrow> jdoc option" where
  "json_struct kvs = map_option JObj (json_fields kvs)"

definition json_str :: "string \<Rightarrow> jdoc option" where
  "json_str s = Some (JStr s)"

definition json_matrix :: "('f, 'd) hdc_io \<Rightarrow> 'd matrix \<Rightarrow> jdoc option" where
  "json_matrix M m = json_all (json_all (num64 M)) m"

definition answer :: "jdoc option \<Rightarrow> nat \<times> body" where
  "answer d = (200, case d of None \<Rightarrow> NoBody | Some v \<Rightarrow> Doc v)"

definition refuse :: "nat \<Rightarrow> string \<Rightarrow> nat \<times> body" where
  "refuse status msg = (status, Failed (Text (TrimSpace msg)))"

definition json_similarity :: "('f, 'd) hdc_io \<Rightarrow> 'd similarity_entry \<Rightarrow> jdoc option" where
  "json_similarity M e = json_struct [(''src'', json_str (se_Src e)), (''tgt'', json_str (se_Tgt e)),
     (''cos'', num64 M (se_Cos e))]"

definition json_fiedler :: "('f, 'd) hdc_io \<Rightarrow> 'd fiedler_entry \<Rightarrow> jdoc option" where
  "json_fiedler M e = json_struct [(''urn'', json_str (fe_URN e)), (''sign'', json_str (fe_Sign e)),
     (''value'', num64 M (fe_Value e))]"

definition json_drift :: "('f, 'd) hdc_io \<Rightarrow> 'd drift_entry \<Rightarrow> jdoc option" where
  "json_drift M e = json_struct [(''urn'', json_str (td_URN e)), (''drift_score'', num64 M (td_DriftScore e))]"

definition json_coherence :: "('f, 'd) hdc_io \<Rightarrow> 'd type_coherence \<Rightarrow> jdoc option" where
  "json_coherence M e = json_struct [(''type_id'', json_str (tc_TypeID e)),
     (''centroid_norm'', num64 M (tc_CentroidNorm e)), (''nodes'', json_all (json_drift M) (tc_Nodes e))]"

definition json_score :: "('f, 'd) hdc_io \<Rightarrow> 'd type_score \<Rightarrow> jdoc option" where
  "json_score M e = json_struct [(''type_id'', json_str (ts_TypeID e)), (''cos'', num64 M (ts_Cos e))]"

definition json_expression :: "('f, 'd) hdc_io \<Rightarrow> 'd type_expression \<Rightarrow> jdoc option" where
  "json_expression M e = json_struct [(''urn'', json_str (te_URN e)),
     (''declared_type'', json_str (te_DeclaredType e)), (''expressed_type'', json_str (te_ExpressedType e)),
     (''drift'', num64 M (te_Drift e)), (''top3_types'', json_all (json_score M) (te_Top3Types e))]"

definition json_fiber :: "('f, 'd) hdc_io \<Rightarrow> 'f fiber_response \<Rightarrow> jdoc option" where
  "json_fiber M e = json_struct [(''kernel'', json_str (fr_Kernel e)),
     (''node_count'', Some (json_nat (fr_NodeCount e))), (''vector'', json_all (num32 M) (fr_Vector e))]"

definition json_assignment :: "('f, 'd) hdc_io \<Rightarrow> 'd assignment \<Rightarrow> jdoc option" where
  "json_assignment M e = json_struct [(''urn'', json_str (fa_URN e)),
     (''current_kernel'', json_str (fa_CurrentKernel e)), (''optimal_kernel'', json_str (fa_OptimalKernel e)),
     (''distance'', num64 M (fa_Distance e))]"

definition json_distribution :: "('f, 'd) hdc_io \<Rightarrow> 'd distribution_entry \<Rightarrow> jdoc option" where
  "json_distribution M e = json_struct [(''kernel'', json_str (fd_Kernel e)),
     (''type_histogram'',
        map_option json_object (json_fields (map (\<lambda>(t, x). (t, num64 M x)) (fd_TypeHistogram e)))),
     (''jsd_to_federation'', num64 M (fd_JSD e))]"

definition json_crosswalk :: "('f, 'd) hdc_io \<Rightarrow> 'd crosswalk \<Rightarrow> jdoc option" where
  "json_crosswalk M e = json_struct [(''from'', json_str (cw_From e)), (''to'', json_str (cw_To e)),
     (''dimension'', Some (json_nat (cw_Dimension e))), (''residual_error'', num64 M (cw_ResidualError e)),
     (''rotation_matrix'', json_matrix M (cw_Matrix e))]"

definition json_check :: "('f, 'd) hdc_io \<Rightarrow> 'd composition_check \<Rightarrow> jdoc option" where
  "json_check M e = json_struct [(''chain'', json_str (cc_Chain e)), (''error'', num64 M (cc_Error e)),
     (''composed_R'', json_matrix M (cc_Composed e)), (''direct_R'', json_matrix M (cc_Direct e))]"

definition json_suggestion :: "('f, 'd) hdc_io \<Rightarrow> 'd suggestion \<Rightarrow> jdoc option" where
  "json_suggestion M e = json_struct [(''from'', json_str (su_From e)), (''to'', json_str (su_To e)),
     (''cosine'', num64 M (su_Cosine e))]"

definition json_point :: "('f, 'd) hdc_io \<Rightarrow> 'd classification_point \<Rightarrow> jdoc option" where
  "json_point M e = json_struct [(''scheme'', json_str (cp_Scheme e)),
     (''members'', Some (json_nat (cp_Members e))), (''x'', num64 M (cp_X e)), (''y'', num64 M (cp_Y e)),
     (''z'', num64 M (cp_Z e))]"

section \<open>Query parameters\<close>

text \<open>None is a parameter that is refused, Some None an absent one.\<close>

definition top_param :: "request \<Rightarrow> nat option option" where
  "top_param rq =
     (let raw = TrimSpace (query rq ''top'')
      in if raw = '''' then Some None
         else case Atoi raw of
             None \<Rightarrow> None
           | Some v \<Rightarrow> if v \<le> 0 then None else Some (Some (nat v)))"

definition cut_rows :: "nat option \<Rightarrow> 'a list \<Rightarrow> 'a list" where
  "cut_rows lim rows = (case lim of None \<Rightarrow> rows | Some k \<Rightarrow> if k < length rows then take k rows else rows)"

definition asks :: "request \<Rightarrow> string \<Rightarrow> string \<Rightarrow> bool" where
  "asks rq k v \<longleftrightarrow> EqualFold (TrimSpace (query rq k)) v"

definition threshold_param :: "('f, 'd) hdc_io \<Rightarrow> 'd \<Rightarrow> request \<Rightarrow> 'd option" where
  "threshold_param M unset rq =
     (let raw = TrimSpace (query rq ''threshold'') in if raw = '''' then Some unset else parse_float M raw)"

section \<open>Handlers\<close>

definition handleGetHDCSimilarityMatrix :: "('f, 'd) hdc_io \<Rightarrow> graph_state \<Rightarrow> nat \<times> body" where
  "handleGetHDCSimilarityMatrix M state =
     (case fst (SimilarityMatrix (math M) state NewCodebook) of
        (_, _, _, entries) \<Rightarrow> answer (json_all (json_similarity M) entries))"

definition handleGetHDCEigenvalues :: "('f, 'd) hdc_io \<Rightarrow> graph_state \<Rightarrow> request \<Rightarrow> nat \<times> body" where
  "handleGetHDCEigenvalues M state rq =
     (case fst (SimilarityMatrix (math M) state NewCodebook) of
        (_, _, similarity, _) \<Rightarrow>
          let eigvals = fst (EigenDecompositionSymmetric (math M) (Laplacian (math M) similarity));
              raw = TrimSpace (query rq ''top'');
              limit = (if raw = '''' then 10
                     else case Atoi raw of None \<Rightarrow> 10 | Some v \<Rightarrow> if 0 < v then nat v else 10)
          in answer (json_rows (num64 M) (take (min limit (length eigvals)) eigvals)))"

definition handleGetHDCFiedler :: "('f, 'd) hdc_io \<Rightarrow> graph_state \<Rightarrow> nat \<times> body" where
  "handleGetHDCFiedler M state =
     (case fst (SimilarityMatrix (math M) state NewCodebook) of
        (urns, _, similarity, _) \<Rightarrow>
          (case EigenDecompositionSymmetric (math M) (Laplacian (math M) similarity) of
             (eigvals, eigvecs) \<Rightarrow>
               answer (json_rows (json_fiedler M) (FiedlerPartition (math M) urns eigvals eigvecs))))"

definition handleGetHDCTypeCoherence :: "('f, 'd) hdc_io \<Rightarrow> graph_state \<Rightarrow> nat \<times> body" where
  "handleGetHDCTypeCoherence M state =
     answer (json_rows (json_coherence M) (fst (TypeCoherence (math M) state NewCodebook)))"

definition by_drift :: "('f, 'd) hdc_io \<Rightarrow> 'd type_expression \<Rightarrow> 'd type_expression \<Rightarrow> bool" where
  "by_drift M x y =
     (if eq64 M (te_Drift x) (te_Drift y) then te_URN x < te_URN y else less64 M (te_Drift y) (te_Drift x))"

definition handleGetHDCTypeExpression :: "('f, 'd) hdc_io \<Rightarrow> 's runtime \<Rightarrow> request \<Rightarrow> nat \<times> body" where
  "handleGetHDCTypeExpression M rt rq =
     (let live = HDCTypeExpressions M rt;
          rows0 = (if live = [] then fst (TypeExpressions (math M) (State rt) NewCodebook) else live)
      in case threshold_param M (lit M (-1) 0) rq of
           None \<Rightarrow> refuse 400 ''invalid threshold''
         | Some threshold \<Rightarrow>
             let filtered = leq64 M (zero64 (math M)) threshold;
                 rows1 = (if filtered then over_threshold (math M) threshold rows0 else rows0);
                 rows2 = (if asks rq ''sort'' ''drift'' then sort_slice (by_drift M) rows1 else rows1)
             in (case top_param rq of
                   None \<Rightarrow> refuse 400 ''invalid top''
                 | Some lim \<Rightarrow>
                     let rows = cut_rows lim rows2
                     in answer ((if filtered then json_all else json_rows) (json_expression M) rows)))"

definition handleGetHDCFiber :: "('f, 'd) hdc_io \<Rightarrow> graph_state \<Rightarrow> request \<Rightarrow> nat \<times> body" where
  "handleGetHDCFiber M state rq =
     (let k = TrimSpace (query rq ''kernel'')
      in if k = '''' then refuse 400 ''missing kernel query parameter''
         else case mget (Nodes state) k of
             None \<Rightarrow> refuse 404 ''kernel not found''
           | Some nd \<Rightarrow>
               if n_TypeID nd \<noteq> ''kernel'' then refuse 404 ''kernel not found''
               else answer (json_fiber M (fst (FiberVectorForKernel (math M) state k NewCodebook))))"

definition handleGetHDCFederation :: "('f, 'd) hdc_io \<Rightarrow> graph_state \<Rightarrow> nat \<times> body" where
  "handleGetHDCFederation M state =
     (case fst (FederationVector (math M) state None) of
        (kernels, v) \<Rightarrow> answer (json_struct [(''kernel_count'', Some (json_nat kernels)), (''vector'', json_all (num32 M) v)]))"

definition by_distance :: "('f, 'd) hdc_io \<Rightarrow> 'd assignment \<Rightarrow> 'd assignment \<Rightarrow> bool" where
  "by_distance M x y =
     (if eq64 M (fa_Distance x) (fa_Distance y) then fa_URN x < fa_URN y
      else less64 M (fa_Distance y) (fa_Distance x))"

definition handleGetHDCFiberAssignment :: "('f, 'd) hdc_io \<Rightarrow> graph_state \<Rightarrow> request \<Rightarrow> nat \<times> body" where
  "handleGetHDCFiberAssignment M state rq =
     (let rows0 = fst (FiberAssignments (math M) state NewCodebook);
          filtered = asks rq ''only_misplaced'' ''true'';
          rows1 = (if filtered then filter (\<lambda>row. fa_CurrentKernel row \<noteq> fa_OptimalKernel row) rows0 else rows0);
          rows2 = (if asks rq ''sort'' ''distance'' then sort_slice (by_distance M) rows1 else rows1)
      in case top_param rq of
           None \<Rightarrow> refuse 400 ''invalid top''
         | Some lim \<Rightarrow>
             answer ((if filtered then json_all else json_rows) (json_assignment M) (cut_rows lim rows2)))"

definition handleGetHDCFiberDistribution :: "('f, 'd) hdc_io \<Rightarrow> graph_state \<Rightarrow> nat \<times> body" where
  "handleGetHDCFiberDistribution M state =
     answer (json_rows (json_distribution M) (FiberDistribution (math M) state))"

definition handleGetHDCCrosswalk :: "('f, 'd) hdc_io \<Rightarrow> graph_state \<Rightarrow> request \<Rightarrow> nat \<times> body" where
  "handleGetHDCCrosswalk M state rq =
     (let src = TrimSpace (query rq ''from''); tgt = TrimSpace (query rq ''to'')
      in if src = '''' \<or> tgt = '''' then refuse 400 ''missing from/to query parameters''
         else case fst (ComputeCrosswalk (math M) state src tgt NewCodebook) of
             None \<Rightarrow> refuse 404 ''scheme not found''
           | Some res \<Rightarrow> answer (json_crosswalk M res))"

definition handleGetHDCCrosswalkComposition :: "('f, 'd) hdc_io \<Rightarrow> graph_state \<Rightarrow> request \<Rightarrow> nat \<times> body" where
  "handleGetHDCCrosswalkComposition M state rq =
     (let rows = fst (CrosswalkCompositionChecks (math M) state NewCodebook)
      in case top_param rq of
           None \<Rightarrow> refuse 400 ''invalid top''
         | Some lim \<Rightarrow> answer (json_rows (json_check M) (cut_rows lim rows)))"

definition handleGetHDCCrosswalkSuggestions :: "('f, 'd) hdc_io \<Rightarrow> graph_state \<Rightarrow> request \<Rightarrow> nat \<times> body" where
  "handleGetHDCCrosswalkSuggestions M state rq =
     (case threshold_param M (lit M 7 (-1)) rq of
        None \<Rightarrow> refuse 400 ''invalid threshold''
      | Some threshold \<Rightarrow>
          (case fst (CrosswalkSuggestions (math M) state threshold NewCodebook) of
             None \<Rightarrow> answer (Some JNull)
           | Some rows \<Rightarrow> answer (json_all (json_suggestion M) rows)))"

definition handleGetHDCClassificationSpace :: "('f, 'd) hdc_io \<Rightarrow> graph_state \<Rightarrow> nat \<times> body" where
  "handleGetHDCClassificationSpace M state =
     (case fst (ClassificationSpace (math M) state NewCodebook) of
        (points, explained) \<Rightarrow>
          answer (json_struct [(''points'', json_rows (json_point M) points),
            (''explained_variance'', json_rows (num64 M) explained)]))"

section \<open>The routes\<close>

definition hdc_answer :: "('f, 'd) hdc_io \<Rightarrow> string list \<Rightarrow> 's runtime \<Rightarrow> request \<Rightarrow> nat \<times> body" where
  "hdc_answer M path rt rq =
     (let state = State rt
      in if path = [''similarity-matrix''] then handleGetHDCSimilarityMatrix M state
         else if path = [''eigenvalues''] then handleGetHDCEigenvalues M state rq
         else if path = [''fiedler''] then handleGetHDCFiedler M state
         else if path = [''type-coherence''] then handleGetHDCTypeCoherence M state
         else if path = [''type-expression''] then handleGetHDCTypeExpression M rt rq
         else if path = [''fiber''] then handleGetHDCFiber M state rq
         else if path = [''federation''] then handleGetHDCFederation M state
         else if path = [''fiber-assignment''] then handleGetHDCFiberAssignment M state rq
         else if path = [''fiber-distribution''] then handleGetHDCFiberDistribution M state
         else if path = [''crosswalk''] then handleGetHDCCrosswalk M state rq
         else if path = [''crosswalk'', ''composition-check''] then handleGetHDCCrosswalkComposition M state rq
         else if path = [''crosswalk'', ''suggestions''] then handleGetHDCCrosswalkSuggestions M state rq
         else handleGetHDCClassificationSpace M state)"

text \<open>A kernel environment and a server with package hdc in place of their parameters.\<close>

definition with_hdc :: "('f, 'd) hdc_io \<Rightarrow> 's web \<Rightarrow> 's web" where
  "with_hdc M W = W\<lparr> w_kenv := (w_kenv W)\<lparr> k_drifted := drift_rows M \<rparr>, w_hdc := hdc_answer M \<rparr>"

end
