(* ===== verification/HdcSpec.thy ===== *)
theory HdcSpec
  imports HdcHttp
begin

text \<open>
  What the code of package hdc promises: an encoding is a function of the graph, whatever the codebook
  already holds; the batch encoder agrees with the single one; every node has one place in the
  federation, and the order of Go's maps decides it only where shard rules overlap.
\<close>

section \<open>Codebooks\<close>

text \<open>A codebook holds nothing but basis vectors, and a computation codes a value when it returns the
  value from every such codebook and leaves one.\<close>

definition coherent :: "('f, 'd) mathlib \<Rightarrow> 'f codebook \<Rightarrow> bool" where
  "coherent M cb \<longleftrightarrow> (\<forall>u v. mget cb u = Some v \<longrightarrow> v = basis M u)"

definition codes :: "('f, 'd) mathlib \<Rightarrow> ('f codebook \<Rightarrow> 'a \<times> 'f codebook) \<Rightarrow> 'a \<Rightarrow> bool" where
  "codes M f v \<longleftrightarrow> (\<forall>cb. coherent M cb \<longrightarrow> fst (f cb) = v \<and> coherent M (snd (f cb)))"

lemma coherent_New [simp]: "coherent M NewCodebook"
  by (simp add: coherent_def NewCodebook_def)

lemma codesD: "codes M f v \<Longrightarrow> coherent M cb \<Longrightarrow> \<exists>cb'. f cb = (v, cb') \<and> coherent M cb'"
  unfolding codes_def by (metis prod.collapse)

lemma codes_self: "codes M f v \<Longrightarrow> fst (f NewCodebook) = v"
  by (simp add: codes_def)

lemma codes_fst: "codes M f v \<Longrightarrow> coherent M cb \<Longrightarrow> fst (f cb) = fst (f NewCodebook)"
  by (simp add: codes_def)

named_theorems coding

lemma codes_Encode [coding]: "codes M (\<lambda>cb. Encode M cb u) (basis M u)"
proof -
  have "fst (Encode M cb u) = basis M u \<and> coherent M (snd (Encode M cb u))" if "coherent M cb" for cb
  proof (cases "mget cb u")
    case None
    then show ?thesis using that by (auto simp: Encode_def coherent_def Let_def split: if_splits)
  next
    case (Some v)
    then show ?thesis using that by (auto simp: Encode_def coherent_def)
  qed
  then show ?thesis unfolding codes_def by blast
qed

lemma codes_return: "codes M (\<lambda>cb. (v, cb)) v"
  by (simp add: codes_def)

lemma codes_then: "codes M f a \<Longrightarrow> codes M (g a) b \<Longrightarrow> codes M (\<lambda>cb. case f cb of (x, cb1) \<Rightarrow> g x cb1) b"
  unfolding codes_def by (simp add: case_prod_beta)

definition bound_vector :: "('f, 'd) mathlib \<Rightarrow> urn \<Rightarrow> urn \<Rightarrow> 'f hv" where
  "bound_vector M role filler = Bind M (basis M role) (basis M filler)"

lemma codes_bound [coding]: "codes M (encode_bound M role filler) (bound_vector M role filler)"
  unfolding encode_bound_def [abs_def] bound_vector_def
  by (rule codes_then, rule coding)+ (rule codes_return)

definition relation_vector :: "('f, 'd) mathlib \<Rightarrow> relation \<Rightarrow> 'f hv" where
  "relation_vector M rel = Bundle M
     [bound_vector M roleSrcURN (r_SrcURN rel), bound_vector M roleTgtURN (r_TgtURN rel),
      bound_vector M roleWfURN (tokenURN ''wf'' (r_RewriteCategory rel)),
      bound_vector M roleSPort (tokenURN ''port'' (r_SrcPort rel)),
      bound_vector M roleTPort (tokenURN ''port'' (r_TgtPort rel))]"

lemma codes_relation [coding]: "codes M (EncodeRelation M rel) (relation_vector M rel)"
  unfolding EncodeRelation_def [abs_def] relation_vector_def
  by (rule codes_then, rule coding)+ (rule codes_return)

definition wire_vector :: "('f, 'd) mathlib \<Rightarrow> urn \<Rightarrow> relation \<Rightarrow> 'f hv" where
  "wire_vector M u rel =
     Bind M (basis M (if r_SrcURN rel = u then dirOutURN else dirInURN)) (relation_vector M rel)"

lemma codes_wire [coding]: "codes M (encode_wire M u rel) (wire_vector M u rel)"
  unfolding encode_wire_def [abs_def] wire_vector_def
  by (rule codes_then, rule coding)+ (rule codes_return)

lemma codes_wires [coding]: "codes M (encode_wires M u rels) (map (wire_vector M u) rels)"
proof (induction rels)
  case Nil
  then show ?case by (simp add: codes_def)
next
  case (Cons rel rels)
  have "codes M (\<lambda>cb. case encode_wire M u rel cb of (wire, cb1) \<Rightarrow>
      (case encode_wires M u rels cb1 of (wires, cb2) \<Rightarrow> (wire # wires, cb2))) (map (wire_vector M u) (rel # rels))"
    unfolding list.map by (rule codes_then, rule coding, rule codes_then, rule Cons.IH, rule codes_return)
  then show ?case by (simp add: codes_def)
qed

text \<open>The vector of a node with the relations \<open>rels\<close> at it.\<close>

definition vector_with :: "('f, 'd) mathlib \<Rightarrow> node \<Rightarrow> urn \<Rightarrow> relation list \<Rightarrow> 'f hv" where
  "vector_with M nd u rels =
     Bundle M (replicate typeWeight (bound_vector M roleTypeURN (tokenURN ''type'' (n_TypeID nd)))
       @ bound_vector M roleSelfURN u # map (wire_vector M u) rels)"

lemma codes_with [coding]: "codes M (encode_with M nd u rels) (vector_with M nd u rels)"
  unfolding encode_with_def [abs_def] vector_with_def
  by (rule codes_then, rule coding)+ (rule codes_return)

definition node_vector :: "('f, 'd) mathlib \<Rightarrow> graph_state \<Rightarrow> urn \<Rightarrow> 'f hv" where
  "node_vector M state u =
     (case mget (Nodes state) u of
        None \<Rightarrow> zeroHV M
      | Some nd \<Rightarrow> vector_with M nd u (filter (touches u) (map snd (Relations state))))"

lemma codes_node [coding]: "codes M (EncodeNode M state u) (node_vector M state u)"
  unfolding EncodeNode_def [abs_def] node_vector_def
  by (cases "mget (Nodes state) u") (simp_all add: codes_return codes_with)

section \<open>The batch\<close>

definition incident :: "(urn, relation list) gomap \<Rightarrow> urn \<Rightarrow> relation list" where
  "incident adj u = (case mget adj u of None \<Rightarrow> [] | Some rels \<Rightarrow> rels)"

lemma incident_append_at: "incident (append_at v rel adj) u = incident adj u @ (if u = v then [rel] else [])"
  by (simp add: incident_def append_at_def)

lemma incident_adjacency: "incident (adjacency state) u = filter (touches u) (map snd (Relations state))"
proof -
  have step: "incident (foldl (\<lambda>adj rel.
         let adj1 = append_at (r_SrcURN rel) rel adj
         in if r_SrcURN rel \<noteq> r_TgtURN rel then append_at (r_TgtURN rel) rel adj1 else adj1) adj rels) u
      = incident adj u @ filter (touches u) rels" for adj rels
    by (induction rels arbitrary: adj) (auto simp: incident_append_at touches_def Let_def)
  show ?thesis unfolding adjacency_def step by (simp add: incident_def)
qed

lemma codes_batch:
  "codes M (\<lambda>cb. encode_batch M state (adjacency state) urns (out, cb))
     (foldl (\<lambda>m u. mput u (node_vector M state u) m) out urns)"
proof (induction urns arbitrary: out)
  case Nil
  then show ?case by (simp add: codes_return)
next
  case (Cons u urns)
  show ?case
  proof (cases "mget (Nodes state) u")
    case None
    then show ?thesis using Cons.IH [of "mput u (zeroHV M) out"] by (simp add: node_vector_def)
  next
    case (Some nd)
    have "node_vector M state u = vector_with M nd u (incident (adjacency state) u)"
      using Some by (simp add: node_vector_def incident_adjacency)
    moreover have "codes M (\<lambda>cb. case encode_with M nd u (incident (adjacency state) u) cb of
        (v, cb') \<Rightarrow> encode_batch M state (adjacency state) urns (mput u v out, cb'))
      (foldl (\<lambda>m u. mput u (node_vector M state u) m)
         (mput u (vector_with M nd u (incident (adjacency state) u)) out) urns)"
      by (rule codes_then, rule coding, rule Cons.IH)
    ultimately show ?thesis using Some by (simp add: incident_def)
  qed
qed

text \<open>What the batch holds: the vector of each node asked for.\<close>

definition batch_vectors :: "('f, 'd) mathlib \<Rightarrow> graph_state \<Rightarrow> urn list \<Rightarrow> (urn, 'f hv) gomap" where
  "batch_vectors M state urns = foldl (\<lambda>m u. mput u (node_vector M state u) m) [] urns"

lemma codes_nodes [coding]: "codes M (EncodeNodes M state urns) (batch_vectors M state urns)"
  unfolding EncodeNodes_def [abs_def] batch_vectors_def by (rule codes_batch)

lemma mget_foldl_mput:
  "mget (foldl (\<lambda>m u. mput u (f u) m) out urns) u = (if u \<in> set urns then Some (f u) else mget out u)"
  by (induction urns arbitrary: out) auto

lemma mget_batch: "mget (batch_vectors M state urns) u = (if u \<in> set urns then Some (node_vector M state u) else None)"
  by (simp add: batch_vectors_def mget_foldl_mput)

lemma vec_of_batch: "u \<in> set urns \<Longrightarrow> vec_of M (batch_vectors M state urns) u = node_vector M state u"
  by (simp add: vec_of_def mget_batch)

section \<open>The live index\<close>

lemma codes_embed: "codes M (embed_nodes M state urns)
  (map (\<lambda>u. \<lparr> em_urn = u, em_typeID = (case mget (Nodes state) u of None \<Rightarrow> '''' | Some nd \<Rightarrow> n_TypeID nd),
              em_vector = node_vector M state u \<rparr>) urns)"
proof (induction urns)
  case Nil
  then show ?case by (simp add: codes_def)
next
  case (Cons u urns)
  have "codes M (\<lambda>cb. case EncodeNode M state u cb of (v, cb1) \<Rightarrow> (case embed_nodes M state urns cb1 of (es, cb2) \<Rightarrow>
      (\<lparr> em_urn = u, em_typeID = (case mget (Nodes state) u of None \<Rightarrow> '''' | Some nd \<Rightarrow> n_TypeID nd),
         em_vector = v \<rparr> # es, cb2)))
    (map (\<lambda>u. \<lparr> em_urn = u, em_typeID = (case mget (Nodes state) u of None \<Rightarrow> '''' | Some nd \<Rightarrow> n_TypeID nd),
              em_vector = node_vector M state u \<rparr>) (u # urns))"
    unfolding list.map by (rule codes_then, rule coding, rule codes_then, rule Cons.IH, rule codes_return)
  then show ?case by (simp add: codes_def)
qed

lemma codes_embeddings [coding]: "codes M (embeddingsFromState M state) (fst (embeddingsFromState M state NewCodebook))"
  using codes_embed [of M state "sort (mkeys (Nodes state))"]
  unfolding embeddingsFromState_def [abs_def] codes_self [OF codes_embed] by simp

lemma codes_expressions: "codes M (TypeExpressions M state) (fst (TypeExpressions M state NewCodebook))"
proof -
  have "\<exists>v. codes M (TypeExpressions M state) v"
    unfolding TypeExpressions_def [abs_def] Let_def
    by (rule exI, rule codes_then, rule codes_embeddings, rule codes_return)
  then show ?thesis using codes_self by fastforce
qed

text \<open>Recomputing with any coherent codebook sets the rows a fresh one gives.\<close>

lemma Recompute_coherent:
  assumes "coherent M cb"
  shows "\<exists>cb'. Recompute M state (li, cb) =
    (li\<lparr> li_expressions := fst (TypeExpressions M state NewCodebook) \<rparr>, cb') \<and> coherent M cb'"
  using codesD [OF codes_expressions assms, of state] by (auto simp: Recompute_def)

section \<open>Placement\<close>

lemma sort_mset_eq: "mset xs = mset ys \<Longrightarrow> sort xs = sort ys"
  by (metis mset_sort properties_for_sort sorted_sort)

lemma set_KernelURNs: "set (KernelURNs state) = {u. \<exists>nd. (u, nd) \<in> set (Nodes state) \<and> n_TypeID nd = ''kernel''}"
  by (force simp: KernelURNs_def)

lemma distinct_KernelURNs: "wf_map (Nodes state) \<Longrightarrow> distinct (KernelURNs state)"
  by (simp add: KernelURNs_def wf_map_def distinct_map_filter)

lemma find_SomeD: "find P xs = Some x \<Longrightarrow> x \<in> set xs \<and> P x"
  by (auto simp: find_Some_iff)

lemma primaryKernel_in: "kernels \<noteq> [] \<Longrightarrow> primaryKernel kernels \<in> set kernels"
  by (auto simp: primaryKernel_def dest: find_SomeD split: option.split list.split)

text \<open>The routes of the shard rules: what each prefix of a rule with a usable prefix leads to.\<close>

definition shard_links :: "(urn, node) gomap \<Rightarrow> relation list \<Rightarrow> urn list \<Rightarrow> (string \<times> urn) set" where
  "shard_links nodes rels kernels =
     {(pre, k). \<exists>u nd rel. (u, nd) \<in> set nodes \<and> shard_prefix nd = Some pre \<and> rel \<in> set rels \<and>
        r_SrcURN rel = u \<and> r_SrcPort rel = ''routes-to'' \<and> r_TgtURN rel = k \<and> k \<in> set kernels}"

lemma shard_links_Cons: "shard_links ((u, nd) # nodes) rels kernels =
  (case shard_prefix nd of None \<Rightarrow> {} | Some pre \<Rightarrow> {(pre, r_TgtURN rel) |rel. rel \<in> set rels \<and> r_SrcURN rel = u \<and>
     r_SrcPort rel = ''routes-to'' \<and> r_TgtURN rel \<in> set kernels}) \<union> shard_links nodes rels kernels"
  by (auto simp: shard_links_def split: option.splits)

lemma shard_routes_in: "mget (shard_routes u pre kernels rels out) p = Some k \<Longrightarrow>
  mget out p = Some k \<or> (p = pre \<and> (\<exists>rel\<in>set rels. r_SrcURN rel = u \<and> r_SrcPort rel = ''routes-to'' \<and>
    r_TgtURN rel \<in> set kernels \<and> r_TgtURN rel = k))"
proof (induction rels arbitrary: out)
  case Nil
  then show ?case by simp
next
  case (Cons rel rels)
  from Cons.IH [OF Cons.prems [unfolded shard_routes.simps]] show ?case by (auto split: if_splits)
qed

lemma shard_routes_dom: "mget (shard_routes u pre kernels rels out) p = None \<Longrightarrow>
  mget out p = None \<and> (p = pre \<longrightarrow> \<not> (\<exists>rel\<in>set rels. r_SrcURN rel = u \<and> r_SrcPort rel = ''routes-to'' \<and>
    r_TgtURN rel \<in> set kernels))"
proof (induction rels arbitrary: out)
  case Nil
  then show ?case by simp
next
  case (Cons rel rels)
  from Cons.IH [OF Cons.prems [unfolded shard_routes.simps]] show ?case by (auto split: if_splits)
qed

lemma wf_shard_routes: "wf_map out \<Longrightarrow> wf_map (shard_routes u pre kernels rels out)"
  by (induction rels arbitrary: out) auto

lemma shard_map_in: "mget (shard_map nodes rels kernels out) p = Some k \<Longrightarrow>
  mget out p = Some k \<or> (p, k) \<in> shard_links nodes rels kernels"
proof (induction nodes rels kernels out rule: shard_map.induct)
  case (1 rels kernels out)
  then show ?case by simp
next
  case (2 u nd nodes rels kernels out)
  from 2(1) [OF 2(2) [unfolded shard_map.simps]] show ?case
    by (auto simp: shard_links_Cons dest!: shard_routes_in split: option.splits)
qed

lemma shard_map_dom: "mget (shard_map nodes rels kernels out) p = None \<Longrightarrow>
  mget out p = None \<and> (\<forall>k. (p, k) \<notin> shard_links nodes rels kernels)"
proof (induction nodes rels kernels out rule: shard_map.induct)
  case (1 rels kernels out)
  then show ?case by (simp add: shard_links_def)
next
  case (2 u nd nodes rels kernels out)
  from 2(1) [OF 2(2) [unfolded shard_map.simps]] show ?case
    by (auto simp: shard_links_Cons dest!: shard_routes_dom split: option.splits)
qed

lemma wf_shard_map: "wf_map out \<Longrightarrow> wf_map (shard_map nodes rels kernels out)"
  by (induction nodes rels kernels out rule: shard_map.induct) (auto simp: wf_shard_routes split: option.split)

abbreviation links_of :: "graph_state \<Rightarrow> urn list \<Rightarrow> (string \<times> urn) set" where
  "links_of state kernels \<equiv> shard_links (Nodes state) (map snd (Relations state)) kernels"

lemma shardMap_links: "(p, k) \<in> set (shardPrefixToKernelMap state kernels) \<Longrightarrow> (p, k) \<in> links_of state kernels"
proof -
  assume a: "(p, k) \<in> set (shardPrefixToKernelMap state kernels)"
  have "wf_map (shardPrefixToKernelMap state kernels)" by (simp add: shardPrefixToKernelMap_def wf_shard_map)
  with a have "mget (shardPrefixToKernelMap state kernels) p = Some k" using mem_mget by metis
  then show ?thesis unfolding shardPrefixToKernelMap_def using shard_map_in by fastforce
qed

lemma links_shardMap: "(p, k) \<in> links_of state kernels \<Longrightarrow> \<exists>k'. (p, k') \<in> set (shardPrefixToKernelMap state kernels)"
  using shard_map_dom [of "Nodes state" "map snd (Relations state)" kernels "[]" p]
  unfolding shardPrefixToKernelMap_def by (meson mget_in_set not_None_eq)

lemma infer_in_kernels:
  assumes "kernels \<noteq> []"
  shows "inferCurrentKernel state kernels u \<in> set kernels"
proof -
  have "k \<in> set kernels" if "find P kernels = Some k" for P k
    using that by (simp add: find_SomeD)
  moreover have "k \<in> set kernels" if "find (\<lambda>(pre, _). HasPrefix u pre) (shardPrefixToKernelMap state kernels) = Some (p, k)" for p k
  proof -
    have "(p, k) \<in> set (shardPrefixToKernelMap state kernels)" using that by (auto dest: find_SomeD)
    then show ?thesis using shardMap_links by (auto simp: shard_links_def)
  qed
  ultimately show ?thesis
    using assms primaryKernel_in [OF assms] unfolding inferCurrentKernel_def
    by (auto split: option.split)
qed

text \<open>Filtering by a choice among the keys splits a list into one part per key.\<close>

lemma mset_split_by:
  assumes "distinct ks" "\<And>x. x \<in> set xs \<Longrightarrow> f x \<in> set ks"
  shows "mset (concat (map (\<lambda>k. filter (\<lambda>x. f x = k) xs) ks)) = mset xs"
  using assms(2)
proof (induction xs)
  case Nil
  then show ?case by (induction ks) simp_all
next
  case (Cons x xs)
  have "mset (concat (map (\<lambda>k. filter (\<lambda>x. f x = k) (x # xs)) ks)) =
      mset (concat (map (\<lambda>k. if f x = k then [x] else []) ks)) + mset (concat (map (\<lambda>k. filter (\<lambda>x. f x = k) xs) ks))"
    by (induction ks) auto
  also have "concat (map (\<lambda>k. if f x = k then [x] else []) ks) = [x]"
    using assms(1) Cons.prems [of x] by (induction ks) (auto simp: concat_eq_Nil_conv)
  finally show ?case using Cons by simp
qed

lemma fibers_split:
  assumes "wf_map (Nodes state)" "KernelURNs state \<noteq> []"
  shows "mset (concat (map (NodesInKernel state) (KernelURNs state))) = mset (mkeys (Nodes state))"
proof -
  have "mset (concat (map (NodesInKernel state) ks)) =
      mset (concat (map (\<lambda>k. filter (\<lambda>u. inferCurrentKernel state (KernelURNs state) u = k) (mkeys (Nodes state))) ks))" for ks
    by (induction ks) (simp_all add: NodesInKernel_def)
  then have "mset (concat (map (NodesInKernel state) (KernelURNs state))) =
      mset (concat (map (\<lambda>k. filter (\<lambda>u. inferCurrentKernel state (KernelURNs state) u = k) (mkeys (Nodes state)))
        (KernelURNs state)))" .
  also have "\<dots> = mset (mkeys (Nodes state))"
    by (rule mset_split_by [OF distinct_KernelURNs [OF assms(1)] infer_in_kernels [OF assms(2)]])
  finally show ?thesis .
qed

lemma KernelURNs_mset: "mset (Nodes s) = mset (Nodes s') \<Longrightarrow> KernelURNs s = KernelURNs s'"
  unfolding KernelURNs_def by (rule sort_mset_eq) simp

lemma links_of_mset:
  assumes "mset (Nodes s) = mset (Nodes s')" "mset (Relations s) = mset (Relations s')"
  shows "links_of s kernels = links_of s' kernels"
  using mset_eq_setD [OF assms(1)] mset_eq_setD [OF assms(2)] by (simp add: shard_links_def)

text \<open>The same maps in another order, and a node the steps before the shard rules do not place.\<close>

definition reorders :: "graph_state \<Rightarrow> graph_state \<Rightarrow> bool" where
  "reorders s s' \<longleftrightarrow> mset (Nodes s) = mset (Nodes s') \<and> mset (Relations s) = mset (Relations s')"

definition left_to_shards :: "urn list \<Rightarrow> urn \<Rightarrow> bool" where
  "left_to_shards kernels u \<longleftrightarrow> kernels \<noteq> [] \<and> u \<notin> set kernels \<and>
     find (\<lambda>k. HasPrefix u (k @ '':'') \<or> HasPrefix u (k @ ''.'')) kernels = None \<and>
     find (\<lambda>k. kernelAlias k \<noteq> '''' \<and> kernelAlias k \<noteq> ''primary'' \<and> hasAliasSegment u (kernelAlias k)) kernels = None"

lemma infer_shards:
  assumes "left_to_shards kernels u"
  shows "inferCurrentKernel state kernels u =
    (case find (\<lambda>(pre, _). HasPrefix u pre) (shardPrefixToKernelMap state kernels) of
       Some (_, k) \<Rightarrow> k
     | None \<Rightarrow> if primaryKernel kernels \<noteq> '''' then primaryKernel kernels else hd kernels)"
  using assms by (simp add: inferCurrentKernel_def left_to_shards_def)

lemma infer_linked:
  assumes "left_to_shards kernels u" "(p, k) \<in> links_of state kernels" "HasPrefix u p"
  shows "\<exists>p'. (p', inferCurrentKernel state kernels u) \<in> links_of state kernels \<and> HasPrefix u p'"
proof (cases "find (\<lambda>(pre, _). HasPrefix u pre) (shardPrefixToKernelMap state kernels)")
  case None
  with links_shardMap [OF assms(2)] assms(3) show ?thesis by (auto simp: find_None_iff)
next
  case (Some pk)
  obtain p' k' where "pk = (p', k')" by (cases pk)
  with Some have f: "find (\<lambda>(pre, _). HasPrefix u pre) (shardPrefixToKernelMap state kernels) = Some (p', k')" by simp
  with find_SomeD [OF f] have "(p', k') \<in> links_of state kernels" "HasPrefix u p'"
    by (simp_all add: shardMap_links)
  moreover have "inferCurrentKernel state kernels u = k'" using f by (simp add: infer_shards [OF assms(1)])
  ultimately show ?thesis by blast
qed

lemma shard_map_append: "shard_map (xs @ ys) rels kernels out = shard_map ys rels kernels (shard_map xs rels kernels out)"
  by (induction xs rels kernels out rule: shard_map.induct) auto

lemma shard_routes_append:
  "shard_routes u pre kernels (rels @ rels') out = shard_routes u pre kernels rels' (shard_routes u pre kernels rels out)"
  by (induction rels arbitrary: out) auto

text \<open>Rules with one prefix fill one entry; rules with another leave the first entry alone.\<close>

definition only_key :: "string \<Rightarrow> (string, urn) gomap \<Rightarrow> bool" where
  "only_key p out \<longleftrightarrow> set (mkeys out) \<subseteq> {p} \<and> length out \<le> 1"

lemma only_key_put: "only_key p out \<Longrightarrow> mput p k out = [(p, k)]"
  by (cases out) (auto simp: only_key_def)

lemma only_key_routes: "only_key p out \<Longrightarrow> only_key p (shard_routes u p kernels rels out)"
  by (induction rels arbitrary: out) (auto simp: only_key_put only_key_def)

lemma only_key_map:
  "\<forall>x\<in>set nodes. shard_prefix (snd x) = Some p \<Longrightarrow> only_key p out \<Longrightarrow>
   only_key p (shard_map nodes rels kernels out)"
  by (induction nodes rels kernels out rule: shard_map.induct) (auto simp: only_key_routes)

lemma keeps_first_routes: "pre \<noteq> p \<Longrightarrow> \<exists>rest'. shard_routes u pre kernels rels ((p, k) # rest) = (p, k) # rest'"
  by (induction rels arbitrary: rest) auto

lemma keeps_first_map:
  "\<forall>x\<in>set nodes. shard_prefix (snd x) \<noteq> Some p \<Longrightarrow>
   \<exists>rest'. shard_map nodes rels kernels ((p, k) # rest) = (p, k) # rest'"
proof (induction nodes rels kernels "(p, k) # rest" arbitrary: rest rule: shard_map.induct)
  case (1 rels kernels)
  then show ?case by simp
next
  case (2 u nd nodes rels kernels)
  have "shard_prefix nd \<noteq> Some p" using 2(2) by simp
  then obtain rest1 where r: "(case shard_prefix nd of None \<Rightarrow> (p, k) # rest
      | Some pre \<Rightarrow> shard_routes u pre kernels rels ((p, k) # rest)) = (p, k) # rest1"
    using keeps_first_routes by (cases "shard_prefix nd") fastforce+
  from 2(1) [OF r] 2(2) r show ?case by simp
qed

lemma in_set_remove1D: "x \<in> set (remove1 y xs) \<Longrightarrow> x \<in> set xs"
  using set_remove1_subset by fast

text \<open>Every link can come first: an order that ends the rules of its prefix with its own node and
  relation, and starts the map with that prefix.\<close>

lemma link_comes_first:
  assumes "(p, k) \<in> links_of s kernels"
  shows "\<exists>s' rest. reorders s s' \<and> shardPrefixToKernelMap s' kernels = (p, k) # rest"
proof -
  obtain u nd rel ru where n: "(u, nd) \<in> set (Nodes s)" "shard_prefix nd = Some p"
    and r: "(ru, rel) \<in> set (Relations s)" "r_SrcURN rel = u" "r_SrcPort rel = ''routes-to''" "r_TgtURN rel = k"
    and k: "k \<in> set kernels"
    using assms by (auto simp: shard_links_def)
  let ?P = "\<lambda>x. shard_prefix (snd x) = Some p"
  let ?A = "remove1 (u, nd) (filter ?P (Nodes s))" and ?B = "filter (\<lambda>x. \<not> ?P x) (Nodes s)"
  let ?R = "remove1 (ru, rel) (Relations s)"
  let ?s = "s\<lparr> Nodes := ?A @ (u, nd) # ?B, Relations := ?R @ [(ru, rel)] \<rparr>"
  have "mset (?A @ (u, nd) # ?B) = mset (filter ?P (Nodes s)) + mset ?B" using n by simp
  also have "\<dots> = mset (Nodes s)" using multiset_partition [of "mset (Nodes s)" ?P] by simp
  finally have re: "reorders s ?s" using r(1) by (simp add: reorders_def)
  have a: "only_key p (shard_map ?A (map snd (?R @ [(ru, rel)])) kernels [])"
    by (rule only_key_map) (auto simp: only_key_def dest: in_set_remove1D)
  have "shard_map ((u, nd) # ?B) (map snd (?R @ [(ru, rel)])) kernels out =
      shard_map ?B (map snd (?R @ [(ru, rel)])) kernels [(p, k)]" if "only_key p out" for out
    using n r k only_key_put [OF only_key_routes [OF that]] by (simp add: shard_routes_append)
  note first = this [OF a]
  have sel: "Nodes ?s = ?A @ (u, nd) # ?B" "Relations ?s = ?R @ [(ru, rel)]" by simp_all
  have "shardPrefixToKernelMap ?s kernels = shard_map ?B (map snd (?R @ [(ru, rel)])) kernels [(p, k)]"
    unfolding shardPrefixToKernelMap_def sel shard_map_append by (rule first)
  moreover have "\<forall>x\<in>set ?B. shard_prefix (snd x) \<noteq> Some p" by simp
  from keeps_first_map [OF this, of "map snd (?R @ [(ru, rel)])" kernels k "[]"]
  obtain rest where "shard_map ?B (map snd (?R @ [(ru, rel)])) kernels [(p, k)] = (p, k) # rest" by (rule exE)
  ultimately show ?thesis using re by metis
qed

text \<open>What Go may answer for such a node: the kernels that a rule with a prefix of its URN routes to.\<close>

lemma possible_placements:
  assumes "left_to_shards (KernelURNs s) u" "(p0, k0) \<in> links_of s (KernelURNs s)" "HasPrefix u p0"
  shows "{inferCurrentKernel s' (KernelURNs s') u |s'. reorders s s'} =
    {k. \<exists>p. (p, k) \<in> links_of s (KernelURNs s) \<and> HasPrefix u p}"
proof (intro set_eqI iffI)
  fix k assume "k \<in> {inferCurrentKernel s' (KernelURNs s') u |s'. reorders s s'}"
  then obtain s' where s': "reorders s s'" "k = inferCurrentKernel s' (KernelURNs s') u" by blast
  from s'(1) have ks: "KernelURNs s' = KernelURNs s" unfolding reorders_def by (intro KernelURNs_mset) simp
  from s'(1) have l: "links_of s' kernels = links_of s kernels" for kernels
    unfolding reorders_def by (intro links_of_mset) simp_all
  from infer_linked [of "KernelURNs s" u p0 k0 s'] assms s'(2)
  show "k \<in> {k. \<exists>p. (p, k) \<in> links_of s (KernelURNs s) \<and> HasPrefix u p}" by (simp add: ks l)
next
  fix k assume "k \<in> {k. \<exists>p. (p, k) \<in> links_of s (KernelURNs s) \<and> HasPrefix u p}"
  then obtain p where p: "(p, k) \<in> links_of s (KernelURNs s)" "HasPrefix u p" by blast
  from link_comes_first [OF p(1)] obtain s' rest where s': "reorders s s'"
    "shardPrefixToKernelMap s' (KernelURNs s) = (p, k) # rest" by blast
  moreover from s'(1) have "KernelURNs s' = KernelURNs s" unfolding reorders_def by (intro KernelURNs_mset) simp
  ultimately have "inferCurrentKernel s' (KernelURNs s') u = k" using p(2) by (simp add: infer_shards [OF assms(1)])
  with s'(1) show "k \<in> {inferCurrentKernel s' (KernelURNs s') u |s'. reorders s s'}" by blast
qed

section \<open>Crosswalks\<close>

lemma rotation_shape:
  "length (OrthogonalRotation M a b) = length a \<and> (\<forall>row\<in>set (OrthogonalRotation M a b). length row = length a)"
  by (auto simp: OrthogonalRotation_def Let_def identityMatrix_def plane_rotation_def)

lemma length_reduceHV [simp]: "length (reduceHV M v (int crosswalkDim)) = 64"
  by (simp add: reduceHV_def crosswalkDim_def Dimension_def Let_def)

lemma SchemeVectors_keys:
  assumes "SchemeVectors M state cb = (schemes, cb')" "mget schemes name = Some sv"
  shows "sv_Name sv = name \<and> name \<in> set (mkeys (scheme_groups state))"
proof -
  obtain batch where "schemes = map (\<lambda>(scheme, us). (scheme,
      \<lparr> sv_Name = scheme, sv_Members = sort us,
        sv_Vector = Bundle M (map (\<lambda>u. case mget batch u of None \<Rightarrow> zeroHV M | Some v \<Rightarrow> v) (sort us)) \<rparr>)) (scheme_groups state)"
    using assms(1) by (auto simp: SchemeVectors_def Let_def split: prod.splits)
  with map_of_SomeD [OF assms(2)] show ?thesis by force
qed

lemma crosswalk_found:
  assumes "ComputeCrosswalk M state src tgt cb = (Some cw, cb')"
  shows "cw_From cw = ToLower (TrimSpace src)" "cw_To cw = ToLower (TrimSpace tgt)"
    "cw_From cw \<in> set (mkeys (scheme_groups state))" "cw_To cw \<in> set (mkeys (scheme_groups state))"
    "cw_Dimension cw = crosswalkDim"
    "\<exists>v w. cw_Matrix cw = OrthogonalRotation M (reduceHV M v (int crosswalkDim)) (reduceHV M w (int crosswalkDim))"
proof -
  obtain schemes cb1 where sv: "SchemeVectors M state cb = (schemes, cb1)" by (cases "SchemeVectors M state cb")
  obtain f t where f: "mget schemes (ToLower (TrimSpace src)) = Some f" and t: "mget schemes (ToLower (TrimSpace tgt)) = Some t"
    and cw: "cw_From cw = sv_Name f" "cw_To cw = sv_Name t" "cw_Dimension cw = crosswalkDim"
      "cw_Matrix cw = OrthogonalRotation M (reduceHV M (sv_Vector f) (int crosswalkDim)) (reduceHV M (sv_Vector t) (int crosswalkDim))"
    using assms by (auto simp: ComputeCrosswalk_def sv Let_def split: option.splits)
  show "cw_From cw = ToLower (TrimSpace src)" "cw_To cw = ToLower (TrimSpace tgt)"
    "cw_From cw \<in> set (mkeys (scheme_groups state))" "cw_To cw \<in> set (mkeys (scheme_groups state))"
    "cw_Dimension cw = crosswalkDim"
    "\<exists>v w. cw_Matrix cw = OrthogonalRotation M (reduceHV M v (int crosswalkDim)) (reduceHV M w (int crosswalkDim))"
    using cw SchemeVectors_keys [OF sv f] SchemeVectors_keys [OF sv t] by auto
qed

lemma crosswalk_exists:
  assumes "ToLower (TrimSpace src) \<in> set (mkeys (scheme_groups state))"
    "ToLower (TrimSpace tgt) \<in> set (mkeys (scheme_groups state))"
  shows "\<exists>cw cb'. ComputeCrosswalk M state src tgt cb = (Some cw, cb')"
proof -
  obtain schemes cb1 where sv: "SchemeVectors M state cb = (schemes, cb1)" by (cases "SchemeVectors M state cb")
  then have "mkeys schemes = mkeys (scheme_groups state)"
    by (auto simp: SchemeVectors_def Let_def case_prod_beta split: prod.splits)
  with assms have "mget schemes (ToLower (TrimSpace src)) \<noteq> None" "mget schemes (ToLower (TrimSpace tgt)) \<noteq> None"
    by (simp_all add: map_of_eq_None_iff flip: set_map)
  then show ?thesis by (auto simp: ComputeCrosswalk_def sv Let_def)
qed

end
