(* ===== verification/HdcReal.thy ===== *)
theory HdcReal
  imports HdcSpec Complex_Main
begin

text \<open>
  Package hdc in exact arithmetic: the operations of \<open>mathlib\<close> on the real numbers, and what the
  formulas of the code then compute. The coin of math/rand stays a parameter.
\<close>

definition real_math :: "(int \<Rightarrow> nat \<Rightarrow> nat) \<Rightarrow> (real, real) mathlib" where
  "real_math coin =
     \<lparr> zero32 = 0, one32 = 1, minus_one32 = - 1, add32 = (+), sub32 = (-), mul32 = (*), div32 = (/),
       widen = (\<lambda>x. x), narrow = (\<lambda>x. x), lit = (\<lambda>m e. of_int m * 10 powi e), add64 = (+), sub64 = (-), mul64 = (*),
       div64 = (/), neg64 = uminus, less64 = (<), leq64 = (\<le>), eq64 = (=), Sqrt = sqrt, Abs64 = abs, Log64 = ln,
       Cos64 = cos, Sin64 = sin, Atan2 = (\<lambda>y x. Arg (Complex x y)), Min64 = min, Max64 = max, Intn2 = coin \<rparr>"

named_theorems exact

lemma real_math_ops [simp, exact]:
  "zero32 (real_math coin) = 0" "one32 (real_math coin) = 1" "minus_one32 (real_math coin) = - 1"
  "add32 (real_math coin) = (+)" "sub32 (real_math coin) = (-)" "mul32 (real_math coin) = (*)"
  "div32 (real_math coin) = (/)" "widen (real_math coin) x = x" "narrow (real_math coin) x = x"
  "add64 (real_math coin) = (+)" "sub64 (real_math coin) = (-)" "mul64 (real_math coin) = (*)"
  "div64 (real_math coin) = (/)" "neg64 (real_math coin) = uminus" "less64 (real_math coin) = (<)"
  "leq64 (real_math coin) = (\<le>)" "eq64 (real_math coin) = (=)" "Sqrt (real_math coin) = sqrt"
  "Abs64 (real_math coin) = abs" "Log64 (real_math coin) = ln" "Cos64 (real_math coin) = cos"
  "Sin64 (real_math coin) = sin" "Atan2 (real_math coin) y x = Arg (Complex x y)"
  "Min64 (real_math coin) = min" "Max64 (real_math coin) = max"
  "zero64 (real_math coin) = 0" "one64 (real_math coin) = 1"
  by (simp_all add: real_math_def zero64_def one64_def)

lemma lit_real [simp, exact]:
  "lit (real_math coin) 2 0 = 2" "lit (real_math coin) 5 (-1) = 1 / 2" "lit (real_math coin) (-1) 0 = - 1"
  by (simp_all add: real_math_def power_int_minus)

section \<open>Sums\<close>

lemma in_mkeys: "k \<in> set (mkeys m) \<Longrightarrow> \<exists>v. mget m k = Some v"
  by (cases "mget m k") (auto simp: map_of_eq_None_iff)

lemma foldl_sum_list: "foldl (\<lambda>s x. s + f x) a xs = a + sum_list (map f xs)" for f :: "'a \<Rightarrow> real"
  by (induction xs arbitrary: a) simp_all

lemma sum64_real [simp]: "sum64 (real_math coin) f n = (\<Sum>i<n. f i)"
  by (simp add: sum64_def foldl_sum_list sum_list_distinct_conv_sum_set lessThan_atLeast0)

lemma sum_list64_real [simp]: "sum_list64 (real_math coin) xs = sum_list xs"
  using foldl_sum_list [of id 0 xs] by (simp add: sum_list64_def)

lemma sum_gomap: "wf_map p \<Longrightarrow> sum_list (map (\<lambda>(k, v). f k v) p) = (\<Sum>k\<in>set (mkeys p). f k (the (mget p k)))"
  for f :: "'k \<Rightarrow> 'v \<Rightarrow> real"
proof -
  assume wf: "wf_map p"
  then have "sum_list (map (\<lambda>(k, v). f k v) p) = (\<Sum>(k, v)\<in>set p. f k v)"
    by (simp add: wf_map_def sum_list_distinct_conv_sum_set distinct_map)
  also have "\<dots> = (\<Sum>x\<in>set p. f (fst x) (the (mget p (fst x))))"
    using wf by (intro sum.cong) (auto simp: wf_map_def)
  also have "\<dots> = (\<Sum>k\<in>set (mkeys p). f k (the (mget p k)))"
    using wf by (simp add: wf_map_def distinct_map sum.reindex)
  finally show ?thesis .
qed

section \<open>Divergence\<close>


text \<open>A distribution: distinct types, no negative weight, total one.\<close>

definition is_dist :: "real dist \<Rightarrow> bool" where
  "is_dist p \<longleftrightarrow> wf_map p \<and> (\<forall>(k, x)\<in>set p. 0 \<le> x) \<and> (\<Sum>k\<in>set (mkeys p). the (mget p k)) = 1"

abbreviation wt :: "real dist \<Rightarrow> type_id \<Rightarrow> real" where
  "wt p k \<equiv> case mget p k of None \<Rightarrow> 0 | Some x \<Rightarrow> x"

lemma weight_of_real [simp]: "weight_of (real_math coin) p k = wt p k"
  by (cases "mget p k") (simp_all add: weight_of_def)

definition midpoint :: "real dist \<Rightarrow> real dist \<Rightarrow> real dist" where
  "midpoint p q = map (\<lambda>k. (k, (wt p k + wt q k) / 2)) (remdups (mkeys p @ mkeys q))"

lemma wt_nonneg: "is_dist p \<Longrightarrow> 0 \<le> wt p k"
  by (cases "mget p k") (auto simp: is_dist_def dest: map_of_SomeD)

lemma mget_midpoint: "k \<in> set (mkeys p) \<union> set (mkeys q) \<Longrightarrow> mget (midpoint p q) k = Some ((wt p k + wt q k) / 2)"
  by (auto simp: midpoint_def map_of_map_restrict restrict_map_def)

lemma sum_wt: "is_dist p \<Longrightarrow> set (mkeys p) \<subseteq> S \<Longrightarrow> finite S \<Longrightarrow> (\<Sum>k\<in>S. wt p k) = 1"
proof -
  assume d: "is_dist p" and S: "set (mkeys p) \<subseteq> S" "finite S"
  have "(\<Sum>k\<in>S. wt p k) = (\<Sum>k\<in>set (mkeys p). wt p k)"
    using S by (intro sum.mono_neutral_right) (auto split: option.split dest: map_of_SomeD simp: rev_image_eqI)
  also have "\<dots> = (\<Sum>k\<in>set (mkeys p). the (mget p k))"
    by (intro sum.cong) (auto split: option.split simp: map_of_eq_None_iff)
  finally show ?thesis using d by (simp add: is_dist_def)
qed

text \<open>One term of the divergence from the midpoint lies between x - m and x, in units of log 2.\<close>

lemma kl_term_bounds:
  fixes x m :: real
  assumes "0 < x" "x / 2 \<le> m"
  shows "(x - m) / ln 2 \<le> x * (ln (x / m) / ln 2)" "x * (ln (x / m) / ln 2) \<le> x"
proof -
  have m: "0 < m" using assms by simp
  have "1 - m / x \<le> ln (x / m)"
    using ln_le_minus_one [of "m / x"] assms(1) m by (simp add: ln_div)
  then have "x * (1 - m / x) \<le> x * ln (x / m)" using assms(1) by (intro mult_left_mono) simp_all
  also have "x * (1 - m / x) = x - m" using assms(1) by (simp add: right_diff_distrib)
  finally show "(x - m) / ln 2 \<le> x * (ln (x / m) / ln 2)" by (simp add: divide_right_mono)
  have "x / m \<le> 2" using assms m by (simp add: divide_le_eq)
  then have "ln (x / m) \<le> ln 2" using assms m by simp
  then have "ln (x / m) / ln 2 \<le> 1" by simp
  then show "x * (ln (x / m) / ln 2) \<le> x" using assms(1) by (intro mult_left_le) simp_all
qed

lemma klDivergence_real:
  assumes "wf_map p"
  shows "klDivergence (real_math coin) p q = (\<Sum>k\<in>set (mkeys p).
    if wt p k \<le> 0 \<or> wt q k \<le> 0 then 0 else wt p k * (ln (wt p k / wt q k) / ln 2))"
proof -
  let ?f = "\<lambda>k x. if x \<le> 0 \<or> wt q k \<le> 0 then 0 else x * (ln (x / wt q k) / ln 2)"
  have "(\<lambda>out (k, pv). if leq64 (real_math coin) pv (zero64 (real_math coin)) then out
         else let qv = weight_of (real_math coin) q k
           in if leq64 (real_math coin) qv (zero64 (real_math coin)) then out
              else add64 (real_math coin) out (mul64 (real_math coin) pv
                (div64 (real_math coin) (Log64 (real_math coin) (div64 (real_math coin) pv qv))
                   (Log64 (real_math coin) (lit (real_math coin) 2 0)))))
      = (\<lambda>out kx. out + (\<lambda>(k, x). ?f k x) kx)"
    by (auto simp: fun_eq_iff weight_of_def Let_def split: option.split)
  then have "klDivergence (real_math coin) p q = sum_list (map (\<lambda>(k, x). ?f k x) p)"
    unfolding klDivergence_def by (simp add: foldl_sum_list)
  also have "\<dots> = (\<Sum>k\<in>set (mkeys p). ?f k (the (mget p k)))" by (rule sum_gomap [OF assms])
  also have "\<dots> = (\<Sum>k\<in>set (mkeys p). ?f k (wt p k))"
    by (intro sum.cong) (auto split: option.split simp: map_of_eq_None_iff)
  finally show ?thesis .
qed

lemma kl_midpoint_bounds:
  assumes p: "is_dist p" and m: "\<And>k. k \<in> set (mkeys p) \<Longrightarrow> wt m k = (wt p k + wt q k) / 2" and q: "is_dist q"
  shows "0 \<le> klDivergence (real_math coin) p m" "klDivergence (real_math coin) p m \<le> 1"
proof -
  let ?K = "set (mkeys p)" and ?S = "set (mkeys p) \<union> set (mkeys q)"
  let ?t = "\<lambda>k. if wt p k \<le> 0 \<or> wt m k \<le> 0 then 0 else wt p k * (ln (wt p k / wt m k) / ln 2)"
  have wf: "wf_map p" using p by (simp add: is_dist_def)
  have pos: "0 < wt m k" if "k \<in> ?K" "0 < wt p k" for k
    using m [OF that(1)] that(2) wt_nonneg [OF q, of k] by simp
  have low: "(wt p k - wt m k) / ln 2 \<le> ?t k" and high: "?t k \<le> wt p k" if "k \<in> ?K" for k
  proof -
    have n: "0 \<le> wt p k" "0 \<le> wt q k" using wt_nonneg p q by blast+
    have half: "wt p k / 2 \<le> wt m k" using m [OF that] n by simp
    show "(wt p k - wt m k) / ln 2 \<le> ?t k"
      using kl_term_bounds(1) [of "wt p k" "wt m k"] pos [OF that] half n by (cases "wt p k = 0") auto
    show "?t k \<le> wt p k"
      using kl_term_bounds(2) [of "wt p k" "wt m k"] pos [OF that] half n by (cases "wt p k = 0") auto
  qed
  have "(\<Sum>k\<in>?K. wt m k) = (\<Sum>k\<in>?K. (wt p k + wt q k) / 2)" using m by (intro sum.cong) auto
  also have "\<dots> \<le> (\<Sum>k\<in>?S. (wt p k + wt q k) / 2)"
    using wt_nonneg [OF p] wt_nonneg [OF q] by (intro sum_mono2) auto
  also have "\<dots> = ((\<Sum>k\<in>?S. wt p k) + (\<Sum>k\<in>?S. wt q k)) / 2" by (simp add: sum.distrib flip: sum_divide_distrib)
  also have "\<dots> = 1" using sum_wt [OF p, of ?S] sum_wt [OF q, of ?S] by simp
  finally have "0 \<le> ((\<Sum>k\<in>?K. wt p k) - (\<Sum>k\<in>?K. wt m k)) / ln 2"
    using sum_wt [OF p order_refl] by simp
  also have "\<dots> = (\<Sum>k\<in>?K. (wt p k - wt m k) / ln 2)" by (simp add: sum_subtractf flip: sum_divide_distrib)
  also have "\<dots> \<le> (\<Sum>k\<in>?K. ?t k)" using low by (rule sum_mono)
  finally show "0 \<le> klDivergence (real_math coin) p m" by (simp add: klDivergence_real [OF wf])
  have "(\<Sum>k\<in>?K. ?t k) \<le> (\<Sum>k\<in>?K. wt p k)" using high by (rule sum_mono)
  then show "klDivergence (real_math coin) p m \<le> 1"
    using sum_wt [OF p order_refl] by (simp add: klDivergence_real [OF wf])
qed

lemma JSD_real: "JensenShannonDivergence (real_math coin) p q =
  (klDivergence (real_math coin) p (midpoint p q) + klDivergence (real_math coin) q (midpoint p q)) / 2"
  by (simp add: JensenShannonDivergence_def midpoint_def Let_def add_divide_distrib)

lemma JSD_bounds:
  assumes "is_dist p" "is_dist q"
  shows "0 \<le> JensenShannonDivergence (real_math coin) p q \<and> JensenShannonDivergence (real_math coin) p q \<le> 1"
proof -
  have 1: "wt (midpoint p q) k = (wt p k + wt q k) / 2" if "k \<in> set (mkeys p)" for k
    using mget_midpoint [of k p q] that by simp
  have 2: "wt (midpoint p q) k = (wt q k + wt p k) / 2" if "k \<in> set (mkeys q)" for k
    using mget_midpoint [of k p q] that by simp
  from kl_midpoint_bounds [OF assms(1) 1 assms(2), where coin = coin]
    kl_midpoint_bounds [OF assms(2) 2 assms(1), where coin = coin]
  show ?thesis unfolding JSD_real by simp
qed

text \<open>The distributions the code compares: type counts of a list of nodes, normalised.\<close>

definition counts_ok :: "real dist \<Rightarrow> nat \<Rightarrow> bool" where
  "counts_ok c n \<longleftrightarrow> wf_map c \<and> (\<forall>(k, x)\<in>set c. 0 \<le> x) \<and> (\<Sum>k\<in>set (mkeys c). the (mget c k)) = real n"

lemma counts_ok_bump:
  assumes "counts_ok c n"
  shows "counts_ok (mput t (wt c t + 1) c) (Suc n)"
proof -
  let ?c = "mput t (wt c t + 1) c"
  have wf: "wf_map c" and nn: "\<forall>(k, x)\<in>set c. 0 \<le> x" and s: "(\<Sum>k\<in>set (mkeys c). the (mget c k)) = real n"
    using assms by (simp_all add: counts_ok_def)
  have wf': "wf_map ?c" using wf by simp
  have "0 \<le> wt c t" using nn by (cases "mget c t") (auto dest: map_of_SomeD)
  then have "0 \<le> x" if "(k, x) \<in> set ?c" for k x
  proof -
    have "mget ?c k = Some x" using wf' that unfolding wf_map_def by (rule map_of_is_SomeI)
    then show ?thesis using nn \<open>0 \<le> wt c t\<close> by (cases "k = t") (auto dest: map_of_SomeD)
  qed
  moreover have "(\<Sum>k\<in>set (mkeys ?c). the (mget ?c k)) = real n + 1"
  proof (cases "t \<in> set (mkeys c)")
    case True
    from in_mkeys [OF this] obtain x where x: "mget c t = Some x" by (rule exE)
    have keys: "set (mkeys ?c) = set (mkeys c)" using True by (simp only: mkeys_put insert_absorb)
    have "(\<Sum>k\<in>set (mkeys ?c). the (mget ?c k)) = (x + 1) + (\<Sum>k\<in>set (mkeys c) - {t}. the (mget ?c k))"
      unfolding keys sum.remove [OF finite_set True] using x by simp
    also have "(\<Sum>k\<in>set (mkeys c) - {t}. the (mget ?c k)) = (\<Sum>k\<in>set (mkeys c) - {t}. the (mget c k))"
      by (intro sum.cong) auto
    also have "\<dots> = real n - x" using s True x by (simp add: sum.remove [of _ t])
    finally show ?thesis by simp
  next
    case False
    then have x: "mget c t = None" by (simp add: map_of_eq_None_iff)
    have "(\<Sum>k\<in>set (mkeys ?c). the (mget ?c k)) = 1 + (\<Sum>k\<in>set (mkeys c). the (mget ?c k))"
      unfolding mkeys_put sum.insert [OF finite_set False] using x by simp
    also have "(\<Sum>k\<in>set (mkeys c). the (mget ?c k)) = (\<Sum>k\<in>set (mkeys c). the (mget c k))"
      using False by (intro sum.cong) auto
    finally show ?thesis using s by simp
  qed
  ultimately show ?thesis using wf' by (auto simp: counts_ok_def)
qed

lemma count_types_ok: "counts_ok (count_types (real_math coin) nds) (length nds)"
proof -
  have "counts_ok (foldl (\<lambda>counts nd. mput (n_TypeID nd) (add64 (real_math coin) (weight_of (real_math coin) counts (n_TypeID nd))
      (one64 (real_math coin))) counts) c nds) (n + length nds)" if "counts_ok c n" for c n
    using that
  proof (induction nds arbitrary: c n)
    case Nil
    then show ?case by simp
  next
    case (Cons nd nds)
    have "counts_ok (mput (n_TypeID nd) (weight_of (real_math coin) c (n_TypeID nd) + 1) c) (Suc n)"
      using counts_ok_bump [OF Cons.prems] by simp
    from Cons.IH [OF this] show ?case by simp
  qed
  from this [of "[]" 0] show ?thesis by (simp add: count_types_def counts_ok_def)
qed

lemma is_dist_normalized:
  assumes "counts_ok c n" "0 < n"
  shows "is_dist (normalizeDistribution (real_math coin) c)"
proof -
  have wf: "wf_map c" and nn: "\<forall>(k, x)\<in>set c. 0 \<le> x" and s: "(\<Sum>k\<in>set (mkeys c). the (mget c k)) = real n"
    using assms by (simp_all add: counts_ok_def)
  have "(\<lambda>(k :: type_id, x :: real). x) = snd" by auto
  then have tot: "foldl (\<lambda>s kv. s + snd kv) 0 c = real n"
    using sum_gomap [OF wf, of "\<lambda>_ x. x"] s by (simp add: foldl_sum_list)
  have nd: "normalizeDistribution (real_math coin) c = map (\<lambda>(k, x). (k, x / real n)) c"
    using assms(2) tot by (simp add: normalizeDistribution_def)
  have k: "mkeys (map (\<lambda>(k, x). (k, x / real n)) c) = mkeys c" by (induction c) auto
  have "(\<Sum>k\<in>set (mkeys c). the (mget (map (\<lambda>(k, x). (k, x / real n)) c) k)) =
      (\<Sum>k\<in>set (mkeys c). the (mget c k) / real n)"
  proof (intro sum.cong refl)
    fix k assume "k \<in> set (mkeys c)"
    from in_mkeys [OF this] obtain x where "mget c k = Some x" by (rule exE)
    then show "the (mget (map (\<lambda>(k, x). (k, x / real n)) c) k) = the (mget c k) / real n"
      using mget_map_kv [of "\<lambda>_ x. x / real n" c k] by simp
  qed
  also have "\<dots> = 1" using s assms(2) by (simp flip: sum_divide_distrib)
  finally show ?thesis
    unfolding nd is_dist_def wf_map_def k using wf nn by (auto simp: wf_map_def)
qed

text \<open>The code's sort permutes.\<close>

lemma mset_sort_slice: "mset (sort_slice lt xs) = mset xs"
proof -
  have "mset (insert_by lt x ys) = add_mset x (mset ys)" for x ys by (induction ys) auto
  then show ?thesis unfolding sort_slice_def by (induction xs) auto
qed

lemma set_sort_slice: "set (sort_slice lt xs) = set xs"
  using mset_eq_setD [OF mset_sort_slice] .

lemma normalized_count: "nds \<noteq> [] \<Longrightarrow> is_dist (normalizeDistribution (real_math coin) (count_types (real_math coin) nds))"
  by (rule is_dist_normalized [OF count_types_ok]) simp

lemma FiberDistribution_JSD:
  assumes "e \<in> set (FiberDistribution (real_math coin) state)"
  shows "0 \<le> fd_JSD e \<and> fd_JSD e \<le> 1"
proof -
  let ?M = "real_math coin"
  let ?dist = "\<lambda>nds. normalizeDistribution ?M (count_types ?M nds)"
  obtain k where k: "k \<in> set (KernelURNs state)"
    and e: "e = distribution_of ?M state (KernelURNs state) (?dist (map snd (Nodes state))) k"
    using assms by (auto simp: FiberDistribution_def Let_def set_sort_slice)
  let ?fiber = "map snd (filter (\<lambda>(u, nd). inferCurrentKernel state (KernelURNs state) u = k) (Nodes state))"
  obtain nd where nd: "(k, nd) \<in> set (Nodes state)" using k by (auto simp: set_KernelURNs)
  have "inferCurrentKernel state (KernelURNs state) k = k" using k by (auto simp: inferCurrentKernel_def)
  with nd have "nd \<in> set ?fiber" by force
  then have "?fiber \<noteq> []" by (metis empty_iff list.set(1))
  then have "is_dist (?dist ?fiber)" by (rule normalized_count)
  moreover have "is_dist (?dist (map snd (Nodes state)))" using nd by (intro normalized_count) auto
  moreover have "fd_JSD e = JensenShannonDivergence ?M (?dist ?fiber) (?dist (map snd (Nodes state)))"
    by (simp add: e distribution_of_def Let_def)
  ultimately show ?thesis using JSD_bounds by simp
qed

lemma FiberDistribution_nonempty: "KernelURNs state \<noteq> [] \<Longrightarrow> FiberDistribution M state \<noteq> []"
  unfolding FiberDistribution_def Let_def by (simp add: set_sort_slice flip: set_empty)

end
