(* ===== verification/HdcJacobi.thy ===== *)
theory HdcJacobi
  imports HdcReal
begin

text \<open>
  The Jacobi iteration of spectral.go in exact arithmetic. A rotation turns the matrix and the basis
  together (\<open>turned\<close>), keeps the basis orthonormal and the eigenvalue equation, and takes twice the
  square of the largest entry from the sum of squares off the diagonal; 50 n^2 of them suffice.
\<close>

section \<open>Square matrices\<close>

definition sq :: "nat \<Rightarrow> real matrix \<Rightarrow> bool" where
  "sq n a \<longleftrightarrow> length a = n \<and> (\<forall>i<n. length (a ! i) = n)"

lemma sq_set2 [simp]: "sq n a \<Longrightarrow> sq n (set2 a i j x)"
proof -
  assume a: "sq n a"
  have "length (a[i := (a ! i)[j := x]] ! k) = n" if "k < n" for k
    using a that by (cases "k = i") (simp_all add: sq_def)
  with a show ?thesis by (simp add: sq_def set2_def)
qed

lemma set2_nth: "sq n a \<Longrightarrow> i < n \<Longrightarrow> j < n \<Longrightarrow> k < n \<Longrightarrow> l < n \<Longrightarrow>
  set2 a i j x ! k ! l = (if k = i \<and> l = j then x else a ! k ! l)"
  by (auto simp: sq_def set2_def nth_list_update)

lemma sq_identity: "sq n (identityMatrix M n)"
  by (simp add: sq_def identityMatrix_def)

lemma identity_nth: "i < n \<Longrightarrow> j < n \<Longrightarrow> identityMatrix (real_math coin) n ! i ! j = (if i = j then 1 else 0)"
  by (simp add: identityMatrix_def)

text \<open>A plane of two coordinates and an angle in it.\<close>

definition turn :: "nat \<Rightarrow> nat \<Rightarrow> nat \<Rightarrow> real \<Rightarrow> real \<Rightarrow> bool" where
  "turn n p q c s \<longleftrightarrow> p < n \<and> q < n \<and> p \<noteq> q \<and> c * c + s * s = 1"

text \<open>Columns p and q of a basis turned.\<close>

definition turned_cols :: "nat \<Rightarrow> nat \<Rightarrow> real \<Rightarrow> real \<Rightarrow> (nat \<Rightarrow> nat \<Rightarrow> real) \<Rightarrow> nat \<Rightarrow> nat \<Rightarrow> real" where
  "turned_cols p q c s V i j =
     (if j = p then c * V i p - s * V i q else if j = q then s * V i p + c * V i q else V i j)"

text \<open>A matrix with the same turn on both sides, the crossing of p and q set to zero.\<close>

definition turned :: "nat \<Rightarrow> nat \<Rightarrow> real \<Rightarrow> real \<Rightarrow> (nat \<Rightarrow> nat \<Rightarrow> real) \<Rightarrow> nat \<Rightarrow> nat \<Rightarrow> real" where
  "turned p q c s A i j =
     (if i = p \<and> j = p then c * c * A p p - 2 * s * c * A p q + s * s * A q q
      else if i = q \<and> j = q then s * s * A p p + 2 * s * c * A p q + c * c * A q q
      else if (i = p \<and> j = q) \<or> (i = q \<and> j = p) then 0
      else if i = p then c * A j p - s * A j q
      else if i = q then s * A j p + c * A j q
      else if j = p then c * A i p - s * A i q
      else if j = q then s * A i p + c * A i q
      else A i j)"

section \<open>The code's loops\<close>

definition side :: "nat \<Rightarrow> nat \<Rightarrow> real \<Rightarrow> real \<Rightarrow> (nat \<Rightarrow> nat \<Rightarrow> real) \<Rightarrow> nat \<Rightarrow> nat \<Rightarrow> real" where
  "side p q c s A i j = (if j = p then c * A i p - s * A i q else s * A i p + c * A i q)"

definition sides_to :: "nat \<Rightarrow> nat \<Rightarrow> nat \<Rightarrow> real \<Rightarrow> real \<Rightarrow> (nat \<Rightarrow> nat \<Rightarrow> real) \<Rightarrow> nat \<Rightarrow> nat \<Rightarrow> real" where
  "sides_to m p q c s A i j =
     (if j \<in> {p, q} \<and> i \<notin> {p, q} then (if i < m then side p q c s A i j else A i j)
      else if i \<in> {p, q} \<and> j \<notin> {p, q} then (if j < m then side p q c s A j i else A i j)
      else A i j)"

lemma sides_to_Suc: "sides_to (Suc m) p q c s A k l =
  (if m \<in> {p, q} then sides_to m p q c s A k l
   else if k = m \<and> l \<in> {p, q} then side p q c s A m l
   else if l = m \<and> k \<in> {p, q} then side p q c s A m k
   else sides_to m p q c s A k l)"
  by (cases "k \<in> {p, q}"; cases "l \<in> {p, q}") (auto simp: sides_to_def less_Suc_eq)

lemma sides_to_fresh: "m \<notin> {p, q} \<Longrightarrow> sides_to m p q c s A m j = A m j"
  by (simp add: sides_to_def)

lemma sq_sides [simp]: "sq n a \<Longrightarrow> sq n (rotate_sides M c s p q a i)"
  by (simp add: rotate_sides_def Let_def)

lemma rotate_sides_nth:
  assumes "sq n a" "p < n" "q < n" "p \<noteq> q" "i < n" "k < n" "l < n"
  shows "rotate_sides (real_math coin) c s p q a i ! k ! l =
    (if i \<in> {p, q} then a ! k ! l
     else if k = i \<and> l \<in> {p, q} then side p q c s (\<lambda>i j. a ! i ! j) i l
     else if l = i \<and> k \<in> {p, q} then side p q c s (\<lambda>i j. a ! i ! j) i k
     else a ! k ! l)"
proof (cases "i \<in> {p, q}")
  case True
  then show ?thesis by (auto simp: rotate_sides_def)
next
  case False
  then show ?thesis using assms by (simp add: rotate_sides_def Let_def set2_nth [of n] side_def) blast
qed

lemma rotate_sides_loop:
  assumes "sq n a" "p < n" "q < n" "p \<noteq> q" "m \<le> n"
  shows "sq n (foldl (rotate_sides (real_math coin) c s p q) a [0..<m]) \<and>
    (\<forall>k<n. \<forall>l<n. foldl (rotate_sides (real_math coin) c s p q) a [0..<m] ! k ! l =
       sides_to m p q c s (\<lambda>i j. a ! i ! j) k l)"
  using assms(5)
proof (induction m)
  case 0
  then show ?case using assms(1) by (simp add: sides_to_def)
next
  case (Suc m)
  let ?b = "foldl (rotate_sides (real_math coin) c s p q) a [0..<m]"
  have b: "sq n ?b" "\<And>k l. k < n \<Longrightarrow> l < n \<Longrightarrow> ?b ! k ! l = sides_to m p q c s (\<lambda>i j. a ! i ! j) k l"
    using Suc by simp_all
  have m: "m < n" using Suc.prems by simp
  have "rotate_sides (real_math coin) c s p q ?b m ! k ! l = sides_to (Suc m) p q c s (\<lambda>i j. a ! i ! j) k l"
    if "k < n" "l < n" for k l
    unfolding rotate_sides_nth [OF b(1) assms(2-4) m that] side_def b(2) [OF m assms(2)] b(2) [OF m assms(3)]
      b(2) [OF that] sides_to_Suc
    by (simp add: sides_to_fresh)
  with b(1) show ?case by simp
qed

lemma rotate_cross_nth:
  assumes "sq n a" "p < n" "q < n" "p \<noteq> q" "k < n" "l < n"
  shows "rotate_cross (real_math coin) c s p q a ! k ! l =
    (if k = p \<and> l = p then c * c * a ! p ! p - 2 * s * c * a ! p ! q + s * s * a ! q ! q
     else if k = q \<and> l = q then s * s * a ! p ! p + 2 * s * c * a ! p ! q + c * c * a ! q ! q
     else if (k = p \<and> l = q) \<or> (k = q \<and> l = p) then 0
     else a ! k ! l)"
  using assms by (auto simp: rotate_cross_def Let_def set2_nth [of n])

lemma sq_cross: "sq n a \<Longrightarrow> sq n (rotate_cross M c s p q a)"
  by (simp add: rotate_cross_def Let_def)

lemma rotate_vector_loop:
  assumes "sq n v" "p < n" "q < n" "p \<noteq> q" "m \<le> n"
  shows "sq n (foldl (rotate_vector (real_math coin) c s p q) v [0..<m]) \<and>
    (\<forall>k<n. \<forall>l<n. foldl (rotate_vector (real_math coin) c s p q) v [0..<m] ! k ! l =
       (if k < m then turned_cols p q c s (\<lambda>i j. v ! i ! j) k l else v ! k ! l))"
  using assms(5)
proof (induction m)
  case 0
  then show ?case using assms(1) by simp
next
  case (Suc m)
  let ?b = "foldl (rotate_vector (real_math coin) c s p q) v [0..<m]"
  have b: "sq n ?b" "\<And>k l. k < n \<Longrightarrow> l < n \<Longrightarrow> ?b ! k ! l =
      (if k < m then turned_cols p q c s (\<lambda>i j. v ! i ! j) k l else v ! k ! l)"
    using Suc by simp_all
  have m: "m < n" using Suc.prems by simp
  have "rotate_vector (real_math coin) c s p q ?b m ! k ! l =
      (if k < Suc m then turned_cols p q c s (\<lambda>i j. v ! i ! j) k l else v ! k ! l)" if "k < n" "l < n" for k l
    using assms(2-4) m that b(1) by (auto simp: rotate_vector_def Let_def set2_nth [of n] b(2) turned_cols_def less_Suc_eq)
  moreover have "sq n (rotate_vector (real_math coin) c s p q ?b m)" using b(1) by (simp add: rotate_vector_def Let_def)
  ultimately show ?case by simp
qed

text \<open>The angle of the code.\<close>

definition jacobi_angle :: "real matrix \<Rightarrow> nat \<Rightarrow> nat \<Rightarrow> real" where
  "jacobi_angle a p q = Arg (Complex (a ! q ! q - a ! p ! p) (2 * a ! p ! q)) / 2"

lemma jacobi_step_turned:
  assumes "sq n a" "sq n v" "p < n" "q < n" "p \<noteq> q" "jacobi_step (real_math coin) p q (a, v) = (a', v')"
  shows "sq n a'" "sq n v'"
    "\<And>i j. i < n \<Longrightarrow> j < n \<Longrightarrow>
       a' ! i ! j = turned p q (cos (jacobi_angle a p q)) (sin (jacobi_angle a p q)) (\<lambda>i j. a ! i ! j) i j"
    "\<And>i j. i < n \<Longrightarrow> j < n \<Longrightarrow>
       v' ! i ! j = turned_cols p q (cos (jacobi_angle a p q)) (sin (jacobi_angle a p q)) (\<lambda>i j. v ! i ! j) i j"
proof -
  let ?c = "cos (jacobi_angle a p q)" and ?s = "sin (jacobi_angle a p q)"
  have len: "length a = n" using assms(1) by (simp add: sq_def)
  let ?b = "foldl (rotate_sides (real_math coin) ?c ?s p q) a [0..<n]"
  have step: "a' = rotate_cross (real_math coin) ?c ?s p q ?b"
    "v' = foldl (rotate_vector (real_math coin) ?c ?s p q) v [0..<n]"
    using assms(6) by (simp_all add: jacobi_step_def Let_def len jacobi_angle_def)
  note b = rotate_sides_loop [OF assms(1,3-5) order_refl, of coin ?c ?s]
  note w = rotate_vector_loop [OF assms(2-5) order_refl, of coin ?c ?s]
  show "sq n a'" "sq n v'" using b w by (simp_all add: step sq_cross)
  show "a' ! i ! j = turned p q ?c ?s (\<lambda>i j. a ! i ! j) i j" if "i < n" "j < n" for i j
    using b assms(3-5) that
    by (simp add: step rotate_cross_nth [of n] turned_def sides_to_def side_def)
  show "v' ! i ! j = turned_cols p q ?c ?s (\<lambda>i j. v ! i ! j) i j" if "i < n" "j < n" for i j
    using w that by (simp add: step)
qed

section \<open>One rotation\<close>

lemma angle_zeroes:
  fixes x y :: real
  defines "f \<equiv> Arg (Complex y (2 * x)) / 2"
  shows "(cos f * cos f - sin f * sin f) * x = sin f * cos f * y"
proof (cases "Complex y (2 * x) = 0")
  case True
  then show ?thesis by (simp add: complex_eq_iff)
next
  case False
  let ?z = "Complex y (2 * x)"
  have "cis (2 * f) = sgn ?z" using cis_Arg [OF False] by (simp add: f_def)
  then have "cos (2 * f) = y / cmod ?z" "sin (2 * f) = 2 * x / cmod ?z"
    by (auto simp: complex_eq_iff Re_sgn Im_sgn)
  then have "cos (2 * f) * (2 * x) = sin (2 * f) * y" by simp
  then have "(cos f * cos f - sin f * sin f) * (2 * x) = (2 * sin f * cos f) * y"
    unfolding cos_double sin_double power2_eq_square .
  then show ?thesis by (simp add: algebra_simps)
qed

lemma angle_unit: "cos f * cos f + sin f * sin f = (1 :: real)"
  using sin_cos_squared_add [of f] by (simp add: power2_eq_square)

text \<open>A turn keeps inner products.\<close>

lemma turn_inner:
  fixes c s :: real
  assumes "c * c + s * s = 1"
  shows "v * a + w * b = (c * v - s * w) * (c * a - s * b) + (s * v + c * w) * (s * a + c * b)"
proof -
  have "(c * v - s * w) * (c * a - s * b) + (s * v + c * w) * (s * a + c * b) = (c * c + s * s) * (v * a + w * b)"
    by (simp add: algebra_simps)
  then show ?thesis using assms by simp
qed

lemma sum_split2:
  fixes f :: "nat \<Rightarrow> real"
  assumes "p < n" "q < n" "p \<noteq> q"
  shows "(\<Sum>k<n. f k) = f p + f q + (\<Sum>k\<in>{..<n} - {p, q}. f k)"
proof -
  have "(\<Sum>k<n. f k) = f p + (\<Sum>k\<in>{..<n} - {p}. f k)" using assms(1) by (simp add: sum.remove)
  also have "(\<Sum>k\<in>{..<n} - {p}. f k) = f q + (\<Sum>k\<in>{..<n} - {p} - {q}. f k)"
    using assms(2,3) by (intro sum.remove) auto
  also have "{..<n} - {p} - {q} = {..<n} - {p, q}" by auto
  finally show ?thesis by simp
qed

text \<open>What the iteration keeps: a symmetric matrix, an orthonormal basis, and the eigenvalue equation
  of the matrix it started from.\<close>

definition symmetric :: "nat \<Rightarrow> (nat \<Rightarrow> nat \<Rightarrow> real) \<Rightarrow> bool" where
  "symmetric n A \<longleftrightarrow> (\<forall>i<n. \<forall>j<n. A i j = A j i)"

definition orthonormal :: "nat \<Rightarrow> (nat \<Rightarrow> nat \<Rightarrow> real) \<Rightarrow> bool" where
  "orthonormal n V \<longleftrightarrow> (\<forall>i<n. \<forall>j<n. (\<Sum>k<n. V k i * V k j) = (if i = j then 1 else 0))"

definition intertwines :: "nat \<Rightarrow> (nat \<Rightarrow> nat \<Rightarrow> real) \<Rightarrow> (nat \<Rightarrow> nat \<Rightarrow> real) \<Rightarrow> (nat \<Rightarrow> nat \<Rightarrow> real) \<Rightarrow> bool" where
  "intertwines n A0 A V \<longleftrightarrow> (\<forall>i<n. \<forall>j<n. (\<Sum>k<n. A0 i k * V k j) = (\<Sum>k<n. V i k * A k j))"

definition off :: "nat \<Rightarrow> (nat \<Rightarrow> nat \<Rightarrow> real) \<Rightarrow> real" where
  "off n A = (\<Sum>i<n. \<Sum>j<n. if i = j then 0 else (A i j)\<^sup>2)"

lemma symmetric_turned: "symmetric n A \<Longrightarrow> symmetric n (turned p q c s A)"
  unfolding symmetric_def turned_def by auto

lemma sum_lincomb: "(\<Sum>k<n. (x * f k + y * g k) * h k) = x * (\<Sum>k<n. f k * h k) + y * (\<Sum>k<n. g k * h k)"
  for x y :: real
  by (simp add: sum.distrib sum_distrib_left algebra_simps)

lemma orthonormal_turned:
  assumes "orthonormal n V" "turn n p q c s"
  shows "orthonormal n (turned_cols p q c s V)"
proof -
  have pq: "p < n" "q < n" "p \<noteq> q" "c * c + s * s = 1" using assms(2) by (simp_all add: turn_def)
  define x y where "x j = (if j = p then c else if j = q then s else 1)"
    and "y j = (if j = p then - s else if j = q then c else 0)" for j
  define u w where "u j = (if j = q then p else j)" and "w j = (if j = p then q else j)" for j
  have t: "turned_cols p q c s V k j = x j * V k (u j) + y j * V k (w j)" for k j
    by (auto simp: turned_cols_def x_def y_def u_def w_def)
  have g: "(\<Sum>k<n. V k i * V k j) = (if i = j then 1 else 0)" if "i < n" "j < n" for i j
    using assms(1) that by (simp add: orthonormal_def)
  have lt: "u j < n" "w j < n" if "j < n" for j using that pq by (auto simp: u_def w_def)
  have "(\<Sum>k<n. turned_cols p q c s V k i * turned_cols p q c s V k j) = (if i = j then 1 else 0)"
    if ij: "i < n" "j < n" for i j
  proof -
    have inner: "(\<Sum>k<n. V k l * (x j * V k (u j) + y j * V k (w j))) =
        x j * (if u j = l then 1 else 0) + y j * (if w j = l then 1 else 0)" if "l < n" for l
      using sum_lincomb [of "x j" "\<lambda>k. V k (u j)" "y j" "\<lambda>k. V k (w j)" "\<lambda>k. V k l" n] g lt ij that
      by (simp add: mult.commute)
    show ?thesis
      unfolding t sum_lincomb inner [OF lt(1) [OF ij(1)]] inner [OF lt(2) [OF ij(1)]]
      using pq by (auto simp: x_def y_def u_def w_def algebra_simps)
  qed
  then show ?thesis by (simp add: orthonormal_def)
qed

lemma off_turned:
  assumes "symmetric n A" "turn n p q c s"
  shows "off n (turned p q c s A) = off n A - 2 * (A p q)\<^sup>2"
proof -
  have pq: "p < n" "q < n" "p \<noteq> q" "c * c + s * s = 1" using assms(2) by (simp_all add: turn_def)
  let ?R = "{..<n} - {p, q}" and ?B = "turned p q c s A"
  have split: "off n C = 2 * (C p q)\<^sup>2 + (\<Sum>j\<in>?R. (C p j)\<^sup>2 + (C q j)\<^sup>2) + (\<Sum>i\<in>?R. (C i p)\<^sup>2 + (C i q)\<^sup>2)
      + (\<Sum>i\<in>?R. \<Sum>j\<in>?R. if i = j then 0 else (C i j)\<^sup>2)" if "C p q = C q p" for C :: "nat \<Rightarrow> nat \<Rightarrow> real"
  proof -
    have r1: "(\<Sum>j<n. if p = j then 0 else (C p j)\<^sup>2) = (C p q)\<^sup>2 + (\<Sum>j\<in>?R. (C p j)\<^sup>2)"
      unfolding sum_split2 [OF pq(1-3)] using pq(3) by (auto intro!: sum.cong)
    have r2: "(\<Sum>j<n. if q = j then 0 else (C q j)\<^sup>2) = (C p q)\<^sup>2 + (\<Sum>j\<in>?R. (C q j)\<^sup>2)"
      unfolding sum_split2 [OF pq(1-3)] using pq(3) that by (auto intro!: sum.cong)
    have r3: "(\<Sum>i\<in>?R. \<Sum>j<n. if i = j then 0 else (C i j)\<^sup>2) =
        (\<Sum>i\<in>?R. (C i p)\<^sup>2 + (C i q)\<^sup>2) + (\<Sum>i\<in>?R. \<Sum>j\<in>?R. if i = j then 0 else (C i j)\<^sup>2)"
      unfolding sum_split2 [OF pq(1-3)] sum.distrib [symmetric] by (intro sum.cong) auto
    show ?thesis
      unfolding off_def sum_split2 [OF pq(1-3), of "\<lambda>i. \<Sum>j<n. if i = j then 0 else (C i j)\<^sup>2"] r1 r2 r3
      by (simp add: sum.distrib)
  qed
  have sq: "(c * x - s * y)\<^sup>2 + (s * x + c * y)\<^sup>2 = x\<^sup>2 + y\<^sup>2" for x y :: real
  proof -
    have "(c * x - s * y)\<^sup>2 + (s * x + c * y)\<^sup>2 = (c * c + s * s) * (x\<^sup>2 + y\<^sup>2)"
      by (simp add: power2_eq_square algebra_simps)
    then show ?thesis using pq(4) by simp
  qed
  have sy: "A i j = A j i" if "i < n" "j < n" for i j using assms(1) that by (simp add: symmetric_def)
  have "(\<Sum>j\<in>?R. (?B p j)\<^sup>2 + (?B q j)\<^sup>2) = (\<Sum>j\<in>?R. (A p j)\<^sup>2 + (A q j)\<^sup>2)"
    using pq sq sy by (intro sum.cong) (auto simp: turned_def)
  moreover have "(\<Sum>i\<in>?R. (?B i p)\<^sup>2 + (?B i q)\<^sup>2) = (\<Sum>i\<in>?R. (A i p)\<^sup>2 + (A i q)\<^sup>2)"
    using pq sq by (intro sum.cong) (auto simp: turned_def)
  moreover have "(\<Sum>i\<in>?R. \<Sum>j\<in>?R. if i = j then 0 else (?B i j)\<^sup>2) = (\<Sum>i\<in>?R. \<Sum>j\<in>?R. if i = j then 0 else (A i j)\<^sup>2)"
    by (intro sum.cong) (auto simp: turned_def)
  moreover have "?B p q = 0" "?B q p = 0" using pq(3) by (simp_all add: turned_def)
  ultimately show ?thesis using split [of ?B] split [of A] sy [OF pq(1,2)] by simp
qed

lemma intertwines_turned:
  assumes "intertwines n A0 A V" "symmetric n A" "turn n p q c s"
    and angle: "(c * c - s * s) * A p q = s * c * (A q q - A p p)"
  shows "intertwines n A0 (turned p q c s A) (turned_cols p q c s V)"
proof -
  have pq: "p < n" "q < n" "p \<noteq> q" "c * c + s * s = 1" using assms(3) by (simp_all add: turn_def)
  let ?R = "{..<n} - {p, q}" and ?B = "turned p q c s A" and ?W = "turned_cols p q c s V"
  have sy: "A i j = A j i" if "i < n" "j < n" for i j using assms(2) that by (simp add: symmetric_def)
  have eq: "(\<Sum>k<n. A0 i k * V k j) = (\<Sum>k<n. V i k * A k j)" if "i < n" "j < n" for i j
    using assms(1) that by (simp add: intertwines_def)
  have lin: "(\<Sum>k<n. A0 i k * (x * V k p + y * V k q)) = (\<Sum>k<n. V i k * (x * A k p + y * A k q))"
    if "i < n" for i and x y :: real
    using sum_lincomb [of x "\<lambda>k. V k p" y "\<lambda>k. V k q" "\<lambda>k. A0 i k" n]
      sum_lincomb [of x "\<lambda>k. A k p" y "\<lambda>k. A k q" "\<lambda>k. V i k" n] eq [OF that pq(1)] eq [OF that pq(2)]
    by (simp add: mult.commute)
  have "(\<Sum>k<n. A0 i k * ?W k j) = (\<Sum>k<n. ?W i k * ?B k j)" if ij: "i < n" "j < n" for i j
  proof -
    have rest: "(\<Sum>k\<in>?R. ?W i k * ?B k j) = (\<Sum>k\<in>?R. V i k *
        (if j = p then c * A k p - s * A k q else if j = q then s * A k p + c * A k q else A k j))"
      by (intro sum.cong) (auto simp: turned_cols_def turned_def)
    consider "j = p" | "j = q" | "j \<noteq> p" "j \<noteq> q" by blast
    then show ?thesis
    proof cases
      case 1
      have "V i p * (c * A p p - s * A p q) + V i q * (c * A q p - s * A q q) =
          ?W i p * ?B p p + ?W i q * ?B q p"
      proof -
        have z: "s * (c * A p p - s * A p q) + c * (c * A q p - s * A q q) = 0"
          using angle sy [OF pq(1,2)] by (simp add: algebra_simps)
        have "?B p p = c * (c * A p p - s * A p q) - s * (c * A q p - s * A q q)" "?B q p = 0"
          using pq(3) sy [OF pq(1,2)] by (simp_all add: turned_def algebra_simps)
        then show ?thesis
          using turn_inner [OF pq(4), of "V i p" "c * A p p - s * A p q" "V i q" "c * A q p - s * A q q"] z
          by (simp add: turned_cols_def)
      qed
      then show ?thesis
        using lin [OF ij(1), of c "- s"] rest pq(3)
        unfolding 1 sum_split2 [OF pq(1-3), of "\<lambda>k. V i k * _ k"] sum_split2 [OF pq(1-3), of "\<lambda>k. ?W i k * _ k"]
        by (simp add: turned_cols_def)
    next
      case 2
      have "V i p * (s * A p p + c * A p q) + V i q * (s * A q p + c * A q q) =
          ?W i p * ?B p q + ?W i q * ?B q q"
      proof -
        have z: "c * (s * A p p + c * A p q) - s * (s * A q p + c * A q q) = 0"
          using angle sy [OF pq(1,2)] by (simp add: algebra_simps)
        have "?B q q = s * (s * A p p + c * A p q) + c * (s * A q p + c * A q q)" "?B p q = 0"
          using pq(3) sy [OF pq(1,2)] by (simp_all add: turned_def algebra_simps)
        then show ?thesis
          using turn_inner [OF pq(4), of "V i p" "s * A p p + c * A p q" "V i q" "s * A q p + c * A q q"] z pq(3)
          by (simp add: turned_cols_def)
      qed
      then show ?thesis
        using lin [OF ij(1), of s c] rest pq(3)
        unfolding 2 sum_split2 [OF pq(1-3), of "\<lambda>k. V i k * _ k"] sum_split2 [OF pq(1-3), of "\<lambda>k. ?W i k * _ k"]
        by (simp add: turned_cols_def)
    next
      case 3
      have "V i p * A p j + V i q * A q j = ?W i p * ?B p j + ?W i q * ?B q j"
        using turn_inner [OF pq(4), of "V i p" "A p j" "V i q" "A q j"] pq(3) 3 sy [OF pq(1) ij(2)] sy [OF pq(2) ij(2)]
        by (simp add: turned_cols_def turned_def)
      then show ?thesis
        using eq [OF ij] rest 3
        unfolding sum_split2 [OF pq(1-3), of "\<lambda>k. V i k * _ k"] sum_split2 [OF pq(1-3), of "\<lambda>k. ?W i k * _ k"]
        by (simp add: turned_cols_def)
    qed
  qed
  then show ?thesis by (simp add: intertwines_def)
qed

section \<open>The largest entry\<close>

lemma max_scan:
  fixes a :: "real matrix"
  assumes "foldl (\<lambda>(p, q, m) (i, j). let v = \<bar>a ! i ! j\<bar> in if m < v then (i, j, v) else (p, q, m)) (p0, q0, m0) L = (p, q, m)"
  shows "m0 \<le> m \<and> (\<forall>(i, j)\<in>set L. \<bar>a ! i ! j\<bar> \<le> m) \<and>
    ((p, q, m) = (p0, q0, m0) \<or> (p, q) \<in> set L \<and> m = \<bar>a ! p ! q\<bar> \<and> m0 < m)"
  using assms
proof (induction L arbitrary: p0 q0 m0)
  case Nil
  then show ?case by simp
next
  case (Cons ij L)
  obtain i j where ij: "ij = (i, j)" by (cases ij)
  show ?case
  proof (cases "m0 < \<bar>a ! i ! j\<bar>")
    case True
    with Cons.IH [of i j "\<bar>a ! i ! j\<bar>"] Cons.prems ij show ?thesis by (auto simp: Let_def)
  next
    case False
    with Cons.IH [of p0 q0 m0] Cons.prems ij show ?thesis by (auto simp: Let_def)
  qed
qed

lemma maxOffDiagonal_real:
  assumes "maxOffDiagonal (real_math coin) a = (p, q, m)"
  shows "0 \<le> m" "\<And>i j. i < j \<Longrightarrow> j < length a \<Longrightarrow> \<bar>a ! i ! j\<bar> \<le> m"
    "0 < m \<Longrightarrow> p < q \<and> q < length a \<and> m = \<bar>a ! p ! q\<bar>"
proof -
  let ?L = "concat (map (\<lambda>i. map (Pair i) [Suc i..<length a]) [0..<length a])"
  have L: "(i, j) \<in> set ?L \<longleftrightarrow> i < j \<and> j < length a" for i j by force
  have "foldl (\<lambda>(p, q, m) (i, j). let v = \<bar>a ! i ! j\<bar> in if m < v then (i, j, v) else (p, q, m)) (0, 0, 0) ?L = (p, q, m)"
    using assms by (simp add: maxOffDiagonal_def Let_def)
  note scan = max_scan [OF this]
  show "0 \<le> m" using scan by simp
  show "\<bar>a ! i ! j\<bar> \<le> m" if "i < j" "j < length a" for i j using scan that L by blast
  show "p < q \<and> q < length a \<and> m = \<bar>a ! p ! q\<bar>" if "0 < m" using scan that L by auto
qed

section \<open>The iteration\<close>

abbreviation entries :: "real matrix \<Rightarrow> nat \<Rightarrow> nat \<Rightarrow> real" where
  "entries a \<equiv> \<lambda>i j. a ! i ! j"

definition jacobi_ok :: "nat \<Rightarrow> (nat \<Rightarrow> nat \<Rightarrow> real) \<Rightarrow> real matrix \<times> real matrix \<Rightarrow> bool" where
  "jacobi_ok n A0 av \<longleftrightarrow> sq n (fst av) \<and> sq n (snd av) \<and> symmetric n (entries (fst av)) \<and>
     orthonormal n (entries (snd av)) \<and> intertwines n A0 (entries (fst av)) (entries (snd av))"

lemma entry_congs:
  assumes "\<And>i j. i < n \<Longrightarrow> j < n \<Longrightarrow> A i j = B i j" "\<And>i j. i < n \<Longrightarrow> j < n \<Longrightarrow> V i j = W i j"
  shows "symmetric n A = symmetric n B" "orthonormal n V = orthonormal n W"
    "intertwines n A0 A V = intertwines n A0 B W" "off n A = off n B"
proof -
  show "symmetric n A = symmetric n B" "orthonormal n V = orthonormal n W" "intertwines n A0 A V = intertwines n A0 B W"
    using assms by (simp_all add: symmetric_def orthonormal_def intertwines_def)
  show "off n A = off n B" unfolding off_def using assms(1) by (intro sum.cong) auto
qed

lemma jacobi_step_ok:
  assumes "jacobi_ok n A0 (a, v)" "p < n" "q < n" "p \<noteq> q"
  shows "jacobi_ok n A0 (jacobi_step (real_math coin) p q (a, v))"
    "off n (entries (fst (jacobi_step (real_math coin) p q (a, v)))) = off n (entries a) - 2 * (a ! p ! q)\<^sup>2"
proof -
  obtain a' v' where st: "jacobi_step (real_math coin) p q (a, v) = (a', v')"
    by (cases "jacobi_step (real_math coin) p q (a, v)")
  let ?c = "cos (jacobi_angle a p q)" and ?s = "sin (jacobi_angle a p q)"
  have ok: "sq n a" "sq n v" "symmetric n (entries a)" "orthonormal n (entries v)"
      "intertwines n A0 (entries a) (entries v)"
    using assms(1) by (simp_all add: jacobi_ok_def)
  note t = jacobi_step_turned [OF ok(1,2) assms(2-4) st]
  have turn: "turn n p q ?c ?s" using assms(2-4) angle_unit by (simp add: turn_def)
  have angle: "(?c * ?c - ?s * ?s) * a ! p ! q = ?s * ?c * (a ! q ! q - a ! p ! p)"
    unfolding jacobi_angle_def by (rule angle_zeroes)
  note cong = entry_congs [of n "entries a'" "turned p q ?c ?s (entries a)" "entries v'" "turned_cols p q ?c ?s (entries v)",
      OF t(3,4)]
  show "jacobi_ok n A0 (jacobi_step (real_math coin) p q (a, v))"
    using t(1,2) symmetric_turned [OF ok(3)] orthonormal_turned [OF ok(4) turn]
      intertwines_turned [OF ok(5,3) turn angle] by (simp add: st jacobi_ok_def cong)
  show "off n (entries (fst (jacobi_step (real_math coin) p q (a, v)))) = off n (entries a) - 2 * (a ! p ! q)\<^sup>2"
    using off_turned [OF ok(3) turn] by (simp add: st cong)
qed

text \<open>The share of the off-diagonal sum that one rotation leaves at most.\<close>

definition rate :: "nat \<Rightarrow> real" where
  "rate n = 1 - 2 / (real n * (real n - 1))"

lemma off_le:
  assumes "symmetric n A" "\<And>i j. i < j \<Longrightarrow> j < n \<Longrightarrow> \<bar>A i j\<bar> \<le> m"
  shows "off n A \<le> real n * (real n - 1) * m\<^sup>2"
proof -
  have le: "(A i j)\<^sup>2 \<le> m\<^sup>2" if "i < n" "j < n" "i \<noteq> j" for i j
  proof -
    have "\<bar>A i j\<bar> \<le> m"
    proof (cases "i < j")
      case True
      then show ?thesis using assms(2) that by simp
    next
      case False
      with that have "\<bar>A j i\<bar> \<le> m" by (intro assms(2)) simp_all
      then show ?thesis using assms(1) that by (simp add: symmetric_def)
    qed
    from power_mono [OF this abs_ge_zero, of 2] show ?thesis by simp
  qed
  have row: "(\<Sum>j<n. if i = j then 0 else (A i j)\<^sup>2) \<le> (real n - 1) * m\<^sup>2" if "i < n" for i
  proof -
    have "(\<Sum>j<n. if i = j then 0 else (A i j)\<^sup>2) = (\<Sum>j\<in>{..<n} - {i}. (A i j)\<^sup>2)"
      using that by (simp add: sum.remove)
    also have "\<dots> \<le> (\<Sum>j\<in>{..<n} - {i}. m\<^sup>2)" using le that by (intro sum_mono) auto
    also have "\<dots> = (real n - 1) * m\<^sup>2" using that by (simp add: of_nat_diff)
    finally show ?thesis .
  qed
  have "off n A \<le> (\<Sum>i<n. (real n - 1) * m\<^sup>2)" unfolding off_def using row by (intro sum_mono) simp
  then show ?thesis by simp
qed

lemma off_nonneg: "0 \<le> off n A"
  unfolding off_def by (intro sum_nonneg) simp

lemma entry_le_off:
  assumes "i < n" "j < n" "i \<noteq> j"
  shows "(A i j)\<^sup>2 \<le> off n A"
proof -
  have "(A i j)\<^sup>2 \<le> (\<Sum>j<n. if i = j then 0 else (A i j)\<^sup>2)"
    using member_le_sum [of j "{..<n}" "\<lambda>j. if i = j then 0 else (A i j)\<^sup>2"] assms by simp
  also have "\<dots> \<le> off n A"
    unfolding off_def using assms(1)
    by (intro member_le_sum [of i "{..<n}" "\<lambda>i. \<Sum>j<n. if i = j then 0 else (A i j)\<^sup>2"]) (auto intro: sum_nonneg)
  finally show ?thesis .
qed

lemma off_shrinks:
  assumes "symmetric n A" "\<And>i j. i < j \<Longrightarrow> j < n \<Longrightarrow> \<bar>A i j\<bar> \<le> m" "2 \<le> n"
  shows "off n A - 2 * m\<^sup>2 \<le> rate n * off n A"
proof -
  let ?N = "real n * (real n - 1)"
  have N: "0 < ?N" using assms(3) by simp
  have "off n A / ?N \<le> m\<^sup>2" using off_le [OF assms(1,2)] N by (simp add: divide_le_eq mult.commute)
  then show ?thesis by (simp add: rate_def left_diff_distrib)
qed

lemma rate_nonneg: "2 \<le> n \<Longrightarrow> 0 \<le> rate n"
proof -
  assume n: "2 \<le> n"
  have "2 * 1 \<le> real n * (real n - 1)" using n by (intro mult_mono) simp_all
  then show ?thesis using n by (simp add: rate_def divide_le_eq)
qed

text \<open>After k rotations, or at a matrix the test accepts.\<close>

definition settled :: "nat \<Rightarrow> real matrix \<Rightarrow> bool" where
  "settled n a \<longleftrightarrow> (\<forall>i<n. \<forall>j<n. i \<noteq> j \<longrightarrow> \<bar>a ! i ! j\<bar> \<le> 1 / 10 ^ 10)"

lemma lit_stop: "lit (real_math coin) 1 (-10) = 1 / 10 ^ 10"
  by (simp add: real_math_def power_int_minus_divide)

lemma jacobi_run:
  assumes "jacobi_ok n A0 (a, v)" "2 \<le> n" "jacobi (real_math coin) k (a, v) = (a', v')"
  shows "jacobi_ok n A0 (a', v') \<and> (settled n a' \<or> off n (entries a') \<le> rate n ^ k * off n (entries a))"
  using assms(1,3)
proof (induction k arbitrary: a v)
  case 0
  then show ?case by simp
next
  case (Suc k)
  obtain p q m where mx: "maxOffDiagonal (real_math coin) a = (p, q, m)"
    by (cases "maxOffDiagonal (real_math coin) a") auto
  have sqa: "sq n a" and sym: "symmetric n (entries a)" using Suc.prems(1) by (simp_all add: jacobi_ok_def)
  then have len: "length a = n" by (simp add: sq_def)
  note big = maxOffDiagonal_real [OF mx, unfolded len]
  show ?case
  proof (cases "m < 1 / 10 ^ 10")
    case True
    then have "a' = a" "v' = v" using Suc.prems(2) mx by (simp_all add: lit_stop)
    moreover have "settled n a"
      unfolding settled_def
    proof (intro allI impI)
      fix i j assume ij: "i < n" "j < n" "i \<noteq> j"
      have "\<bar>a ! i ! j\<bar> \<le> m"
        using ij big(2) [of i j] big(2) [of j i] sym by (cases "i < j") (auto simp: symmetric_def)
      with True show "\<bar>a ! i ! j\<bar> \<le> 1 / 10 ^ 10" by simp
    qed
    ultimately show ?thesis using Suc.prems(1) by simp
  next
    case False
    then have "0 < m" by (smt (verit) divide_pos_pos zero_less_power)
    then have pq: "p < n" "q < n" "p \<noteq> q" and m: "m = \<bar>a ! p ! q\<bar>" using big(3) by auto
    obtain a1 v1 where st: "jacobi_step (real_math coin) p q (a, v) = (a1, v1)"
      by (cases "jacobi_step (real_math coin) p q (a, v)")
    note step = jacobi_step_ok [OF Suc.prems(1) pq, of coin, unfolded st fst_conv]
    have "jacobi (real_math coin) k (a1, v1) = (a', v')"
      using Suc.prems(2) mx False st by (simp add: lit_stop)
    from Suc.IH [OF step(1) this]
    have IH: "jacobi_ok n A0 (a', v')" "settled n a' \<or> off n (entries a') \<le> rate n ^ k * off n (entries a1)" by simp_all
    have "off n (entries a1) \<le> rate n * off n (entries a)"
      using off_shrinks [OF sym big(2) assms(2)] step(2) m by simp
    then have "rate n ^ k * off n (entries a1) \<le> rate n ^ k * (rate n * off n (entries a))"
      using rate_nonneg [OF assms(2)] by (intro mult_left_mono) simp_all
    also have "\<dots> = rate n ^ Suc k * off n (entries a)" by simp
    finally show ?thesis using IH by (blast intro: order_trans)
  qed
qed

section \<open>Enough rotations\<close>

lemma rate_enough:
  assumes "2 \<le> n"
  shows "rate n ^ maxIter n \<le> 1 / 2 ^ 100"
proof -
  let ?N = "real n * (real n - 1)"
  have N: "0 < ?N" using assms by simp
  have "rate n \<le> exp (- (2 / ?N))" using exp_ge_add_one_self [of "- (2 / ?N)"] by (simp add: rate_def)
  then have "rate n ^ maxIter n \<le> exp (- (2 / ?N)) ^ maxIter n" using rate_nonneg [OF assms] by (intro power_mono)
  also have "\<dots> = exp (real (maxIter n) * - (2 / ?N))" by (rule exp_of_nat_mult [symmetric])
  also have "\<dots> \<le> exp (- 100)"
  proof -
    have "100 * ?N \<le> real (maxIter n) * 2" using assms by (simp add: maxIter_def algebra_simps)
    then have "100 \<le> real (maxIter n) * 2 / ?N" using N by (simp add: le_divide_eq)
    then show ?thesis by simp
  qed
  also have "\<dots> = 1 / exp 1 ^ 100" using exp_of_nat_mult [of 100 "1 :: real"] by (simp add: exp_minus divide_inverse)
  also have "\<dots> \<le> 1 / 2 ^ 100"
    using power_mono [of 2 "exp 1 :: real" 100] exp_ge_add_one_self [of "1 :: real"] by (intro divide_left_mono) simp_all
  finally show ?thesis .
qed

lemma jacobi_start:
  assumes "sq n a" "symmetric n (entries a)"
  shows "jacobi_ok n (entries a) (a, identityMatrix (real_math coin) n)"
proof -
  have "(\<Sum>k<n. identityMatrix (real_math coin) n ! k ! i * identityMatrix (real_math coin) n ! k ! j) = (if i = j then 1 else 0)"
    if "i < n" "j < n" for i j
  proof -
    have "(\<Sum>k<n. identityMatrix (real_math coin) n ! k ! i * identityMatrix (real_math coin) n ! k ! j) =
        (\<Sum>k<n. if k = i then (if i = j then 1 else 0) else 0)"
      using that by (intro sum.cong) (auto simp: identity_nth)
    then show ?thesis using that by simp
  qed
  moreover have "(\<Sum>k<n. a ! i ! k * identityMatrix (real_math coin) n ! k ! j) =
      (\<Sum>k<n. identityMatrix (real_math coin) n ! i ! k * a ! k ! j)" if "i < n" "j < n" for i j
  proof -
    have "(\<Sum>k<n. a ! i ! k * identityMatrix (real_math coin) n ! k ! j) = (\<Sum>k<n. if k = j then a ! i ! j else 0)"
      using that by (intro sum.cong) (auto simp: identity_nth)
    moreover have "(\<Sum>k<n. identityMatrix (real_math coin) n ! i ! k * a ! k ! j) = (\<Sum>k<n. if k = i then a ! i ! j else 0)"
      using that by (intro sum.cong) (auto simp: identity_nth)
    ultimately show ?thesis using that by simp
  qed
  ultimately show ?thesis
    using assms by (simp add: jacobi_ok_def sq_identity orthonormal_def intertwines_def)
qed

lemma jacobi_one: "length a = 1 \<Longrightarrow> jacobi (real_math coin) k (a, v) = (a, v)"
  by (cases k) (simp_all add: maxOffDiagonal_def lit_stop)

text \<open>With an off-diagonal sum of squares of at most 10^10 the iteration ends settled.\<close>

lemma jacobi_settles:
  assumes "sq n a" "0 < n" "symmetric n (entries a)" "off n (entries a) \<le> 10 ^ 10"
    and "jacobi (real_math coin) (maxIter n) (a, identityMatrix (real_math coin) n) = (a', v')"
  shows "jacobi_ok n (entries a) (a', v') \<and> settled n a'"
proof (cases "n = 1")
  case True
  then show ?thesis
    using assms jacobi_start [OF assms(1,3)] jacobi_one [of a coin] by (auto simp: sq_def settled_def)
next
  case False
  with assms(2) have n: "2 \<le> n" by simp
  from jacobi_run [OF jacobi_start [OF assms(1,3)] n assms(5)]
  have ok: "jacobi_ok n (entries a) (a', v')"
    and d: "settled n a' \<or> off n (entries a') \<le> rate n ^ maxIter n * off n (entries a)" by simp_all
  moreover have "settled n a'" if "off n (entries a') \<le> rate n ^ maxIter n * off n (entries a)"
    unfolding settled_def
  proof (intro allI impI)
    fix i j assume ij: "i < n" "j < n" "i \<noteq> j"
    have "(a' ! i ! j)\<^sup>2 \<le> off n (entries a')" using entry_le_off [OF ij, of "entries a'"] .
    also have "\<dots> \<le> rate n ^ maxIter n * off n (entries a)" by (rule that)
    also have "\<dots> \<le> 1 / 2 ^ 100 * 10 ^ 10"
      using rate_enough [OF n] assms(4) off_nonneg by (intro mult_mono) simp_all
    also have "\<dots> \<le> (1 / 10 ^ 10)\<^sup>2" by (simp add: power2_eq_square)
    finally show "\<bar>a' ! i ! j\<bar> \<le> 1 / 10 ^ 10" by (subst (asm) abs_le_square_iff [symmetric]) simp
  qed
  ultimately show ?thesis by blast
qed

section \<open>The decomposition\<close>

lemma orthonormal_entry: "orthonormal n V \<Longrightarrow> i < n \<Longrightarrow> j < n \<Longrightarrow> \<bar>V i j\<bar> \<le> 1"
proof -
  assume V: "orthonormal n V" and ij: "i < n" "j < n"
  have "(V i j)\<^sup>2 \<le> (\<Sum>k<n. (V k j)\<^sup>2)" using ij by (intro member_le_sum [of i "{..<n}" "\<lambda>k. (V k j)\<^sup>2"]) auto
  also have "\<dots> = 1" using V ij by (simp add: orthonormal_def power2_eq_square)
  finally show ?thesis by (simp add: abs_square_le_1)
qed

lemma residual:
  assumes "jacobi_ok n A0 (a, v)" "settled n a" "i < n" "j < n"
  shows "\<bar>(\<Sum>k<n. A0 i k * v ! k ! j) - a ! j ! j * v ! i ! j\<bar> \<le> real n / 10 ^ 10"
proof -
  have V: "orthonormal n (entries v)" and I: "intertwines n A0 (entries a) (entries v)"
    using assms(1) by (simp_all add: jacobi_ok_def)
  have "(\<Sum>k<n. A0 i k * v ! k ! j) = (\<Sum>k<n. v ! i ! k * a ! k ! j)" using I assms(3,4) by (simp add: intertwines_def)
  also have "\<dots> = v ! i ! j * a ! j ! j + (\<Sum>k\<in>{..<n} - {j}. v ! i ! k * a ! k ! j)"
    using assms(4) by (simp add: sum.remove)
  finally have "\<bar>(\<Sum>k<n. A0 i k * v ! k ! j) - a ! j ! j * v ! i ! j\<bar> = \<bar>\<Sum>k\<in>{..<n} - {j}. v ! i ! k * a ! k ! j\<bar>"
    by (simp add: mult.commute)
  also have "\<dots> \<le> (\<Sum>k\<in>{..<n} - {j}. \<bar>v ! i ! k * a ! k ! j\<bar>)" by (rule sum_abs)
  also have "\<dots> \<le> (\<Sum>k\<in>{..<n} - {j}. 1 / 10 ^ 10)"
  proof (rule sum_mono)
    fix k assume k: "k \<in> {..<n} - {j}"
    then have "\<bar>v ! i ! k\<bar> * \<bar>a ! k ! j\<bar> \<le> 1 * (1 / 10 ^ 10)"
      using orthonormal_entry [OF V assms(3)] assms(2,4) by (intro mult_mono) (simp_all add: settled_def)
    then show "\<bar>v ! i ! k * a ! k ! j\<bar> \<le> 1 / 10 ^ 10" by (simp add: abs_mult)
  qed
  also have "\<dots> \<le> (\<Sum>k<n. 1 / 10 ^ 10 :: real)" by (intro sum_mono2) auto
  finally show ?thesis by simp
qed

text \<open>The code's sort by a key.\<close>

lemma sorted_sort_slice: "sorted (map f (sort_slice (\<lambda>x y. f x < f y) xs))" for f :: "'a \<Rightarrow> 'b::linorder"
proof -
  have m: "set (insert_by lt x ys) = insert x (set ys)" for lt :: "'a \<Rightarrow> 'a \<Rightarrow> bool" and x ys by (induction ys) auto
  have "sorted (map f ys) \<Longrightarrow> sorted (map f (insert_by (\<lambda>x y. f x < f y) x ys))" for x ys
    by (induction ys) (auto simp: m)
  then show ?thesis unfolding sort_slice_def by (induction xs) simp_all
qed

text \<open>What an eigendecomposition up to \<open>e\<close> of a matrix is.\<close>

definition eigen_system :: "nat \<Rightarrow> real \<Rightarrow> real matrix \<Rightarrow> real list \<times> real matrix \<Rightarrow> bool" where
  "eigen_system n e A vv \<longleftrightarrow> length (fst vv) = n \<and> sorted (fst vv) \<and> sq n (snd vv) \<and> orthonormal n (entries (snd vv)) \<and>
     (\<forall>i<n. \<forall>j<n. \<bar>(\<Sum>k<n. A ! i ! k * snd vv ! k ! j) - fst vv ! j * snd vv ! i ! j\<bar> \<le> e)"

lemma eigen_decomposition:
  assumes "sq n A" "symmetric n (entries A)" "off n (entries A) \<le> 10 ^ 10"
  shows "eigen_system n (real n / 10 ^ 10) A (EigenDecompositionSymmetric (real_math coin) A)"
proof (cases "n = 0")
  case True
  then show ?thesis
    using assms(1) by (simp add: EigenDecompositionSymmetric_def sq_def eigen_system_def orthonormal_def)
next
  case False
  then have n: "0 < n" by simp
  have len: "length A = n" using assms(1) by (simp add: sq_def)
  obtain a v where run: "jacobi (real_math coin) (maxIter n) (A, identityMatrix (real_math coin) n) = (a, v)"
    by (cases "jacobi (real_math coin) (maxIter n) (A, identityMatrix (real_math coin) n)")
  from jacobi_settles [OF assms(1) n assms(2,3) run]
  have ok: "jacobi_ok n (entries A) (a, v)" and st: "settled n a" by simp_all
  let ?vals = "map (\<lambda>i. a ! i ! i) [0..<n]"
  let ?order = "sort_slice (\<lambda>i j. ?vals ! i < ?vals ! j) [0..<n]"
  have E: "EigenDecompositionSymmetric (real_math coin) A =
      (map (\<lambda>idx. ?vals ! idx) ?order, map (\<lambda>row. map (\<lambda>idx. row ! idx) ?order) v)"
    using n run by (simp add: EigenDecompositionSymmetric_def len sortEigenpairs_def Let_def)
  have perm: "mset ?order = mset [0..<n]" by (rule mset_sort_slice)
  have lo: "length ?order = n" using mset_eq_length [OF perm] by simp
  have so: "set ?order = {..<n}" unfolding set_sort_slice by auto
  have dist: "distinct ?order" using mset_eq_imp_distinct_iff [OF perm] by simp
  have lt: "?order ! j < n" if "j < n" for j
    using nth_mem [of j ?order] that unfolding lo so by simp
  have inj: "?order ! i = ?order ! j \<longleftrightarrow> i = j" if "i < n" "j < n" for i j
    using nth_eq_iff_index_eq [OF dist] lo that by simp
  have sqv: "sq n v" and V: "orthonormal n (entries v)" using ok by (simp_all add: jacobi_ok_def)
  have vec: "map (\<lambda>row. map (\<lambda>idx. row ! idx) ?order) v ! i ! j = v ! i ! (?order ! j)" if "i < n" "j < n" for i j
    using that sqv lo by (simp add: sq_def)
  have val: "map (\<lambda>idx. ?vals ! idx) ?order ! j = a ! (?order ! j) ! (?order ! j)" if "j < n" for j
    using that lo lt [OF that] by simp
  have "sorted (map (\<lambda>idx. ?vals ! idx) ?order)" by (rule sorted_sort_slice)
  moreover have "sq n (map (\<lambda>row. map (\<lambda>idx. row ! idx) ?order) v)" using sqv lo by (simp add: sq_def)
  moreover have "orthonormal n (entries (map (\<lambda>row. map (\<lambda>idx. row ! idx) ?order) v))"
    using V lt inj by (simp add: orthonormal_def vec)
  moreover have "\<bar>(\<Sum>k<n. A ! i ! k * map (\<lambda>row. map (\<lambda>idx. row ! idx) ?order) v ! k ! j) -
      map (\<lambda>idx. ?vals ! idx) ?order ! j * map (\<lambda>row. map (\<lambda>idx. row ! idx) ?order) v ! i ! j\<bar> \<le> real n / 10 ^ 10"
    if "i < n" "j < n" for i j
    using residual [OF ok st that(1) lt [OF that(2)]] that by (simp add: vec val)
  ultimately show ?thesis unfolding E eigen_system_def fst_conv snd_conv using lo by simp
qed

end
