(* ===== verification/HdcGeometry.thy ===== *)
theory HdcGeometry
  imports HdcJacobi
begin

text \<open>
  The similarity graph and the crosswalk rotations in exact arithmetic: cosines are at most one, the
  Laplacian is symmetric and its quadratic form is the sum of the weighted squared differences, and a
  rotation is orthogonal and carries the one direction onto the other.
\<close>

section \<open>Cosines\<close>

lemma cosine_le_one:
  fixes f g :: "nat \<Rightarrow> real"
  assumes "(\<Sum>i<n. f i * f i) = x" "(\<Sum>i<n. g i * g i) = y" "0 < x" "0 < y"
  shows "(\<Sum>i<n. f i * g i) / (sqrt x * sqrt y) \<le> 1"
proof -
  have each: "f i * g i / (sqrt x * sqrt y) \<le> (f i * f i / x + g i * g i / y) / 2" for i
  proof -
    have "2 * (f i / sqrt x) * (g i / sqrt y) \<le> (f i / sqrt x)\<^sup>2 + (g i / sqrt y)\<^sup>2"
      by (rule sum_squares_bound)
    then show ?thesis using assms(3,4) by (simp add: power_divide power2_eq_square mult_ac)
  qed
  have "(\<Sum>i<n. f i * g i) / (sqrt x * sqrt y) \<le> (\<Sum>i<n. (f i * f i / x + g i * g i / y) / 2)"
    unfolding sum_divide_distrib by (rule sum_mono) (rule each)
  also have "\<dots> = ((\<Sum>i<n. f i * f i) / x + (\<Sum>i<n. g i * g i) / y) / 2"
    by (simp add: sum.distrib flip: sum_divide_distrib)
  also have "\<dots> = 1" using assms by simp
  finally show ?thesis .
qed

lemma Cosine_real: "Cosine (real_math coin) a b =
  (let na = \<Sum>i<Dimension. a ! i * a ! i; nb = \<Sum>i<Dimension. b ! i * b ! i
   in if na = 0 \<or> nb = 0 then 0 else (\<Sum>i<Dimension. a ! i * b ! i) / (sqrt na * sqrt nb))"
  by (simp add: Cosine_def Let_def)

lemma Cosine_le_one: "Cosine (real_math coin) a b \<le> 1"
proof -
  let ?na = "\<Sum>i<Dimension. a ! i * a ! i" and ?nb = "\<Sum>i<Dimension. b ! i * b ! i"
  have "0 \<le> ?na" "0 \<le> ?nb" by (auto intro: sum_nonneg)
  then show ?thesis
    using cosine_le_one [of "\<lambda>i. a ! i" Dimension ?na "\<lambda>i. b ! i" ?nb] by (auto simp: Cosine_real Let_def)
qed

lemma Cosine_sym: "Cosine (real_math coin) a b = Cosine (real_math coin) b a"
  by (auto simp: Cosine_real Let_def mult.commute)

section \<open>The Laplacian\<close>

text \<open>The similarity matrix of a graph.\<close>

definition similarity_of :: "(int \<Rightarrow> nat \<Rightarrow> nat) \<Rightarrow> graph_state \<Rightarrow> real matrix" where
  "similarity_of coin state =
     (case fst (SimilarityMatrix (real_math coin) state NewCodebook) of (_, _, similarity, _) \<Rightarrow> similarity)"

lemma similarity_rows_nth: "i < length es \<Longrightarrow> j < length es \<Longrightarrow>
  similarity_rows M es ! i ! j = cos_of M (es ! i) (es ! j)"
  by (simp add: similarity_rows_def)

lemma length_embed: "length (fst (embed_nodes M state urns cb)) = length urns"
  by (induction urns arbitrary: cb) (simp_all add: case_prod_beta)

lemma similarity_of_rows:
  obtains es where "similarity_of coin state = similarity_rows (real_math coin) es" "length es = length (Nodes state)"
proof -
  let ?es = "fst (embeddingsFromState (real_math coin) state NewCodebook)"
  have "similarity_of coin state = similarity_rows (real_math coin) ?es"
    by (simp add: similarity_of_def SimilarityMatrix_def split: prod.split)
  moreover have "length ?es = length (Nodes state)" by (simp add: embeddingsFromState_def length_embed)
  ultimately show thesis by (rule that)
qed

abbreviation weight :: "real matrix \<Rightarrow> nat \<Rightarrow> nat \<Rightarrow> real" where
  "weight sim i j \<equiv> max 0 (sim ! i ! j)"

lemma edge_real: "edge (real_math coin) sim i j = weight sim i j"
  by (simp add: edge_def Let_def max_def)

lemma degree_real: "degree (real_math coin) sim i = (\<Sum>j<length sim. if i = j then 0 else weight sim i j)"
proof -
  have "(\<lambda>d j. if i = j then d else add64 (real_math coin) d (edge (real_math coin) sim i j)) =
      (\<lambda>d j. d + (if i = j then 0 else weight sim i j))"
    by (auto simp: fun_eq_iff edge_real)
  then show ?thesis
    by (simp add: degree_def foldl_sum_list sum_list_distinct_conv_sum_set lessThan_atLeast0)
qed

lemma Laplacian_nth: "i < length sim \<Longrightarrow> j < length sim \<Longrightarrow> Laplacian (real_math coin) sim ! i ! j =
  (if i = j then \<Sum>k<length sim. if i = k then 0 else weight sim i k else - weight sim i j)"
  by (auto simp: Laplacian_def degree_real edge_real)

lemma sq_Laplacian: "sq (length sim) (Laplacian M sim)"
  by (simp add: sq_def Laplacian_def)

text \<open>Twice the quadratic form of the Laplacian of a symmetric similarity.\<close>

lemma Laplacian_quadratic:
  fixes x :: "nat \<Rightarrow> real"
  assumes "symmetric n (entries sim)" "length sim = n"
  shows "(\<Sum>i<n. \<Sum>j<n. x i * Laplacian (real_math coin) sim ! i ! j * x j) =
    (\<Sum>i<n. \<Sum>j<n. weight sim i j * (x i - x j)\<^sup>2) / 2"
proof -
  let ?w = "\<lambda>i j. if i = j then 0 else weight sim i j"
  have sy: "?w i j = ?w j i" if "i < n" "j < n" for i j using assms(1) that by (simp add: symmetric_def)
  have row: "(\<Sum>j<n. x i * Laplacian (real_math coin) sim ! i ! j * x j) = (\<Sum>j<n. ?w i j * (x i)\<^sup>2 - ?w i j * x i * x j)"
    if i: "i < n" for i
  proof -
    have "(\<Sum>j<n. x i * Laplacian (real_math coin) sim ! i ! j * x j) =
        (\<Sum>j<n. (if j = i then (\<Sum>k<n. ?w i k) * (x i)\<^sup>2 else 0) - ?w i j * x i * x j)"
      using i assms(2) by (intro sum.cong) (auto simp: Laplacian_nth power2_eq_square)
    also have "\<dots> = (\<Sum>k<n. ?w i k) * (x i)\<^sup>2 - (\<Sum>j<n. ?w i j * x i * x j)"
      using i by (simp add: sum_subtractf)
    finally show ?thesis by (simp add: sum_subtractf sum_distrib_right)
  qed
  have flip: "(\<Sum>i<n. \<Sum>j<n. ?w i j * (x j)\<^sup>2) = (\<Sum>i<n. \<Sum>j<n. ?w i j * (x i)\<^sup>2)"
    by (subst sum.swap) (intro sum.cong, auto simp: sy)
  have "(\<Sum>i<n. \<Sum>j<n. weight sim i j * (x i - x j)\<^sup>2) =
      (\<Sum>i<n. \<Sum>j<n. ?w i j * (x i)\<^sup>2 + ?w i j * (x j)\<^sup>2 - 2 * (?w i j * x i * x j))"
    by (intro sum.cong) (auto simp: power2_eq_square algebra_simps)
  also have "\<dots> = 2 * (\<Sum>i<n. \<Sum>j<n. ?w i j * (x i)\<^sup>2) - 2 * (\<Sum>i<n. \<Sum>j<n. ?w i j * x i * x j)"
    using flip by (simp add: sum.distrib sum_subtractf flip: sum_distrib_left)
  also have "\<dots> = 2 * (\<Sum>i<n. \<Sum>j<n. x i * Laplacian (real_math coin) sim ! i ! j * x j)"
    using row by (simp add: sum_subtractf)
  finally show ?thesis by simp
qed

lemma similarity_symmetric: "symmetric (length (Nodes state)) (entries (similarity_of coin state))"
  and length_similarity: "length (similarity_of coin state) = length (Nodes state)"
  and weight_le_one: "i < length (Nodes state) \<Longrightarrow> j < length (Nodes state) \<Longrightarrow> weight (similarity_of coin state) i j \<le> 1"
proof -
  obtain es where es: "similarity_of coin state = similarity_rows (real_math coin) es" "length es = length (Nodes state)"
    by (rule similarity_of_rows)
  show "symmetric (length (Nodes state)) (entries (similarity_of coin state))"
    using es by (auto simp: symmetric_def similarity_rows_nth cos_of_def Cosine_sym)
  show "length (similarity_of coin state) = length (Nodes state)" using es by (simp add: similarity_rows_def)
  show "weight (similarity_of coin state) i j \<le> 1" if "i < length (Nodes state)" "j < length (Nodes state)"
    using that es Cosine_le_one by (simp add: similarity_rows_nth cos_of_def)
qed

definition laplacian_of :: "(int \<Rightarrow> nat \<Rightarrow> nat) \<Rightarrow> graph_state \<Rightarrow> real matrix" where
  "laplacian_of coin state = Laplacian (real_math coin) (similarity_of coin state)"

lemma laplacian_of_nth: "i < length (Nodes state) \<Longrightarrow> j < length (Nodes state) \<Longrightarrow> i \<noteq> j \<Longrightarrow>
  laplacian_of coin state ! i ! j = - weight (similarity_of coin state) i j"
  by (simp add: laplacian_of_def Laplacian_nth length_similarity)

lemma sq_laplacian_of: "sq (length (Nodes state)) (laplacian_of coin state)"
  using sq_Laplacian [of "similarity_of coin state"] by (simp add: laplacian_of_def length_similarity)

lemma symmetric_laplacian_of: "symmetric (length (Nodes state)) (entries (laplacian_of coin state))"
  unfolding symmetric_def
proof (intro allI impI)
  fix i j assume ij: "i < length (Nodes state)" "j < length (Nodes state)"
  then have "similarity_of coin state ! i ! j = similarity_of coin state ! j ! i"
    using similarity_symmetric by (simp add: symmetric_def)
  with ij show "laplacian_of coin state ! i ! j = laplacian_of coin state ! j ! i"
    by (cases "i = j") (simp_all add: laplacian_of_nth)
qed

lemma off_laplacian_of:
  "off (length (Nodes state)) (entries (laplacian_of coin state)) \<le> real (length (Nodes state)) * (real (length (Nodes state)) - 1)"
proof -
  have "\<bar>laplacian_of coin state ! i ! j\<bar> \<le> 1" if "i < j" "j < length (Nodes state)" for i j
    using that weight_le_one [of i state j coin] by (simp add: laplacian_of_nth)
  from off_le [OF symmetric_laplacian_of this] show ?thesis by simp
qed

section \<open>Rotations\<close>

abbreviation ip :: "nat \<Rightarrow> (nat \<Rightarrow> real) \<Rightarrow> (nat \<Rightarrow> real) \<Rightarrow> real" where
  "ip n f g \<equiv> \<Sum>i<n. f i * g i"

lemma dot_real: "length a = n \<Longrightarrow> dot (real_math coin) a b = ip n ((!) a) ((!) b)"
  by (simp add: dot_def)

lemma l2_real: "l2 (real_math coin) v = sqrt (ip (length v) ((!) v) ((!) v))"
proof -
  have "sum_list (map (\<lambda>x. x * x) v) = (\<Sum>i<length v. v ! i * v ! i)"
    by (simp add: sum_list_sum_nth lessThan_atLeast0)
  then show ?thesis by (simp add: l2_def)
qed

lemma ip_nonneg: "0 \<le> ip n f f"
  by (intro sum_nonneg) simp

text \<open>The direction of a vector that is not zero.\<close>

lemma normalize_real:
  assumes "l2 (real_math coin) a \<noteq> 0"
  shows "length (normalize (real_math coin) a) = length a"
    "\<And>i. i < length a \<Longrightarrow> normalize (real_math coin) a ! i = a ! i / l2 (real_math coin) a"
    "ip (length a) ((!) (normalize (real_math coin) a)) ((!) (normalize (real_math coin) a)) = 1"
proof -
  let ?l = "l2 (real_math coin) a"
  show "length (normalize (real_math coin) a) = length a" by (simp add: HdcCrosswalk.normalize_def Let_def)
  show nth: "normalize (real_math coin) a ! i = a ! i / ?l" if "i < length a" for i
    using assms that by (simp add: HdcCrosswalk.normalize_def Let_def)
  have pos: "0 < ip (length a) ((!) a) ((!) a)" using assms ip_nonneg [of "(!) a" "length a"] by (simp add: l2_real)
  have "ip (length a) ((!) (normalize (real_math coin) a)) ((!) (normalize (real_math coin) a)) =
      (\<Sum>i<length a. a ! i * a ! i / (?l * ?l))" by (intro sum.cong) (simp_all add: nth)
  also have "\<dots> = ip (length a) ((!) a) ((!) a) / (?l * ?l)" by (simp add: sum_divide_distrib)
  also have "?l * ?l = ip (length a) ((!) a) ((!) a)" using pos by (simp add: l2_real)
  finally show "ip (length a) ((!) (normalize (real_math coin) a)) ((!) (normalize (real_math coin) a)) = 1" using pos by simp
qed

text \<open>A rotation in the plane of two orthonormal vectors.\<close>

definition plane_entry :: "real \<Rightarrow> real \<Rightarrow> (nat \<Rightarrow> real) \<Rightarrow> (nat \<Rightarrow> real) \<Rightarrow> nat \<Rightarrow> nat \<Rightarrow> real" where
  "plane_entry c s u v i j =
     (if i = j then 1 else 0) + ((c - 1) * u i + s * v i) * u j + ((c - 1) * v i - s * u i) * v j"

lemma plane_rotation_nth: "i < n \<Longrightarrow> j < n \<Longrightarrow>
  plane_rotation (real_math coin) c s u v n ! i ! j = plane_entry c s ((!) u) ((!) v) i j"
  by (simp add: plane_rotation_def plane_entry_def algebra_simps)

lemma plane_apply:
  assumes "i < n"
  shows "(\<Sum>j<n. plane_entry c s u v i j * x j) =
    x i + ((c - 1) * u i + s * v i) * ip n u x + ((c - 1) * v i - s * u i) * ip n v x"
proof -
  have "(\<Sum>j<n. plane_entry c s u v i j * x j) = (\<Sum>j<n. (if j = i then x i else 0)
      + ((c - 1) * u i + s * v i) * (u j * x j) + ((c - 1) * v i - s * u i) * (v j * x j))"
    by (intro sum.cong) (auto simp: plane_entry_def algebra_simps)
  then show ?thesis using assms by (simp add: sum.distrib sum_distrib_left)
qed

lemma plane_orthogonal:
  assumes u: "ip n u u = 1" and v: "ip n v v = 1" and uv: "ip n u v = 0" and cs: "c * c + s * s = 1"
    and ij: "i < n" "j < n"
  shows "(\<Sum>k<n. plane_entry c s u v i k * plane_entry c s u v j k) = (if i = j then 1 else 0)"
proof -
  have uk: "ip n u (plane_entry c s u v j) = u j + ((c - 1) * u j + s * v j)"
    using plane_apply [OF ij(2), of c s u v u] u uv by (simp add: mult.commute)
  have vk: "ip n v (plane_entry c s u v j) = v j + ((c - 1) * v j - s * u j)"
    using plane_apply [OF ij(2), of c s u v v] v uv by (simp add: mult.commute)
  have "(\<Sum>k<n. plane_entry c s u v i k * plane_entry c s u v j k) =
      plane_entry c s u v j i + ((c - 1) * u i + s * v i) * (c * u j + s * v j)
        + ((c - 1) * v i - s * u i) * (c * v j - s * u j)"
    using plane_apply [OF ij(1), of c s u v "plane_entry c s u v j"] by (simp add: uk vk algebra_simps)
  also have "\<dots> = (if i = j then 1 else 0) + (c * c + s * s - 1) * (u i * u j + v i * v j)"
    by (simp add: plane_entry_def algebra_simps)
  finally show ?thesis using cs by simp
qed

text \<open>Two directions that are neither the same nor opposite, up to the tolerances of the code.\<close>

definition apart :: "(int \<Rightarrow> nat \<Rightarrow> nat) \<Rightarrow> real list \<Rightarrow> real list \<Rightarrow> bool" where
  "apart coin a b \<longleftrightarrow>
     (let c = dot (real_math coin) (normalize (real_math coin) a) (normalize (real_math coin) b)
      in 1 / 10 ^ 12 \<le> 1 - c \<and> (1 / 10 ^ 12)\<^sup>2 \<le> 1 - c * c)"

lemma lit_tolerance: "lit (real_math coin) 1 (-12) = 1 / 10 ^ 12"
  by (simp add: real_math_def power_int_minus_divide)

lemma ip_diff: "ip n (\<lambda>i. f i - c * g i) h = ip n f h - c * ip n g h"
  by (simp add: left_diff_distrib sum_subtractf sum_distrib_left mult.assoc)

lemma ip_sym: "ip n f g = ip n g f"
  by (simp add: mult.commute)

text \<open>The part of t off the line of u.\<close>

lemma ip_off_line:
  assumes "ip n u u = 1" "ip n t t = 1"
  shows "ip n u (\<lambda>i. t i - ip n u t * u i) = 0"
    "ip n (\<lambda>i. t i - ip n u t * u i) (\<lambda>i. t i - ip n u t * u i) = 1 - ip n u t * ip n u t"
proof -
  let ?c = "ip n u t" and ?r = "\<lambda>i. t i - ip n u t * u i"
  show z: "ip n u ?r = 0"
    using ip_diff [of t ?c u u n] assms(1) ip_sym [of u ?r n] ip_sym [of t u n] by simp
  have "ip n ?r ?r = ip n t ?r - ?c * ip n u ?r" by (rule ip_diff)
  also have "ip n t ?r = ip n ?r t" by (rule ip_sym)
  also have "\<dots> = 1 - ?c * ?c" using ip_diff [of t ?c u t n] assms(2) by simp
  finally show "ip n ?r ?r = 1 - ?c * ?c" using z by simp
qed

lemma OrthogonalRotation_plane:
  assumes "length a = n" "length b = n" "l2 (real_math coin) a \<noteq> 0" "l2 (real_math coin) b \<noteq> 0" "apart coin a b"
  defines "u \<equiv> (!) (normalize (real_math coin) a)" and "t \<equiv> (!) (normalize (real_math coin) b)"
  shows "\<exists>v c s. ip n u u = 1 \<and> ip n v v = 1 \<and> ip n u v = 0 \<and> c * c + s * s = 1 \<and> (\<forall>i<n. c * u i + s * v i = t i) \<and>
    length (OrthogonalRotation (real_math coin) a b) = n \<and>
    (\<forall>i<n. length (OrthogonalRotation (real_math coin) a b ! i) = n \<and>
       (\<forall>j<n. OrthogonalRotation (real_math coin) a b ! i ! j = plane_entry c s u v i j))"
proof -
  let ?M = "real_math coin" and ?U = "normalize (real_math coin) a" and ?T = "normalize (real_math coin) b"
  have n: "n \<noteq> 0" using assms(1,3) by (auto simp: l2_real)
  have uu: "ip n u u = 1" using normalize_real(3) [OF assms(3)] assms(1) by (simp add: u_def)
  have tt: "ip n t t = 1" using normalize_real(3) [OF assms(4)] assms(2) by (simp add: t_def)
  have len: "length ?U = n" "length ?T = n" using normalize_real(1) assms(1-4) by simp_all
  define c where "c = ip n u t"
  have dot: "dot ?M ?U ?T = c" using len by (simp add: dot_real u_def t_def c_def)
  have c: "1 / 10 ^ 12 \<le> 1 - c" and cc: "(1 / 10 ^ 12)\<^sup>2 \<le> 1 - c * c" using assms(5) by (simp_all add: apart_def Let_def dot)
  have pos: "0 < 1 - c * c" using cc by (smt (verit) divide_pos_pos zero_less_power)
  then have "c\<^sup>2 \<le> 1" by (simp add: power2_eq_square)
  then have "\<bar>c\<bar> \<le> 1" by (simp add: abs_square_le_1)
  then have "- 1 \<le> c" "c \<le> 1" by linarith+
  then have clamp: "clamp ?M c (lit ?M (-1) 0) (one64 ?M) = c" by (simp add: clamp_def)
  let ?w = "map (\<lambda>i. ?T ! i - c * ?U ! i) [0..<n]"
  let ?s = "sqrt (1 - c * c)"
  have w: "ip n ((!) ?w) ((!) ?w) = 1 - c * c" "ip n u ((!) ?w) = 0"
    using ip_off_line [OF uu tt, folded c_def] by (simp_all add: u_def t_def cong: sum.cong_simp)
  have l2w: "l2 ?M ?w = ?s" using w by (simp add: l2_real)
  have "1 / 10 ^ 12 \<le> ?s" using cc by (intro real_le_rsqrt)
  then have big: "\<not> l2 ?M ?w < 1 / 10 ^ 12" and s0: "?s \<noteq> 0" by (simp_all add: l2w) (use pos in auto)
  define v where "v = (!) (normalize ?M ?w)"
  have v: "v i = ((t i - c * u i) / ?s)" if "i < n" for i
    using normalize_real(2) [of coin ?w i] s0 that by (simp add: v_def l2w t_def u_def)
  have vv: "ip n v v = 1" using normalize_real(3) [of coin ?w] s0 by (simp add: v_def l2w)
  have uv: "ip n u v = 0"
  proof -
    have "ip n u v = (\<Sum>i<n. u i * ?w ! i / ?s)" by (intro sum.cong) (simp_all add: v t_def u_def)
    then show ?thesis using w(2) by (simp flip: sum_divide_distrib)
  qed
  have R: "OrthogonalRotation ?M a b = plane_rotation ?M c ?s ?U (normalize ?M ?w) n"
  proof -
    have "l2 ?M ?U \<noteq> 0" "l2 ?M ?T \<noteq> 0" using uu tt len by (simp_all add: l2_real u_def t_def)
    moreover have "max 0 (1 - c * c) = 1 - c * c" using pos by simp
    moreover have "\<not> \<bar>1 - c\<bar> < 1 / 10 ^ 12" using c by simp
    ultimately show ?thesis
      using n assms(1,2) big
      by (simp add: OrthogonalRotation_def Let_def dot clamp [simplified] lit_tolerance)
  qed
  have "c * u i + ?s * v i = t i" if "i < n" for i using s0 by (simp add: v [OF that])
  moreover have "c * c + ?s * ?s = 1" using pos by simp
  moreover have "length (OrthogonalRotation ?M a b) = n" by (simp add: R plane_rotation_def)
  moreover have "length (OrthogonalRotation ?M a b ! i) = n" if "i < n" for i
    using that by (simp add: R plane_rotation_def)
  moreover have "OrthogonalRotation ?M a b ! i ! j = plane_entry c ?s u v i j" if "i < n" "j < n" for i j
    using that by (simp add: R plane_rotation_nth u_def v_def)
  ultimately show ?thesis
    using uu vv uv by (intro exI [of _ v] exI [of _ c] exI [of _ ?s] conjI allI impI) simp_all
qed

lemma rotation_facts:
  assumes ab: "length a = n" "length b = n" "l2 (real_math coin) a \<noteq> 0" "l2 (real_math coin) b \<noteq> 0" "apart coin a b"
  shows "\<And>i j. i < n \<Longrightarrow> j < n \<Longrightarrow>
      (\<Sum>k<n. OrthogonalRotation (real_math coin) a b ! i ! k * OrthogonalRotation (real_math coin) a b ! j ! k) =
        (if i = j then 1 else 0)"
    "\<And>i. i < n \<Longrightarrow> matVecMul (real_math coin) (OrthogonalRotation (real_math coin) a b) a ! i =
        l2 (real_math coin) a / l2 (real_math coin) b * b ! i"
    "normalizedResidual (real_math coin) (OrthogonalRotation (real_math coin) a b) a b =
        \<bar>l2 (real_math coin) a - l2 (real_math coin) b\<bar> / l2 (real_math coin) b"
proof -
  let ?M = "real_math coin" and ?R = "OrthogonalRotation (real_math coin) a b"
  let ?la = "l2 ?M a" and ?lb = "l2 ?M b"
  define u t where "u = (!) (normalize ?M a)" and "t = (!) (normalize ?M b)"
  obtain v c s where uu: "ip n u u = 1" and vv: "ip n v v = 1" and uv: "ip n u v = 0" and cs: "c * c + s * s = 1"
    and t: "\<And>i. i < n \<Longrightarrow> c * u i + s * v i = t i" and lR: "length ?R = n" "\<And>i. i < n \<Longrightarrow> length (?R ! i) = n"
    and R: "\<And>i j. i < n \<Longrightarrow> j < n \<Longrightarrow> ?R ! i ! j = plane_entry c s u v i j"
    using OrthogonalRotation_plane [OF ab] unfolding u_def t_def by blast
  show "(\<Sum>k<n. ?R ! i ! k * ?R ! j ! k) = (if i = j then 1 else 0)" if "i < n" "j < n" for i j
    using plane_orthogonal [OF uu vv uv cs that] that by (simp add: R)
  have a: "a ! i = ?la * u i" and b: "t i = b ! i / ?lb" if "i < n" for i
    using that ab normalize_real(2) [OF ab(3)] normalize_real(2) [OF ab(4)] by (simp_all add: u_def t_def)
  have Ra: "matVecMul ?M ?R a ! i = ?la / ?lb * b ! i" if i: "i < n" for i
  proof -
    have "matVecMul ?M ?R a ! i = (\<Sum>j<n. ?R ! i ! j * a ! j)" using i lR by (simp add: matVecMul_def dot_real)
    also have "\<dots> = (\<Sum>j<n. plane_entry c s u v i j * u j * ?la)" using i by (intro sum.cong) (simp_all add: R a)
    also have "\<dots> = (\<Sum>j<n. plane_entry c s u v i j * u j) * ?la" by (simp add: sum_distrib_right)
    also have "(\<Sum>j<n. plane_entry c s u v i j * u j) = t i"
      using plane_apply [OF i, of c s u v u] uu uv ip_sym [of v u n] t [OF i] by (simp add: algebra_simps)
    finally show ?thesis using b [OF i] by (simp add: mult.commute)
  qed
  show "matVecMul ?M ?R a ! i = ?la / ?lb * b ! i" if "i < n" for i using Ra [OF that] .
  let ?d = "map (\<lambda>i. matVecMul ?M ?R a ! i - b ! i) [0..<length a]"
  have lb: "0 < ?lb" using ab(4) ip_nonneg by (simp add: l2_real order_less_le)
  have "ip n ((!) ?d) ((!) ?d) = (\<Sum>i<n. (?la / ?lb - 1)\<^sup>2 * (b ! i * b ! i))"
    using ab(1) by (intro sum.cong) (simp_all add: Ra power2_eq_square algebra_simps)
  also have "\<dots> = (?la / ?lb - 1)\<^sup>2 * ip n ((!) b) ((!) b)" by (rule sum_distrib_left [symmetric])
  finally have "l2 ?M ?d = \<bar>?la / ?lb - 1\<bar> * ?lb"
    using ab(1,2) by (simp add: l2_real real_sqrt_mult)
  also have "\<dots> = \<bar>?la - ?lb\<bar>"
  proof -
    have "\<bar>?la / ?lb - 1\<bar> * ?lb = \<bar>(?la / ?lb - 1) * ?lb\<bar>" using lb by (simp add: abs_mult)
    also have "(?la / ?lb - 1) * ?lb = ?la - ?lb" using lb by (simp add: left_diff_distrib)
    finally show ?thesis .
  qed
  finally show "normalizedResidual ?M ?R a b = \<bar>?la - ?lb\<bar> / ?lb"
    using lb by (simp add: normalizedResidual_def Let_def)
qed

end
