(* ===== verification/HdcProperties.thy ===== *)
theory HdcProperties
  imports HdcGeometry Examples
begin

text \<open>
  The properties of internal/hdc: encodings and the live index depend on the graph alone, every node
  has one place in the federation, overlapping shard rules leave that place to the order of a map, and
  the divergence of a fiber stays in the unit interval.
\<close>

section \<open>A federation for the examples\<close>

text \<open>Two kernels and two shard rules, of which one prefix extends the other.\<close>

definition ex_fed :: graph_state where
  "ex_fed = ex_run [ex_add ''ka'' ''kernel'' [], ex_add ''kb'' ''kernel'' [],
     ex_add ''s1'' ''shard_rule'' [(''urn_prefix'', ex_prop (VStr ''n'') ''immutable'')],
     ex_add ''s2'' ''shard_rule'' [(''urn_prefix'', ex_prop (VStr ''n:'') ''immutable'')], ex_add ''n:x'' ''task'' [],
     ex_link ''r1'' ''WF10'' ''s1'' ''routes-to'' ''ka'' ''routed'', ex_link ''r2'' ''WF10'' ''s2'' ''routes-to'' ''kb'' ''routed'']"



lemma trim_n: "TrimSpace ''n'' = ''n''" "TrimSpace ''n:'' = ''n:''"
  by (rule TrimSpace_plain; auto simp: spaces_def)+

lemma ex_fed_kernels: "KernelURNs ex_fed = [''ka'', ''kb'']"
  by code_simp

section \<open>Encodings\<close>



section \<open>Placement\<close>



text \<open>C36: a node that its URN does not place and that a shard rule reaches can end in any kernel that
  a rule with a prefix of its URN routes to, and in no other: the order in which Go iterates over the
  maps picks one, so the place is settled exactly when these rules name one kernel.\<close>

theorem shard_placement_exact:
  assumes "left_to_shards (KernelURNs s) u" "(p0, k0) \<in> links_of s (KernelURNs s)" "HasPrefix u p0"
  shows "{inferCurrentKernel s' (KernelURNs s') u |s'. reorders s s'} =
    {k. \<exists>p. (p, k) \<in> links_of s (KernelURNs s) \<and> HasPrefix u p}"
  by (rule possible_placements [OF assms])

lemma ex_fed_links: "(''n'', ''ka'') \<in> links_of ex_fed (KernelURNs ex_fed)" "(''n:'', ''kb'') \<in> links_of ex_fed (KernelURNs ex_fed)"
proof -
  have "map_option (\<lambda>nd. (n_TypeID nd, map_option p_Value (mget (n_Properties nd) ''urn_prefix''))) (mget (Nodes ex_fed) ''s1'') =
      Some (''shard_rule'', Some (VStr ''n''))"
    "map_option (\<lambda>nd. (n_TypeID nd, map_option p_Value (mget (n_Properties nd) ''urn_prefix''))) (mget (Nodes ex_fed) ''s2'') =
      Some (''shard_rule'', Some (VStr ''n:''))"
    "map_option (\<lambda>r. (r_SrcURN r, r_SrcPort r, r_TgtURN r)) (mget (Relations ex_fed) ''r1'') = Some (''s1'', ''routes-to'', ''ka'')"
    "map_option (\<lambda>r. (r_SrcURN r, r_SrcPort r, r_TgtURN r)) (mget (Relations ex_fed) ''r2'') = Some (''s2'', ''routes-to'', ''kb'')"
    by code_simp+
  then obtain n1 n2 r1 r2 where n: "mget (Nodes ex_fed) ''s1'' = Some n1" "shard_prefix n1 = Some ''n''"
      "mget (Nodes ex_fed) ''s2'' = Some n2" "shard_prefix n2 = Some ''n:''"
    and r: "mget (Relations ex_fed) ''r1'' = Some r1" "r_SrcURN r1 = ''s1''" "r_SrcPort r1 = ''routes-to''" "r_TgtURN r1 = ''ka''"
      "mget (Relations ex_fed) ''r2'' = Some r2" "r_SrcURN r2 = ''s2''" "r_SrcPort r2 = ''routes-to''" "r_TgtURN r2 = ''kb''"
    by (auto simp: shard_prefix_def trim_n)
  show "(''n'', ''ka'') \<in> links_of ex_fed (KernelURNs ex_fed)" "(''n:'', ''kb'') \<in> links_of ex_fed (KernelURNs ex_fed)"
    using mget_in_set [OF n(1)] mget_in_set [OF n(3)] mget_in_set [OF r(1)] mget_in_set [OF r(5)] n r
    unfolding shard_links_def ex_fed_kernels by force+
qed

text \<open>Both kernels are possible for the node whose URN starts with both prefixes.\<close>

theorem shard_placement_exact_witness:
  "{''ka'', ''kb''} \<subseteq> {inferCurrentKernel s' (KernelURNs s') ''n:x'' |s'. reorders ex_fed s'}"
proof -
  have left: "left_to_shards (KernelURNs ex_fed) ''n:x''"
    unfolding ex_fed_kernels by code_simp
  have pre: "HasPrefix ''n:x'' ''n''" "HasPrefix ''n:x'' ''n:''" by code_simp+
  show ?thesis
    using shard_placement_exact [OF left ex_fed_links(1) pre(1)] ex_fed_links pre by auto
qed

section \<open>Divergence\<close>

text \<open>C38: in exact arithmetic the divergence of every fiber from the federation lies between 0 and 1,
  as the comment of JensenShannonDivergence says.\<close>

theorem fiber_divergence_bounded:
  assumes "e \<in> set (FiberDistribution (real_math coin) state)"
  shows "0 \<le> fd_JSD e \<and> fd_JSD e \<le> 1"
  using FiberDistribution_JSD [OF assms] .

theorem fiber_divergence_bounded_witness:
  "\<exists>e\<in>set (FiberDistribution (real_math (\<lambda>_ _. 0)) ex_fed). 0 \<le> fd_JSD e \<and> fd_JSD e \<le> 1"
proof -
  have "FiberDistribution (real_math (\<lambda>_ _. 0)) ex_fed \<noteq> []"
    by (rule FiberDistribution_nonempty) (simp add: ex_fed_kernels)
  then obtain e where "e \<in> set (FiberDistribution (real_math (\<lambda>_ _. 0)) ex_fed)" by (meson ex_in_conv set_empty)
  with fiber_divergence_bounded [OF this] show ?thesis by blast
qed

section \<open>Spectra\<close>

text \<open>The Laplacian of the similarity of a graph has the quadratic form of the graph's weights:
  half the sum of the weighted squared differences, so no vector makes it negative.\<close>

theorem Laplacian_form:
  "(\<Sum>i<length (Nodes state). \<Sum>j<length (Nodes state). x i * laplacian_of coin state ! i ! j * x j) =
     (\<Sum>i<length (Nodes state). \<Sum>j<length (Nodes state).
        max 0 (similarity_of coin state ! i ! j) * (x i - x j)\<^sup>2) / 2"
  unfolding laplacian_of_def by (rule Laplacian_quadratic [OF similarity_symmetric length_similarity])

text \<open>C33: on a graph of at most 100,000 nodes the 50 n^2 rotations the code allows are enough, in
  exact arithmetic: the loop leaves every entry off the diagonal within its tolerance of 10^(-10), and
  what is returned is an ascending list of n eigenvalues with an orthonormal basis that satisfies the
  eigenvalue equations of the Laplacian up to n times that tolerance.\<close>

theorem spectrum_converges:
  assumes "length (Nodes state) \<le> 10 ^ 5" "0 < length (Nodes state)"
  shows "settled (length (Nodes state)) (fst (jacobi (real_math coin) (maxIter (length (Nodes state)))
      (laplacian_of coin state, identityMatrix (real_math coin) (length (Nodes state))))) \<and>
    eigen_system (length (Nodes state)) (real (length (Nodes state)) / 10 ^ 10) (laplacian_of coin state)
      (EigenDecompositionSymmetric (real_math coin) (laplacian_of coin state))"
proof -
  let ?n = "length (Nodes state)"
  have n: "real ?n \<le> 10 ^ 5" "1 \<le> real ?n" using assms by (simp_all add: Suc_leI del: length_greater_0_conv)
  then have "real ?n * (real ?n - 1) \<le> 10 ^ 5 * 10 ^ 5" by (intro mult_mono) simp_all
  with off_laplacian_of [of state coin] have off: "off ?n (entries (laplacian_of coin state)) \<le> 10 ^ 10" by simp
  obtain a v where run: "jacobi (real_math coin) (maxIter ?n) (laplacian_of coin state, identityMatrix (real_math coin) ?n) = (a, v)"
    by (cases "jacobi (real_math coin) (maxIter ?n) (laplacian_of coin state, identityMatrix (real_math coin) ?n)")
  from jacobi_settles [OF sq_laplacian_of assms(2) symmetric_laplacian_of off run]
    eigen_decomposition [OF sq_laplacian_of symmetric_laplacian_of off]
  show ?thesis by (simp add: run)
qed

theorem spectrum_converges_witness:
  "eigen_system 5 (5 / 10 ^ 10) (laplacian_of (\<lambda>_ _. 0) ex_fed)
     (EigenDecompositionSymmetric (real_math (\<lambda>_ _. 0)) (laplacian_of (\<lambda>_ _. 0) ex_fed))"
proof -
  have "length (Nodes ex_fed) = 5" by code_simp
  then show ?thesis using spectrum_converges [of ex_fed "\<lambda>_ _. 0"] by simp
qed

section \<open>Crosswalks\<close>






end
