(* ===== verification/Spec2Isabelle.thy ===== *)
theory Spec2Isabelle
  imports FoldProperties OperadProperties ReactiveProperties StoreProperties LoaderProperties WireSpec RuntimeOps
    HttpProperties LlmProperties BootProperties HdcProperties
begin

text \<open>
  A verification development of the mo:os kernel, a Go program that keeps a typed hypergraph as
  the fold of an append-only log of rewrites.

  \<^bold>\<open>The program.\<close> \<open>internal/graph\<close> holds the data (nodes, relations, envelopes, log entries) and the
  graph state with its three indexes. \<open>internal/fold\<close> evaluates one of four rewrites (ADD, LINK, MUTATE,
  UNLINK) on a state, replays a log and runs an atomic batch. \<open>internal/operad\<close> loads the ontology and
  validates envelopes against it. \<open>internal/reactive\<close> matches watchers, guards and t_hooks against an
  applied rewrite. \<open>internal/kernel\<close> owns the state: \<open>Runtime\<close> runs the gates, folds, persists to a
  \<open>Store\<close>, broadcasts to subscribers and triggers the reactive engine; the sweep fires time-driven
  hooks. \<open>internal/hdc\<close> encodes the graph in hypervectors and reads similarity, kernel placement, type
  drift and crosswalks off them; the runtime annotates the drift it reports. \<open>internal/transport\<close> and
  \<open>internal/mcp\<close> serve the runtime over HTTP and JSON-RPC, forward rewrites to twin kernels and proxy
  chat requests. \<open>cmd/moos\<close> puts the parts together from the command line.

  \<^bold>\<open>Correspondence.\<close> A Go struct is a record whose selectors carry a prefix for the struct, a Go
  function the definition of its name, a loop a recursive function or a fold named in the map, an error
  a constructor of \<open>fold_error\<close>, \<open>operad_error\<close>, \<open>load_error\<close>, \<open>kernel_error\<close> or \<open>boot_error\<close>.
  \<^item> Prelude, GoLib, GoText, GoJson: Go's maps, strings and int64, the library functions that are a
    parameter, text functions, and encoding/json as a decoder of documents.
  \<^item> Graph, GraphState: graph/*.go; Wire: its JSON. Fold: fold/evaluate.go. Replay: fold/program.go,
    fold/replay.go.
  \<^item> Registry, LinkGates, Occupancy: operad/registry.go, port_colors.go, validate.go, occupancy.go,
    session_context.go. Loader: operad/loader.go. Liveness: kernel/liveness.go.
  \<^item> HookPredicate, Engine: reactive/*.go. Sweep: tday/tday.go and kernel/sweep.go.
  \<^item> Store: kernel/store.go, mem_store.go, log_store.go. LogIntegrity: kernel/log_integrity.go.
    Runtime: kernel/runtime.go and the sweep goroutine.
  \<^item> Http, Projections, Routes: transport/server.go, thook.go, tcone.go, twin.go. LlmProxy:
    transport/llmproxy.go. Mcp: internal/mcp. Boot: cmd/moos/main.go.
  \<^item> Hdc: hdc/hdc.go, encode.go. HdcFiber, HdcSpectral (with live_index.go), HdcCrosswalk: the files of
    their names. HdcHttp: the /hdc handlers of transport/server.go.
  \<^item> Theories ending in Spec, with RuntimeOps, Streams, WireOrder, HdcReal, HdcJacobi and HdcGeometry, hold
    the abstract descriptions and the lemmas; Examples the concrete graphs; theories ending in
    Properties, and this one, the properties, with a witness for each that has a hypothesis.

  \<^bold>\<open>What the lemmas show.\<close>
  \<^item> The evaluator refines an abstract step relation on index-free graphs and keeps the state invariant,
    so each indexed accessor equals a scan (locale \<open>keyed_index\<close>). Replay and the integrity walk are
    instances of one loop (locale \<open>log_machine\<close>). The three map searches of the occupancy code do not
    depend on map order (locale \<open>relation_search\<close>).
  \<^item> Both stores satisfy one contract (locale \<open>rewrite_store\<close>, extended by \<open>atomic_store\<close>), and every
    operation of the runtime only appends to the log (relation \<open>grown\<close>), so that \<open>kernel_invariant\<close>
    carries the invariants through \<open>reachable\<close>: whatever interleaving of commits, programs, sweeps and
    subscriptions, the state is the replay of the log. A subscriber that keeps up hears every logged
    rewrite (locale \<open>emission_closed\<close>).
  \<^item> A loaded registry has a closed color section and exactly the ports its pairs declare, and an
    envelope survives the wire.
  \<^item> Over HTTP only three routes write, and they and the writing tools of MCP need the bearer token when
    one is set; MCP and HTTP perform the same operation. The t-cone is a set of hooks and owners that
    does not mention the maps that build it. Twins apply what they are sent, unless a token protects
    them. The proxy never answers with its key and calls the service at most twice.
  \<^item> Restarting with seeds adds nothing to a kernel that has them.
  \<^item> Encodings are functions of the graph, whatever the codebook already holds, and the batch encoder
    agrees with the single one; every node has one kernel, decided by map order only where shard
    prefixes overlap. In exact arithmetic divergences stay in the unit interval, the Jacobi iteration
    reaches its threshold within its bound and returns an orthonormal eigensystem, and a crosswalk
    rotation is orthogonal and aligns the two schemes.

  \<^bold>\<open>Modelling choices.\<close>
  \<^item> A Go map is an association list with distinct keys, iterated in list order; a theorem that holds for
    every list holds for every iteration order. Go's int and int64 are \<open>int\<close> with \<open>wrap64\<close> written out
    where the code can overflow; hashes are 64-bit words.
  \<^item> A float64 among the property values is an exact decimal \<open>VFloat m e\<close>, faithful for values Go prints
    exactly (integers up to 2^53 and short decimals); conversion to int is that of amd64.
  \<^item> Each public operation of the runtime, and each request handler, is one atomic step; \<open>kernel_step\<close> has
    one step per critical section and covers their interleavings.
  \<^item> Requests, answers and files are JSON documents, in the order of their keys and with repeated keys.
    A decoder gets the old value of its target, as json.Unmarshal reuses it. Attribute names match up to
    letter case. Strings are valid UTF-8; letters outside ASCII are not lowered. An empty list that Go
    may hold as a nil slice prints null where the code can produce one.
  \<^item> The arithmetic of package hdc is the record \<open>mathlib\<close> over two types of floats, with every operation
    written where the code has it; theories HdcReal, HdcJacobi and HdcGeometry instantiate it with the
    real numbers (\<open>real_math\<close>), so what they show holds up to rounding. Sums follow the code's order.
    sort.Slice is an insertion sort, which gives Go's result wherever the order is total.
  \<^item> Recursions follow lists and finite maps; the causal search and the predicate evaluator have their
    own termination measures. \<open>jacobi\<close> counts down the code's own bound of 50 n^2 rotations, which
    HdcProperties shows to be enough. The stream, stdio and sweep loops run over the list of the
    events they wait for, so they have as many rounds as there are events.

  \<^bold>\<open>Parameters.\<close> The record \<open>golib\<close> holds what the kernel only passes through: JSON text, hashes,
  formatted times, the clock. \<open>kenv\<close> adds the store's operations and the drift rows, \<open>web\<close> the parser of
  bodies and the /hdc and chat handlers; \<open>with_hdc\<close> puts the model of package hdc in their place.
  \<open>host\<close> is the machine the command starts on, \<open>outside\<close> the secret manager and the chat service,
  \<open>hdc_io\<close> the printed form of floats.

  \<^bold>\<open>Not modelled.\<close> The HTTP/3 listener of transport/quic.go and the lock calls of
  kernel/log_lock_*.go, which are system calls with no computation of their own; kernel/interfaces.go,
  which declares no behaviour; log lines, sockets, shutdown, the framing of event streams and the
  spelling of JSON text.
\<close>

section \<open>The runtime as a whole\<close>

text \<open>C1: at any moment, under any interleaving of commits, programs, sweeps and subscriptions, the
  state of a running kernel is the replay of its log, that replay meets no error, and the state
  satisfies the state invariant.\<close>

theorem state_is_replay:
  assumes "reachable E rt"
  shows "Replay (Log rt) = (State rt, None) \<and> good_state (State rt)"
  using well_formed.inv_reachable [OF assms] by (simp add: rt_ok_def Log_def State_def)

theorem state_is_replay_witness:
  "Replay (Log (ex_rt ex_ab_envs None)) = (State (ex_rt ex_ab_envs None), None)"
  using state_is_replay [OF reachable_ex] by blast

text \<open>C2: the log is append-only and the graph only evolves: no step of a running kernel removes or
  reorders a log entry, loses a node, or changes a node's identity or an immutable property.\<close>

theorem step_extends_log:
  assumes "reachable E rt" "kernel_step E rt rt'"
  shows "\<exists>new. Log rt' = Log rt @ new \<and> evolves (abs_graph (State rt)) (abs_graph (State rt'))"
proof -
  have g: "grown E rt rt'" by (rule grown_kernel_step [OF assms(2)])
  from grown_log_prefix [OF g] grown_evolves [OF g replayed.inv_reachable [OF assms(1)]] show ?thesis
    by (simp add: Log_def State_def)
qed

theorem step_extends_log_witness:
  "\<exists>new. Log (fst (Apply ex_kenv (ex_rt ex_ab_envs None) (ex_unlink ''r''))) = Log (ex_rt ex_ab_envs None) @ new"
proof -
  let ?rt = "ex_rt ex_ab_envs None"
  consider "fst (Apply ex_kenv ?rt (ex_unlink ''r'')) = ?rt" | "kernel_step ex_kenv ?rt (fst (Apply ex_kenv ?rt (ex_unlink ''r'')))"
    using Apply_is_step by blast
  then show ?thesis
  proof cases
    case 1
    then show ?thesis by simp
  next
    case 2
    from step_extends_log [OF reachable_ex this] show ?thesis by blast
  qed
qed

text \<open>C4: a call of Apply that returns an error has left the state, the log and every subscriber's
  channel as they were.\<close>

theorem Apply_error_no_effect:
  assumes "Apply E rt env = (rt', Inl err)"
  shows "State rt' = State rt \<and> Log rt' = Log rt \<and> rt_subscribers rt' = rt_subscribers rt"
  using Apply_Inl [OF assms] by (simp add: State_def Log_def)

theorem Apply_error_no_effect_witness:
  "\<exists>rt' err. Apply ex_kenv (ex_rt ex_ab_envs None) (ex_unlink ''x'') = (rt', Inl err) \<and> State rt' = ex_ab"
proof -
  let ?rt = "ex_rt ex_ab_envs None"
  have "case Apply ex_kenv ?rt (ex_unlink ''x'') of (_, Inl _) \<Rightarrow> True | (_, Inr _) \<Rightarrow> False"
    by code_simp
  then obtain rt' err where a: "Apply ex_kenv ?rt (ex_unlink ''x'') = (rt', Inl err)"
    by (auto split: prod.splits sum.splits)
  with Apply_error_no_effect [OF a] show ?thesis by (auto simp: State_def)
qed



text \<open>C8: a program that is rejected has no effect on the state, the log or the subscribers, and the
  second evaluation of the batch, after the checking walk, is never what rejects it.\<close>

theorem ApplyProgram_all_or_nothing:
  assumes "ApplyProgram E rt es = (rt', Inl err)"
  shows "State rt' = State rt \<and> Log rt' = Log rt \<and> rt_subscribers rt' = rt_subscribers rt \<and>
    (\<forall>e. err \<noteq> ProgramErr e)"
  using ApplyProgram_Inl [OF assms] by (simp add: State_def Log_def)

theorem ApplyProgram_all_or_nothing_witness:
  "\<exists>rt' err. ApplyProgram ex_kenv (ex_rt ex_ab_envs None) [ex_unlink ''r'', ex_unlink ''r''] = (rt', Inl err) \<and>
     State rt' = ex_ab"
proof -
  have "case ApplyProgram ex_kenv (ex_rt ex_ab_envs None) [ex_unlink ''r'', ex_unlink ''r''] of
      (_, Inl _) \<Rightarrow> True | (_, Inr _) \<Rightarrow> False"
    by code_simp
  then obtain rt' err where a: "ApplyProgram ex_kenv (ex_rt ex_ab_envs None) [ex_unlink ''r'', ex_unlink ''r''] =
      (rt', Inl err)"
    by (auto split: prod.splits sum.splits)
  with ApplyProgram_all_or_nothing [OF a] show ?thesis by (auto simp: State_def)
qed

text \<open>C7: a program that succeeds appended its whole batch as one run of log entries, in order, under
  consecutive sequence numbers; each envelope was checked by the admin gate, the strata and causal
  gates and the guards against the state its predecessors in the batch produce.\<close>

theorem ApplyProgram_success:
  assumes "ApplyProgram E rt es = (rt', Inr rs)"
  shows "\<exists>inj ts rest. length inj = length es \<and> length ts = length es \<and> length rs = length es \<and>
    Log rt' = Log rt @ stamp_all (MaxLogSeq rt) (zip inj ts) @ rest \<and>
    (\<exists>nx. eval_chain (State rt) (zip inj ts) = Some (nx, rs)) \<and>
    (\<forall>i<length es. \<exists>s rs'. eval_chain (State rt) (take i (zip inj ts)) = Some (s, rs') \<and>
       inj ! i = inject_against (rt_registry rt) s (es ! i) \<and>
       checkLivenessM12 (rt_registry rt) (inj ! i) s = None \<and> link_gates (rt_registry rt) (inj ! i) s = None \<and>
       checkGatesAgainstState (inj ! i) s = None)"
proof -
  have pl: "program_locked E rt es = (rt', Inr rs)"
    using assms by (auto simp: ApplyProgram_def split: option.splits)
  show ?thesis
  proof (cases rule: program_locked_cases [of E rt es])
    case (rejected err rt1)
    with pl show ?thesis by simp
  next
    case (landed inj nx rs' rt2 rt6)
    let ?ts = "batch_times E rt (length es)"
    have z: "map snd (zip es ?ts) = ?ts" "map fst (zip es ?ts) = es" by simp_all
    have "rs' = rs" "rt6 = rt'" using pl landed(4) by simp_all
    moreover obtain rest where "rt_log rt6 = rt_log rt @ stamp_all (rt_logSeq rt) (zip inj ?ts) @ rest"
      using grown_log_prefix [OF landed(7)] landed(6) by auto
    moreover have "length rs' = length es"
      using eval_chain_length [OF landed(3)] landed(2) by simp
    moreover have "fst (zip es ?ts ! i) = es ! i" if "i < length es" for i using that by simp
    ultimately show ?thesis
      using working_loop_chain [OF landed(1)] landed(2,3)
      unfolding Log_def State_def Clone_id MaxLogSeq_def z
      by (intro exI [of _ inj] exI [of _ ?ts] exI [of _ rest]) simp
  qed
qed

theorem ApplyProgram_success_witness:
  "\<exists>rt' rs inj ts rest. ApplyProgram ex_kenv (ex_rt ex_ab_envs None) [ex_unlink ''r''] = (rt', Inr rs) \<and>
     length inj = 1 \<and> Log rt' = Log (ex_rt ex_ab_envs None) @
       stamp_all (MaxLogSeq (ex_rt ex_ab_envs None)) (zip inj ts) @ rest"
proof -
  have "case ApplyProgram ex_kenv (ex_rt ex_ab_envs None) [ex_unlink ''r''] of (_, Inl _) \<Rightarrow> False | (_, Inr _) \<Rightarrow> True"
    by code_simp
  then obtain rt' rs where a: "ApplyProgram ex_kenv (ex_rt ex_ab_envs None) [ex_unlink ''r''] = (rt', Inr rs)"
    by (auto split: prod.splits sum.splits)
  from ApplyProgram_success [OF a] a show ?thesis by auto
qed

text \<open>C13: on a store that refuses nothing, as MemStore, the sequence numbers have no gap and no
  duplicate: every step appends consecutive numbers from the counter on, up to the int64 bound.\<close>

theorem sequence_consecutive:
  assumes "kernel_step E rt rt'" "k_ops E = mem_ops"
  shows "\<exists>new. Log rt' = Log rt @ new \<and>
    (seq_room (MaxLogSeq rt) (length new) \<longrightarrow>
       seqs new = map (\<lambda>i. MaxLogSeq rt + 1 + int i) [0..<length new] \<and>
       MaxLogSeq rt' = MaxLogSeq rt + int (length new))"
  unfolding Log_def MaxLogSeq_def by (rule grown_mem_seqs [OF grown_kernel_step [OF assms(1)] assms(2)])

theorem sequence_consecutive_witness:
  "\<exists>new. Log (fst (apply_locked ex_kenv (ex_rt ex_ab_envs None) (ex_unlink ''r''))) =
     Log (ex_rt ex_ab_envs None) @ new \<and> seqs new = map (\<lambda>i. 2 + int i) [0..<length new] \<and> new \<noteq> []"
proof -
  let ?rt = "ex_rt ex_ab_envs None" let ?rt' = "fst (apply_locked ex_kenv ?rt (ex_unlink ''r''))"
  have c: "length (Log ?rt') = 4" "length (Log ?rt) = 3" "MaxLogSeq ?rt = 1" by code_simp+
  obtain new where new: "Log ?rt' = Log ?rt @ new" "seq_room 1 (length new) \<longrightarrow>
      seqs new = map (\<lambda>i. 1 + 1 + int i) [0..<length new]"
    using sequence_consecutive [OF kernel_step.commit k_ops_ex, of ?rt "ex_unlink ''r''"] unfolding c(3) by blast
  then have "length new = 1" using c by simp
  with new show ?thesis by (intro exI [of _ new]) (auto simp: seq_room_def)
qed

text \<open>C9: restarting a kernel on the MemStore it wrote always succeeds and brings back the same state
  and the same log.\<close>

theorem restart_on_MemStore:
  assumes "reachable E rt" "k_ops E = mem_ops"
  shows "\<exists>rt2. NewRuntime E (rt_store rt) reg = Inr rt2 \<and> State rt2 = State rt \<and> Log rt2 = Log rt"
proof -
  have "rt_store rt = rt_log rt" using mem_agrees.inv_reachable [OF assms(1)] assms(2) by simp
  moreover have "Replay (rt_log rt) = (rt_state rt, None)"
    using replayed.inv_reachable [OF assms(1)] by (simp add: rt_ok_def)
  ultimately show ?thesis
    unfolding NewRuntime_Inr using assms(2)
    by (simp add: mem_ops_def MemStore_ReadAll_def State_def Log_def)
qed

theorem restart_on_MemStore_witness:
  "\<exists>rt2. NewRuntime ex_kenv (rt_store (ex_rt ex_ab_envs None)) None = Inr rt2 \<and> State rt2 = ex_ab"
  using restart_on_MemStore [OF reachable_ex k_ops_ex, of None None] by (auto simp: State_def)

section \<open>Seeding, gates and causality\<close>

text \<open>Seeding is idempotent: after SeedIfAbsent has accepted the ADD of a node, seeding it again
  is accepted and leaves the state and the log as they are.\<close>

theorem seeding_idempotent:
  assumes "reachable E rt" "e_RewriteType env = ADD" "SeedIfAbsent E rt env = (rt1, None)"
  shows "\<exists>rt2. SeedIfAbsent E rt1 env = (rt2, None) \<and> State rt2 = State rt1 \<and> Log rt2 = Log rt1"
proof -
  note ok = replayed.inv_reachable [OF assms(1)]
  obtain res where aw: "applyWithOptions E rt env True = (rt1, res)"
    and res: "(\<exists>r. res = Inr r) \<or> (\<exists>u. res = Inl (FoldErr (ErrNodeExists u)) \<or> res = Inl (FoldErr (ErrRelationExists u)))"
    using assms(3) by (auto simp: SeedIfAbsent_def split: prod.splits sum.splits kernel_error.splits fold_error.splits)
  have v: "validate (rt_registry rt) env = None"
    using aw res by (auto simp: applyWithOptions_def apply_check_def split: option.splits)
  then have al: "apply_locked E rt env = (rt1, res)" using aw by (simp add: applyWithOptions_def apply_check_def)
  have g: "grown E rt rt1" using grown_apply_locked [of E rt env] al by simp
  have present: "validateEnvelopeStructure env = None \<and> mget (Nodes (rt_state rt1)) (e_NodeURN env) \<noteq> None"
    by (rule ADD_lands [OF assms(2) al res ok])
  have "validate (rt_registry rt1) env = None" using v g by (auto simp: grown_def grows_def)
  from Seed_existing [OF assms(2) this] present show ?thesis by (simp add: State_def Log_def)
qed

theorem seeding_idempotent_witness:
  "\<exists>rt1 rt2. SeedIfAbsent ex_kenv (ex_rt ex_ab_envs None) (ex_add ''c'' ''task'' []) = (rt1, None) \<and>
     SeedIfAbsent ex_kenv rt1 (ex_add ''c'' ''task'' []) = (rt2, None) \<and> Log rt2 = Log rt1"
proof -
  have "snd (SeedIfAbsent ex_kenv (ex_rt ex_ab_envs None) (ex_add ''c'' ''task'' [])) = None"
    by code_simp
  then obtain rt1 where "SeedIfAbsent ex_kenv (ex_rt ex_ab_envs None) (ex_add ''c'' ''task'' []) = (rt1, None)"
    by (metis prod.collapse)
  from seeding_idempotent [OF reachable_ex _ this] this show ?thesis by auto
qed

text \<open>C10: guards on the apply path fail closed and do not depend on iteration order: an envelope
  passes exactly when every guarded-by relation into a node it touches starts at an existing node
  and, if that node is a gate, its predicate holds.\<close>

theorem gates_fail_closed:
  assumes "good_state s"
  shows "checkGatesAgainstState env s = None \<longleftrightarrow>
    (\<forall>k r. mget (Relations s) k = Some r \<and> r_TgtPort r = ''guarded-by'' \<and> r_TgtURN r \<in> set (gate_targets env s) \<longrightarrow>
       (\<exists>g. mget (Nodes s) (r_SrcURN r) = Some g \<and> (n_TypeID g = ''gate'' \<longrightarrow> EvaluatePredicate s g)))"
  using assms by (intro checkGates_None) (simp add: good_state_def wf_state_def)

theorem gates_fail_closed_witness:
  "checkGatesAgainstState (ex_mutate ''t'' ''title'' (VStr ''y'') 0) ex_gated \<noteq> None"
proof -
  have f: "map_option (\<lambda>r. (r_SrcURN r, r_TgtPort r, r_TgtURN r)) (mget (Relations ex_gated) ''l'') =
      Some (''g'', ''guarded-by'', ''t'')"
    "map_option (\<lambda>g. (n_TypeID g, EvaluatePredicate ex_gated g)) (mget (Nodes ex_gated) ''g'') = Some (''gate'', False)"
    by code_simp+
  note exact = gates_fail_closed [OF good_state_ex_gated, of "ex_mutate ''t'' ''title'' (VStr ''y'') 0"]
  obtain r g where r: "mget (Relations ex_gated) ''l'' = Some r" "r_SrcURN r = ''g''" "r_TgtPort r = ''guarded-by''"
    "r_TgtURN r = ''t''" and g: "mget (Nodes ex_gated) ''g'' = Some g" "n_TypeID g = ''gate''" "\<not> EvaluatePredicate ex_gated g"
    using f by auto
  have "r_TgtURN r \<in> set (gate_targets (ex_mutate ''t'' ''title'' (VStr ''y'') 0) ex_gated)"
    using r(4) by (simp add: gate_targets_def)
  with exact r g show ?thesis by (metis option.inject)
qed

text \<open>C11: with an ontology loaded, no program makes an acyclic causal graph cyclic, its session
  bumps and drift annotations included.\<close>

theorem ApplyProgram_keeps_causality:
  assumes "reachable E rt" "rt_registry rt = Some r" "acyclic (causes (State rt))"
  shows "acyclic (causes (State (fst (ApplyProgram E rt es))))"
proof (cases "program_preflight rt es")
  case (Some err)
  with assms show ?thesis by (simp add: ApplyProgram_def State_def)
next
  case None
  have ac: "acyclic (causes (rt_state rt))" using assms(3) by (simp add: State_def)
  show ?thesis
  proof (cases rule: program_locked_cases [of E rt es])
    case (rejected err rt1)
    with None ac show ?thesis by (simp add: ApplyProgram_def State_def)
  next
    case (landed inj nx rs rt2 rt6)
    have z: "map snd (zip es (batch_times E rt (length es))) = batch_times E rt (length es)" by simp
    have "acyclic (causes nx)"
      using working_loop_acyclic [OF landed(1) [unfolded assms(2)] rt_ok_good ac] landed(3)
        replayed.inv_reachable [OF assms(1)] unfolding z by blast
    then have "acyclic (causes (rt_state rt6))" using landed(8) by (rule acyclic_subset)
    with None landed(4) show ?thesis by (simp add: ApplyProgram_def State_def)
  qed
qed

lemma causes_ex_ab: "causes ex_ab = {(''a'', ''b'')}"
proof -
  have "\<forall>(u, r)\<in>set (Relations ex_ab). (r_SrcURN r, r_TgtURN r) = (''a'', ''b'')"
    "map_option (\<lambda>r. (r_SrcURN r, r_TgtURN r, is_causes r)) (mget (Relations ex_ab) ''r'') = Some (''a'', ''b'', True)"
    by code_simp+
  note all = this(1) and one = this(2)
  have "causes ex_ab \<subseteq> {(''a'', ''b'')}"
  proof
    fix e assume "e \<in> causes ex_ab"
    then obtain r u where r: "e = (r_SrcURN r, r_TgtURN r)" "mget (Relations ex_ab) u = Some r"
      unfolding causes_def by blast
    from bspec [OF all map_of_SomeD [OF r(2)]] r(1) show "e \<in> {(''a'', ''b'')}" by simp
  qed
  moreover have "(''a'', ''b'') \<in> causes ex_ab"
  proof -
    obtain r where "mget (Relations ex_ab) ''r'' = Some r" "r_SrcURN r = ''a''" "r_TgtURN r = ''b''" "is_causes r"
      using one by auto
    then show ?thesis unfolding causes_def by force
  qed
  ultimately show ?thesis by blast
qed

theorem ApplyProgram_keeps_causality_witness:
  "acyclic (causes (State (fst (ApplyProgram ex_kenv (ex_rt ex_ab_envs (Some ex_registry)) [ex_unlink ''r'']))))"
  by (rule ApplyProgram_keeps_causality [OF reachable_ex, of _ ex_registry])
     (simp_all add: State_def causes_ex_ab acyclic_def trancl_insert)

text \<open>C29: a reactor can close a causal cycle. A WF21 link that Apply rejects because it would close a
  cycle is accepted when a reactor proposes it, and the state is then cyclic: the reactive path
  runs neither the strata nor the causal gate.\<close>

theorem reactor_closes_cycle:
  assumes "good_state (rt_state rt)" "rt_registry rt = Some reg" "k_ops E = mem_ops"
    and "e_RewriteType env = LINK" "e_RewriteCategory env = WF21" "e_SrcPort env = ''causes''"
    and "validate (Some reg) env = None"
    and "EvaluateAt (rt_state rt) env (clock (k_lib E) (rt_reads rt)) = Inr (nx, r)"
    and "(e_TgtURN env, e_SrcURN env) \<in> (causes (rt_state rt))\<^sup>*"
  shows "(\<exists>err. snd (Apply E rt env) = Inl err) \<and> snd (applyReactiveLocked E rt env) \<and>
    \<not> acyclic (causes (State (fst (applyReactiveLocked E rt env))))"
proof -
  have "indexed (rt_state rt)" using assms(1) by (simp add: good_state_def)
  then have "ValidateCausalAcyclic env (rt_state rt) \<noteq> None"
    using ValidateCausalAcyclic_None [OF _ assms(4,5)] assms(9) by blast
  then have lg: "link_gates (rt_registry rt) env (rt_state rt) \<noteq> None"
    using assms(2,4) by (simp add: link_gates_def)
  have "\<exists>err. snd (Apply E rt env) = Inl err"
    using lg assms(4)
    by (auto simp: Apply_def applyWithOptions_def apply_locked_def prepare_mutate_def split: option.split)
  moreover have "applyReactiveLocked E rt env = emit E rt env"
    using assms(2,4,7) by (simp add: applyReactiveLocked_def reactive_mutate_ok_def)
  moreover have "snd (emit E rt env) \<and> rt_state (fst (emit E rt env)) = nx"
    using assms(3,8) by (simp add: emit_def read_clock_def persist_one_def mem_ops_def MemStore_Append_def
        Let_def install_def broadcast_def)
  moreover have "\<not> acyclic (causes nx)"
  proof -
    have "causes nx = insert (e_SrcURN env, e_TgtURN env) (causes (rt_state rt))"
      using assms(5,6,8) by (auto simp: EvaluateAt_LINK_iff [OF assms(4)] causes_put_fresh is_causes_def)
    with assms(9) show ?thesis by (simp add: acyclic_insert)
  qed
  ultimately show ?thesis by (simp add: State_def)
qed

theorem reactor_closes_cycle_witness:
  "\<not> acyclic (causes (State (fst (applyReactiveLocked ex_kenv (ex_rt ex_ab_envs (Some ex_registry))
     (ex_link ''q'' WF21 ''b'' ''causes'' ''a'' ''caused-by'')))))"
proof -
  let ?e = "ex_link ''q'' WF21 ''b'' ''causes'' ''a'' ''caused-by''"
  have "validate (Some ex_registry) ?e = None" by code_simp
  moreover obtain nx r where "EvaluateAt ex_ab ?e (clock (k_lib ex_kenv) (rt_reads (ex_rt ex_ab_envs (Some ex_registry)))) = Inr (nx, r)"
    using ex_ab_rel ex_ab_nodes by (auto simp: EvaluateAt_LINK_iff)
  ultimately show ?thesis
    using reactor_closes_cycle [of "ex_rt ex_ab_envs (Some ex_registry)" ex_registry ex_kenv ?e nx r]
    by (simp add: causes_ex_ab r_into_rtrancl)
qed

end
